theory Spec2Isabelle
  imports Main "HOL-Library.Sublist"
begin

section \<open>Data model\<close>

text \<open>
  The four export scripts (\<^verbatim>\<open>gw_groups_backup.py\<close>, \<^verbatim>\<open>gw_gg_settings_backup.py\<close>,
  \<^verbatim>\<open>gw_export_users_with_forwarding.py\<close>, \<^verbatim>\<open>gw_export_shared_drives_acls.py\<close>) talk to
  remote services and write one CSV file. The remote services are a parameter of the
  model: every endpoint is a function on an abstract world \<open>'w\<close> that returns either a
  raised exception or a payload, and the next world. The scripts are state transformers
  over a record holding the world, the trace of remote calls and sleeps, and the local
  CSV file.
\<close>

datatype exn =
    HttpError nat
  | SSLEOFError
  | TimeoutError
  | KeyError string
  | TypeError
  | ValueError
  | FileNotFoundError
  | OtherError string

text \<open>\<^verbatim>\<open>except HttpError\<close>: does the handler match the raised exception?\<close>

fun is_HttpError :: "exn \<Rightarrow> bool" where
  "is_HttpError (HttpError status) = True"
| "is_HttpError _ = False"

text \<open>A JSON object whose values are strings, as a Python dict.\<close>

type_synonym obj = "(string \<times> string) list"

definition dict_get :: "obj \<Rightarrow> string \<Rightarrow> string \<Rightarrow> string" where
  "dict_get d k dflt = (case map_of d k of None \<Rightarrow> dflt | Some v \<Rightarrow> v)"

text \<open>
  One page of a list endpoint. \<open>items\<close> is what \<^verbatim>\<open>response.get('<kind>', [])\<close> reads
  (an absent key reads as the empty list); \<open>nextPageToken\<close> is \<open>None\<close> when the key is absent.
\<close>

record 'a page =
  items :: "'a list"
  nextPageToken :: "string option"

record user =
  primaryEmail :: "string option"
  fullName :: "string option"
  suspended :: "bool option"

record forwarding =
  enabled :: "bool option"
  emailAddress :: "string option"
  disposition :: "string option"

type_synonym row = "string list"

datatype request =
    GroupsList "string option"
  | MembersList string
  | GroupsSettingsGet "string option"
  | FilesList "string option"
  | FilesCreate string "string option" "row list"
  | DrivesList "string option"
  | PermissionsList string "string option"
  | UsersList string "string option"
  | GetAutoForwarding string

datatype event = Call request | Sleep nat

record 'w service =
  groups_list :: "string option \<Rightarrow> 'w \<Rightarrow> (exn + obj page) \<times> 'w"
  members_list :: "string \<Rightarrow> 'w \<Rightarrow> (exn + obj page) \<times> 'w"
  groups_settings_get :: "string option \<Rightarrow> 'w \<Rightarrow> (exn + obj) \<times> 'w"
  files_list :: "string option \<Rightarrow> 'w \<Rightarrow> (exn + obj list) \<times> 'w"
  files_create :: "string \<Rightarrow> string option \<Rightarrow> row list \<Rightarrow> 'w \<Rightarrow> (exn + string option) \<times> 'w"
  drives_list :: "string option \<Rightarrow> 'w \<Rightarrow> (exn + obj page) \<times> 'w"
  permissions_list :: "string \<Rightarrow> string option \<Rightarrow> 'w \<Rightarrow> (exn + obj page) \<times> 'w"
  users_list :: "string \<Rightarrow> string option \<Rightarrow> 'w \<Rightarrow> (exn + user page) \<times> 'w"
  get_auto_forwarding :: "string \<Rightarrow> 'w \<Rightarrow> (exn + forwarding) \<times> 'w"

record 'w st =
  world :: 'w
  trace :: "event list"
  csv :: "row list option"

text \<open>\<^verbatim>\<open>request.execute()\<close>: one remote call, recorded in the trace.\<close>

definition execute :: "request \<Rightarrow> ('w \<Rightarrow> (exn + 'a) \<times> 'w) \<Rightarrow> 'w st \<Rightarrow> (exn + 'a) \<times> 'w st" where
  "execute req f s =
     (let (r, w') = f (world s) in (r, s\<lparr>world := w', trace := trace s @ [Call req]\<rparr>))"

text \<open>\<^verbatim>\<open>time.sleep(delay)\<close>.\<close>

definition sleep :: "nat \<Rightarrow> 'w st \<Rightarrow> 'w st" where
  "sleep d s = s\<lparr>trace := trace s @ [Sleep d]\<rparr>"

text \<open>\<^verbatim>\<open>open(csv_file, mode='w')\<close> and \<^verbatim>\<open>writer.writerow(r)\<close>.\<close>

definition open_csv :: "'w st \<Rightarrow> 'w st" where
  "open_csv s = s\<lparr>csv := Some []\<rparr>"

definition writerow :: "row \<Rightarrow> 'w st \<Rightarrow> 'w st" where
  "writerow r s = s\<lparr>csv := map_option (\<lambda>rows. rows @ [r]) (csv s)\<rparr>"

fun writerows :: "row list \<Rightarrow> 'w st \<Rightarrow> 'w st" where
  "writerows [] s = s"
| "writerows (r # rs) s = writerows rs (writerow r s)"

section \<open>The retrying detail fetchers\<close>

text \<open>
  \<^verbatim>\<open>get_group_members(service, group_email, retries=3, delay=5)\<close> of
  \<^verbatim>\<open>gw_groups_backup.py\<close>. The \<^verbatim>\<open>for attempt in range(retries)\<close> loop runs over the list
  of attempt numbers; falling out of the loop returns Python's \<^verbatim>\<open>None\<close>.
\<close>

fun get_group_members_loop ::
  "'w service \<Rightarrow> string \<Rightarrow> nat \<Rightarrow> nat \<Rightarrow> nat list \<Rightarrow> 'w st \<Rightarrow> (exn + obj list option) \<times> 'w st" where
  "get_group_members_loop svc group_email retries delay [] s = (Inr None, s)"
| "get_group_members_loop svc group_email retries delay (attempt # rest) s =
     (let (r, s1) = execute (MembersList group_email) (members_list svc group_email) s in
      case r of
        Inr members_result \<Rightarrow> (Inr (Some (items members_result)), s1)
      | Inl error \<Rightarrow>
          (case error of
             HttpError status \<Rightarrow>
               if status = 503 then
                 (if attempt < retries - 1
                  then get_group_members_loop svc group_email retries delay rest (sleep delay s1)
                  else (Inr (Some []), s1))
               else (Inl error, s1)
           | _ \<Rightarrow> (Inl error, s1)))"

definition get_group_members ::
  "'w service \<Rightarrow> string \<Rightarrow> nat \<Rightarrow> nat \<Rightarrow> 'w st \<Rightarrow> (exn + obj list option) \<times> 'w st" where
  "get_group_members svc group_email retries delay s =
     get_group_members_loop svc group_email retries delay [0..<retries] s"

text \<open>
  \<^verbatim>\<open>get_group_settings(group_email)\<close> of \<^verbatim>\<open>gw_gg_settings_backup.py\<close>, with
  \<^verbatim>\<open>max_retries = 3\<close>. Every \<^verbatim>\<open>HttpError\<close> and \<^verbatim>\<open>TimeoutError\<close> is caught.
\<close>

definition max_retries :: nat where
  "max_retries = 3"

fun get_group_settings_loop ::
  "'w service \<Rightarrow> string option \<Rightarrow> nat list \<Rightarrow> 'w st \<Rightarrow> (exn + obj option) \<times> 'w st" where
  "get_group_settings_loop svc group_email [] s = (Inr None, s)"
| "get_group_settings_loop svc group_email (attempt # rest) s =
     (let (r, s1) = execute (GroupsSettingsGet group_email) (groups_settings_get svc group_email) s in
      case r of
        Inr response \<Rightarrow> (Inr (Some response), s1)
      | Inl error \<Rightarrow>
          (if is_HttpError error \<or> error = TimeoutError then
             (if attempt < max_retries - 1
              then get_group_settings_loop svc group_email rest (sleep (5 * (attempt + 1)) s1)
              else (Inr None, s1))
           else (Inl error, s1)))"

definition get_group_settings ::
  "'w service \<Rightarrow> string option \<Rightarrow> 'w st \<Rightarrow> (exn + obj option) \<times> 'w st" where
  "get_group_settings svc group_email s =
     get_group_settings_loop svc group_email [0..<max_retries] s"

text \<open>
  \<^verbatim>\<open>get_forwarding_settings(user_email, retries=5, delay=30)\<close> of
  \<^verbatim>\<open>gw_export_users_with_forwarding.py\<close>. The local \<^verbatim>\<open>delay\<close> is doubled after every
  sleep, so it is an argument of the loop. \<^verbatim>\<open>settings['enabled']\<close> raises
  \<^verbatim>\<open>KeyError\<close> when the key is absent. Building the delegated Gmail client
  (\<^verbatim>\<open>with_subject\<close>, \<^verbatim>\<open>build\<close>) is local work and is taken to succeed; the remote
  call is \<^verbatim>\<open>getAutoForwarding\<close>.
\<close>

fun get_forwarding_settings_loop ::
  "'w service \<Rightarrow> string \<Rightarrow> nat \<Rightarrow> nat list \<Rightarrow> 'w st
     \<Rightarrow> (exn + string option \<times> string option) \<times> 'w st" where
  "get_forwarding_settings_loop svc user_email delay [] s = (Inr (None, None), s)"
| "get_forwarding_settings_loop svc user_email delay (attempt # rest) s =
     (let (r, s1) = execute (GetAutoForwarding user_email) (get_auto_forwarding svc user_email) s in
      case r of
        Inr settings \<Rightarrow>
          (case enabled settings of
             None \<Rightarrow> (Inl (KeyError ''enabled''), s1)
           | Some en \<Rightarrow>
               if en then
                 (Inr (Some (case emailAddress settings of None \<Rightarrow> ''N/A'' | Some a \<Rightarrow> a),
                       Some (case disposition settings of None \<Rightarrow> ''N/A'' | Some d \<Rightarrow> d)), s1)
               else (Inr (None, None), s1))
      | Inl e \<Rightarrow>
          (case e of
             HttpError status \<Rightarrow>
               if status = 429
               then get_forwarding_settings_loop svc user_email (delay * 2) rest (sleep delay s1)
               else (Inr (None, None), s1)
           | _ \<Rightarrow> (Inl e, s1)))"

definition get_forwarding_settings ::
  "'w service \<Rightarrow> string \<Rightarrow> nat \<Rightarrow> nat \<Rightarrow> 'w st \<Rightarrow> (exn + string option \<times> string option) \<times> 'w st" where
  "get_forwarding_settings svc user_email retries delay s =
     get_forwarding_settings_loop svc user_email delay [0..<retries] s"

section \<open>Destination probe and upload\<close>

text \<open>
  \<^verbatim>\<open>check_folder_exists(drive_service, folder_id)\<close>, the same text in
  \<^verbatim>\<open>gw_groups_backup.py\<close> and \<^verbatim>\<open>gw_gg_settings_backup.py\<close>. Only \<^verbatim>\<open>HttpError\<close> is
  caught; the list of files found is only printed.
\<close>

definition check_folder_exists :: "'w service \<Rightarrow> string option \<Rightarrow> 'w st \<Rightarrow> (exn + bool) \<times> 'w st" where
  "check_folder_exists svc folder_id s =
     (let (r, s1) = execute (FilesList folder_id) (files_list svc folder_id) s in
      case r of
        Inr files \<Rightarrow> (Inr True, s1)
      | Inl error \<Rightarrow> if is_HttpError error then (Inr False, s1) else (Inl error, s1))"

text \<open>
  \<^verbatim>\<open>upload_file_to_drive(drive_service, csv_file, filename, folder_id, retries=3, delay=5)\<close>,
  the same text in both group scripts. \<^verbatim>\<open>MediaFileUpload\<close> reads the local file; the loop
  retries \<^verbatim>\<open>ssl.SSLEOFError\<close> and \<^verbatim>\<open>HttpError\<close> with the unchanged \<^verbatim>\<open>delay\<close> and
  re-raises on the last attempt.
\<close>

fun upload_file_to_drive_loop ::
  "'w service \<Rightarrow> row list \<Rightarrow> string \<Rightarrow> string option \<Rightarrow> nat \<Rightarrow> nat \<Rightarrow> nat list \<Rightarrow> 'w st
     \<Rightarrow> (exn + string option) \<times> 'w st" where
  "upload_file_to_drive_loop svc media filename folder_id retries delay [] s = (Inr None, s)"
| "upload_file_to_drive_loop svc media filename folder_id retries delay (attempt # rest) s =
     (let (r, s1) = execute (FilesCreate filename folder_id media)
                      (files_create svc filename folder_id media) s in
      case r of
        Inr file_id \<Rightarrow> (Inr file_id, s1)
      | Inl e \<Rightarrow>
          (if e = SSLEOFError \<or> is_HttpError e then
             (if attempt < retries - 1
              then upload_file_to_drive_loop svc media filename folder_id retries delay rest
                     (sleep delay s1)
              else (Inl e, s1))
           else (Inl e, s1)))"

definition upload_file_to_drive ::
  "'w service \<Rightarrow> string \<Rightarrow> string option \<Rightarrow> nat \<Rightarrow> nat \<Rightarrow> 'w st \<Rightarrow> (exn + string option) \<times> 'w st" where
  "upload_file_to_drive svc filename folder_id retries delay s =
     (case csv s of
        None \<Rightarrow> (Inl FileNotFoundError, s)
      | Some media \<Rightarrow>
          upload_file_to_drive_loop svc media filename folder_id retries delay [0..<retries] s)"

text \<open>
  \<^verbatim>\<open>upload_to_drive(filename, folder_id)\<close>, the same text in
  \<^verbatim>\<open>gw_export_users_with_forwarding.py\<close> and \<^verbatim>\<open>gw_export_shared_drives_acls.py\<close>: one
  attempt, an \<^verbatim>\<open>HttpError\<close> is printed and dropped.
\<close>

definition upload_to_drive :: "'w service \<Rightarrow> string \<Rightarrow> string option \<Rightarrow> 'w st \<Rightarrow> (exn + unit) \<times> 'w st" where
  "upload_to_drive svc filename folder_id s =
     (case csv s of
        None \<Rightarrow> (Inl FileNotFoundError, s)
      | Some media \<Rightarrow>
          (let (r, s1) = execute (FilesCreate filename folder_id media)
                           (files_create svc filename folder_id media) s in
           case r of
             Inr file_id \<Rightarrow> (Inr (), s1)
           | Inl e \<Rightarrow> if is_HttpError e then (Inr (), s1) else (Inl e, s1)))"

section \<open>Listing\<close>

text \<open>
  \<^verbatim>\<open>list_next(previous_request, previous_response)\<close> of the Google API client: no next
  request when the response has no \<^verbatim>\<open>nextPageToken\<close> or an empty one, otherwise the same
  request with that page token. A request is represented by its page token.
\<close>

definition list_next :: "'a page \<Rightarrow> string option option" where
  "list_next previous_response =
     (case nextPageToken previous_response of
        None \<Rightarrow> None
      | Some t \<Rightarrow> if t = [] then None else Some (Some t))"

text \<open>
  \<^verbatim>\<open>get_google_groups()\<close>, in both group scripts. The \<^verbatim>\<open>while request is not None\<close> loop
  can run forever against a server that always hands out a next page, so it takes fuel:
  the result is \<open>None\<close> when the loop has not finished within \<open>fuel\<close> tests of its condition.
\<close>

fun get_google_groups_loop ::
  "'w service \<Rightarrow> nat \<Rightarrow> string option option \<Rightarrow> obj list \<Rightarrow> 'w st
     \<Rightarrow> ((exn + obj list) \<times> 'w st) option" where
  "get_google_groups_loop svc 0 request groups s = None"
| "get_google_groups_loop svc (Suc fuel) request groups s =
     (case request of
        None \<Rightarrow> Some (Inr groups, s)
      | Some page_token \<Rightarrow>
          (let (r, s1) = execute (GroupsList page_token) (groups_list svc page_token) s in
           case r of
             Inl e \<Rightarrow> Some (Inl e, s1)
           | Inr response \<Rightarrow>
               get_google_groups_loop svc fuel (list_next response) (groups @ items response) s1))"

definition get_google_groups :: "'w service \<Rightarrow> nat \<Rightarrow> 'w st \<Rightarrow> ((exn + obj list) \<times> 'w st) option" where
  "get_google_groups svc fuel s = get_google_groups_loop svc fuel (Some None) [] s"

text \<open>
  \<^verbatim>\<open>get_active_users(customer_id)\<close> of \<^verbatim>\<open>gw_export_users_with_forwarding.py\<close>. The body of
  the \<^verbatim>\<open>try\<close> returns the exception, if any, together with the list \<^verbatim>\<open>users\<close> as it
  stands; \<^verbatim>\<open>except Exception\<close> then drops the exception and the function filters and
  returns that list.
\<close>

fun get_active_users_loop ::
  "'w service \<Rightarrow> nat \<Rightarrow> string \<Rightarrow> user page \<Rightarrow> user list \<Rightarrow> 'w st
     \<Rightarrow> (((exn + unit) \<times> user list) \<times> 'w st) option" where
  "get_active_users_loop svc 0 customer_id results users s = None"
| "get_active_users_loop svc (Suc fuel) customer_id results users s =
     (case nextPageToken results of
        None \<Rightarrow> Some ((Inr (), users), s)
      | Some tok \<Rightarrow>
          (let (r, s1) = execute (UsersList customer_id (Some tok))
                           (users_list svc customer_id (Some tok)) s in
           case r of
             Inl e \<Rightarrow> Some ((Inl e, users), s1)
           | Inr results' \<Rightarrow>
               get_active_users_loop svc fuel customer_id results' (users @ items results') s1))"

definition get_active_users_try ::
  "'w service \<Rightarrow> nat \<Rightarrow> string \<Rightarrow> 'w st \<Rightarrow> (((exn + unit) \<times> user list) \<times> 'w st) option" where
  "get_active_users_try svc fuel customer_id s =
     (let (r, s1) = execute (UsersList customer_id None) (users_list svc customer_id None) s in
      case r of
        Inl e \<Rightarrow> Some ((Inl e, []), s1)
      | Inr results \<Rightarrow> get_active_users_loop svc fuel customer_id results (items results) s1)"

definition is_suspended :: "user \<Rightarrow> bool" where
  "is_suspended u = (case suspended u of None \<Rightarrow> False | Some b \<Rightarrow> b)"

definition get_active_users :: "'w service \<Rightarrow> nat \<Rightarrow> string \<Rightarrow> 'w st \<Rightarrow> (user list \<times> 'w st) option" where
  "get_active_users svc fuel customer_id s =
     (case get_active_users_try svc fuel customer_id s of
        None \<Rightarrow> None
      | Some ((r, users), s1) \<Rightarrow> Some (filter (\<lambda>u. \<not> is_suspended u) users, s1))"

section \<open>The export jobs\<close>

subsection \<open>Group members (\<^verbatim>\<open>gw_groups_backup.py\<close>)\<close>

definition member_row :: "string \<Rightarrow> obj \<Rightarrow> row" where
  "member_row group_email member =
     [group_email, dict_get member ''email'' ''N/A'', dict_get member ''role'' ''N/A'',
      dict_get member ''status'' ''N/A'']"

text \<open>
  The \<^verbatim>\<open>for group in groups\<close> loop of \<^verbatim>\<open>export_groups_to_csv\<close>. \<^verbatim>\<open>group['email']\<close> is
  read outside the \<^verbatim>\<open>try\<close>; iterating over \<^verbatim>\<open>None\<close> raises \<^verbatim>\<open>TypeError\<close>; only
  \<^verbatim>\<open>HttpError\<close> is caught.
\<close>

fun export_groups_rows :: "'w service \<Rightarrow> obj list \<Rightarrow> 'w st \<Rightarrow> (exn + unit) \<times> 'w st" where
  "export_groups_rows svc [] s = (Inr (), s)"
| "export_groups_rows svc (grp # rest) s =
     (case map_of grp ''email'' of
        None \<Rightarrow> (Inl (KeyError ''email''), s)
      | Some group_email \<Rightarrow>
          (let (r, s1) = get_group_members svc group_email 3 5 s in
           case r of
             Inr None \<Rightarrow> (Inl TypeError, s1)
           | Inr (Some members) \<Rightarrow>
               export_groups_rows svc rest (writerows (map (member_row group_email) members) s1)
           | Inl error \<Rightarrow>
               if is_HttpError error then export_groups_rows svc rest s1 else (Inl error, s1)))"

definition export_groups_to_csv ::
  "'w service \<Rightarrow> string \<Rightarrow> obj list \<Rightarrow> string option \<Rightarrow> 'w st \<Rightarrow> (exn + unit) \<times> 'w st" where
  "export_groups_to_csv svc timestamp groups folder_id s =
     (let filename = ''gg_backup_'' @ timestamp @ ''.csv'';
          s1 = writerow [''Group Email'', ''Member Email'', ''Role'', ''Status''] (open_csv s);
          (r, s2) = export_groups_rows svc groups s1 in
      case r of
        Inl e \<Rightarrow> (Inl e, s2)
      | Inr u \<Rightarrow>
          (let (r', s3) = upload_file_to_drive svc filename folder_id 3 5 s2 in
           case r' of Inl e \<Rightarrow> (Inl e, s3) | Inr file_id \<Rightarrow> (Inr (), s3)))"

text \<open>\<^verbatim>\<open>main()\<close> of \<^verbatim>\<open>gw_groups_backup.py\<close>.\<close>

definition main_groups_backup ::
  "'w service \<Rightarrow> nat \<Rightarrow> string \<Rightarrow> string option \<Rightarrow> 'w st \<Rightarrow> ((exn + unit) \<times> 'w st) option" where
  "main_groups_backup svc fuel timestamp folder_id s =
     (let (r, s1) = check_folder_exists svc folder_id s in
      case r of
        Inl e \<Rightarrow> Some (Inl e, s1)
      | Inr ok \<Rightarrow>
          if ok then
            (case get_google_groups svc fuel s1 of
               None \<Rightarrow> None
             | Some (Inl e, s2) \<Rightarrow> Some (Inl e, s2)
             | Some (Inr groups, s2) \<Rightarrow> Some (export_groups_to_csv svc timestamp groups folder_id s2))
          else Some (Inr (), s1))"

subsection \<open>Group settings (\<^verbatim>\<open>gw_gg_settings_backup.py\<close>)\<close>

definition fields :: "string list" where
  "fields = [
    ''email'', ''id'', ''name'', ''description'', ''directMembersCount'', ''adminCreated'',
      ''aliases'', ''nonEditableAliases'', ''allowExternalMembers'', ''allowWebPosting'',
      ''archiveOnly'', ''customFooterText'', ''customRolesEnabledForSettingsToBeMerged'',
      ''defaultMessageDenyNotificationText'', ''defaultSender'',
      ''enableCollaborativeInbox'', ''includeCustomFooter'',
      ''includeInGlobalAddressList'', ''isArchived'', ''membersCanPostAsTheGroup'',
      ''messageModerationLevel'', ''primaryLanguage'', ''replyTo'',
      ''sendMessageDenyNotification'', ''spamModerationLevel'', ''whoCanContactOwner'',
      ''whoCanJoin'', ''whoCanLeaveGroup'', ''whoCanPostMessage'', ''whoCanViewGroup'',
      ''whoCanViewMembership'', ''whoCanDiscoverGroup'', ''showInGroupDirectory'',
      ''whoCanAssistContent'', ''whoCanAssignTopics'', ''whoCanEnterFreeFormTags'',
      ''whoCanHideAbuse'', ''whoCanMakeTopicsSticky'', ''whoCanMarkDuplicate'',
      ''whoCanMarkFavoriteReplyOnAnyTopic'', ''whoCanMarkNoResponseNeeded'',
      ''whoCanModifyTagsAndCategories'', ''whoCanTakeTopics'', ''whoCanUnassignTopic'',
      ''whoCanUnmarkFavoriteReplyOnAnyTopic'', ''whoCanModerateContent'',
      ''whoCanApproveMessages'', ''whoCanDeleteAnyPost'', ''whoCanDeleteTopics'',
      ''whoCanLockTopics'', ''whoCanMoveTopicsIn'', ''whoCanMoveTopicsOut'',
      ''whoCanPostAnnouncements'', ''whoCanModerateMembers'', ''whoCanAdd'',
      ''whoCanApproveMembers'', ''whoCanBanUsers'', ''whoCanInvite'',
      ''whoCanModifyMembers'', ''allowGoogleCommunication'', ''favoriteRepliesOnTop'',
      ''maxMessageBytes'', ''messageDisplayFont'', ''whoCanAddReferences'',
      ''whoCanMarkFavoriteReplyOnOwnTopic'']"

text \<open>
  The \<^verbatim>\<open>for group in groups\<close> loop of \<^verbatim>\<open>export_groups_settings_to_csv\<close>.
  For a group without \<^verbatim>\<open>'email'\<close>, \<^verbatim>\<open>group.get('email')\<close> is \<^verbatim>\<open>None\<close>, and the API
  client refuses to build the request \<^verbatim>\<open>groups().get(groupUniqueId=None)\<close>: it raises
  \<^verbatim>\<open>TypeError\<close> (missing required parameter) before anything is sent.
  \<^verbatim>\<open>get_group_settings\<close> catches \<^verbatim>\<open>HttpError\<close> and \<^verbatim>\<open>TimeoutError\<close> only, so the
  exception leaves it and the loop without a remote call.
  \<^verbatim>\<open>if settings:\<close> is false for \<^verbatim>\<open>None\<close> and for an empty dict.
\<close>

fun export_groups_settings_rows :: "'w service \<Rightarrow> obj list \<Rightarrow> 'w st \<Rightarrow> (exn + unit) \<times> 'w st" where
  "export_groups_settings_rows svc [] s = (Inr (), s)"
| "export_groups_settings_rows svc (grp # rest) s =
     (case map_of grp ''email'' of
        None \<Rightarrow> (Inl TypeError, s)
      | Some group_email \<Rightarrow>
          (let (r, s1) = get_group_settings svc (Some group_email) s in
           case r of
             Inl e \<Rightarrow> (Inl e, s1)
           | Inr settings \<Rightarrow>
               (case settings of
                  None \<Rightarrow> export_groups_settings_rows svc rest s1
                | Some d \<Rightarrow>
                    if d \<noteq> []
                    then export_groups_settings_rows svc rest
                           (writerow (map (\<lambda>field. dict_get d field ''N/A'') fields) s1)
                    else export_groups_settings_rows svc rest s1)))"

definition export_groups_settings_to_csv ::
  "'w service \<Rightarrow> string \<Rightarrow> obj list \<Rightarrow> string option \<Rightarrow> 'w st \<Rightarrow> (exn + unit) \<times> 'w st" where
  "export_groups_settings_to_csv svc timestamp groups folder_id s =
     (let filename = ''gg_settings_backup_'' @ timestamp @ ''.csv'';
          s1 = writerow fields (open_csv s);
          (r, s2) = export_groups_settings_rows svc groups s1 in
      case r of
        Inl e \<Rightarrow> (Inl e, s2)
      | Inr u \<Rightarrow>
          (let (r', s3) = upload_file_to_drive svc filename folder_id 3 5 s2 in
           case r' of Inl e \<Rightarrow> (Inl e, s3) | Inr file_id \<Rightarrow> (Inr (), s3)))"

text \<open>\<^verbatim>\<open>main()\<close> of \<^verbatim>\<open>gw_gg_settings_backup.py\<close>.\<close>

definition main_gg_settings_backup ::
  "'w service \<Rightarrow> nat \<Rightarrow> string \<Rightarrow> string option \<Rightarrow> 'w st \<Rightarrow> ((exn + unit) \<times> 'w st) option" where
  "main_gg_settings_backup svc fuel timestamp folder_id s =
     (let (r, s1) = check_folder_exists svc folder_id s in
      case r of
        Inl e \<Rightarrow> Some (Inl e, s1)
      | Inr ok \<Rightarrow>
          if ok then
            (case get_google_groups svc fuel s1 of
               None \<Rightarrow> None
             | Some (Inl e, s2) \<Rightarrow> Some (Inl e, s2)
             | Some (Inr groups, s2) \<Rightarrow>
                 Some (export_groups_settings_to_csv svc timestamp groups folder_id s2))
          else Some (Inr (), s1))"

subsection \<open>Mail forwarding (\<^verbatim>\<open>gw_export_users_with_forwarding.py\<close>)\<close>

text \<open>
  The \<^verbatim>\<open>for user in users\<close> loop of \<^verbatim>\<open>export_users_with_forwarding_to_csv\<close>.
  \<^verbatim>\<open>if forwarding_email:\<close> is false for \<^verbatim>\<open>None\<close> and for the empty string; the CSV
  writer renders \<^verbatim>\<open>None\<close> as the empty string. \<open>fullName\<close> stands for
  \<^verbatim>\<open>user['name']['fullName']\<close>, which raises \<^verbatim>\<open>KeyError\<close> when either key is absent.
\<close>

fun export_users_rows :: "'w service \<Rightarrow> user list \<Rightarrow> 'w st \<Rightarrow> (exn + unit) \<times> 'w st" where
  "export_users_rows svc [] s = (Inr (), s)"
| "export_users_rows svc (u # rest) s =
     (case primaryEmail u of
        None \<Rightarrow> (Inl (KeyError ''primaryEmail''), s)
      | Some email \<Rightarrow>
          (let (r, s1) = get_forwarding_settings svc email 5 30 s in
           case r of
             Inl e \<Rightarrow> (Inl e, s1)
           | Inr (forwarding_email, disp) \<Rightarrow>
               (case forwarding_email of
                  None \<Rightarrow> export_users_rows svc rest s1
                | Some fwd \<Rightarrow>
                    if fwd \<noteq> [] then
                      (case fullName u of
                         None \<Rightarrow> (Inl (KeyError ''fullName''), s1)
                       | Some full_name \<Rightarrow>
                           export_users_rows svc rest
                             (writerow [email, full_name, fwd,
                                        (case disp of None \<Rightarrow> [] | Some d \<Rightarrow> d)] s1))
                    else export_users_rows svc rest s1)))"

definition export_users_with_forwarding_to_csv ::
  "'w service \<Rightarrow> string \<Rightarrow> string option \<Rightarrow> user list \<Rightarrow> 'w st \<Rightarrow> (exn + unit) \<times> 'w st" where
  "export_users_with_forwarding_to_csv svc timestamp folder_id users s =
     (let filename = ''active_users_with_forwarding_'' @ timestamp @ ''.csv'';
          s1 = writerow [''Primary Email'', ''Full Name'', ''Forwarding Email Address'',
                         ''Disposition''] (open_csv s);
          (r, s2) = export_users_rows svc users s1 in
      case r of
        Inl e \<Rightarrow> (Inl e, s2)
      | Inr u \<Rightarrow> upload_to_drive svc filename folder_id s2)"

text \<open>
  The \<^verbatim>\<open>__main__\<close> block of \<^verbatim>\<open>gw_export_users_with_forwarding.py\<close>; \<^verbatim>\<open>CUSTOMER_ID\<close> and
  \<^verbatim>\<open>FOLDER_ID\<close> are read with \<^verbatim>\<open>os.environ.get\<close>.
\<close>

definition main_forwarding ::
  "'w service \<Rightarrow> nat \<Rightarrow> string \<Rightarrow> string option \<Rightarrow> string option \<Rightarrow> 'w st
     \<Rightarrow> ((exn + unit) \<times> 'w st) option" where
  "main_forwarding svc fuel timestamp customer_id folder_id s =
     (case customer_id of
        None \<Rightarrow> Some (Inl ValueError, s)
      | Some cid \<Rightarrow>
          if cid = [] then Some (Inl ValueError, s)
          else
            (case get_active_users svc fuel cid s of
               None \<Rightarrow> None
             | Some (active_users, s1) \<Rightarrow>
                 if active_users \<noteq> []
                 then Some (export_users_with_forwarding_to_csv svc timestamp folder_id active_users s1)
                 else Some (Inr (), s1)))"

subsection \<open>Shared-drive ACLs (\<^verbatim>\<open>gw_export_shared_drives_acls.py\<close>)\<close>

text \<open>\<^verbatim>\<open>if not page_token\<close>: true for \<^verbatim>\<open>None\<close> and for the empty string.\<close>

definition no_token :: "string option \<Rightarrow> bool" where
  "no_token page_token = (case page_token of None \<Rightarrow> True | Some t \<Rightarrow> t = [])"

text \<open>The first \<^verbatim>\<open>while True\<close> loop of \<^verbatim>\<open>export_shared_drive_acls\<close>: all shared drives.\<close>

fun list_shared_drives ::
  "'w service \<Rightarrow> nat \<Rightarrow> string option \<Rightarrow> obj list \<Rightarrow> 'w st \<Rightarrow> ((exn + obj list) \<times> 'w st) option" where
  "list_shared_drives svc 0 page_token shared_drives s = None"
| "list_shared_drives svc (Suc fuel) page_token shared_drives s =
     (let (r, s1) = execute (DrivesList page_token) (drives_list svc page_token) s in
      case r of
        Inl e \<Rightarrow> Some (Inl e, s1)
      | Inr response \<Rightarrow>
          (let shared_drives' = shared_drives @ items response;
               page_token' = nextPageToken response in
           if no_token page_token' then Some (Inr shared_drives', s1)
           else list_shared_drives svc fuel page_token' shared_drives' s1))"

definition acl_row :: "string \<Rightarrow> string \<Rightarrow> obj \<Rightarrow> row" where
  "acl_row drive_name drive_id acl =
     [drive_name, drive_id, dict_get acl ''emailAddress'' ''N/A'', dict_get acl ''role'' ''N/A'',
      dict_get acl ''type'' ''N/A'', dict_get acl ''displayName'' ''N/A'']"

text \<open>The inner \<^verbatim>\<open>while True\<close> loop: the permissions of one drive, page by page.\<close>

fun export_acls_pages ::
  "'w service \<Rightarrow> nat \<Rightarrow> string \<Rightarrow> string \<Rightarrow> string option \<Rightarrow> 'w st \<Rightarrow> ((exn + unit) \<times> 'w st) option" where
  "export_acls_pages svc 0 drive_name drive_id acls_page_token s = None"
| "export_acls_pages svc (Suc fuel) drive_name drive_id acls_page_token s =
     (let (r, s1) = execute (PermissionsList drive_id acls_page_token)
                      (permissions_list svc drive_id acls_page_token) s in
      case r of
        Inl e \<Rightarrow> Some (Inl e, s1)
      | Inr acls_response \<Rightarrow>
          (let s2 = writerows (map (acl_row drive_name drive_id) (items acls_response)) s1;
               acls_page_token' = nextPageToken acls_response in
           if no_token acls_page_token' then Some (Inr (), s2)
           else export_acls_pages svc fuel drive_name drive_id acls_page_token' s2))"

text \<open>
  The \<^verbatim>\<open>for drive in shared_drives\<close> loop; the inner \<^verbatim>\<open>try\<close> catches \<^verbatim>\<open>HttpError\<close> only.
\<close>

fun export_drives_rows :: "'w service \<Rightarrow> nat \<Rightarrow> obj list \<Rightarrow> 'w st \<Rightarrow> ((exn + unit) \<times> 'w st) option" where
  "export_drives_rows svc fuel [] s = Some (Inr (), s)"
| "export_drives_rows svc fuel (drive # rest) s =
     (case map_of drive ''id'' of
        None \<Rightarrow> Some (Inl (KeyError ''id''), s)
      | Some drive_id \<Rightarrow>
          (case map_of drive ''name'' of
             None \<Rightarrow> Some (Inl (KeyError ''name''), s)
           | Some drive_name \<Rightarrow>
               (case export_acls_pages svc fuel drive_name drive_id None s of
                  None \<Rightarrow> None
                | Some (r, s1) \<Rightarrow>
                    (case r of
                       Inr u \<Rightarrow> export_drives_rows svc fuel rest s1
                     | Inl e \<Rightarrow>
                         if is_HttpError e then export_drives_rows svc fuel rest s1
                         else Some (Inl e, s1)))))"

text \<open>The body of the outer \<^verbatim>\<open>try\<close> of \<^verbatim>\<open>export_shared_drive_acls\<close>.\<close>

definition export_shared_drive_acls_try ::
  "'w service \<Rightarrow> nat \<Rightarrow> string \<Rightarrow> string option \<Rightarrow> 'w st \<Rightarrow> ((exn + unit) \<times> 'w st) option" where
  "export_shared_drive_acls_try svc fuel timestamp folder_id s =
     (case list_shared_drives svc fuel None [] s of
        None \<Rightarrow> None
      | Some (r, s1) \<Rightarrow>
          (case r of
             Inl e \<Rightarrow> Some (Inl e, s1)
           | Inr shared_drives \<Rightarrow>
               if shared_drives = [] then Some (Inr (), s1)
               else
                 (let filename = ''shared_drive_acls_'' @ timestamp @ ''.csv'';
                      s2 = writerow [''Shared Drive Name'', ''Shared Drive ID'', ''Permission Email'',
                                     ''Permission Role'', ''Permission Type'',
                                     ''Permission Display Name''] (open_csv s1) in
                  case export_drives_rows svc fuel shared_drives s2 of
                    None \<Rightarrow> None
                  | Some (r', s3) \<Rightarrow>
                      (case r' of
                         Inl e \<Rightarrow> Some (Inl e, s3)
                       | Inr u \<Rightarrow> Some (upload_to_drive svc filename folder_id s3)))))"

definition export_shared_drive_acls ::
  "'w service \<Rightarrow> nat \<Rightarrow> string \<Rightarrow> string option \<Rightarrow> 'w st \<Rightarrow> ((exn + unit) \<times> 'w st) option" where
  "export_shared_drive_acls svc fuel timestamp folder_id s =
     (case export_shared_drive_acls_try svc fuel timestamp folder_id s of
        None \<Rightarrow> None
      | Some (r, s1) \<Rightarrow>
          (case r of
             Inr u \<Rightarrow> Some (Inr (), s1)
           | Inl e \<Rightarrow> if is_HttpError e then Some (Inr (), s1) else Some (Inl e, s1)))"

text \<open>The \<^verbatim>\<open>__main__\<close> block of \<^verbatim>\<open>gw_export_shared_drives_acls.py\<close>.\<close>

definition main_shared_drives ::
  "'w service \<Rightarrow> nat \<Rightarrow> string \<Rightarrow> string option \<Rightarrow> 'w st \<Rightarrow> ((exn + unit) \<times> 'w st) option" where
  "main_shared_drives svc fuel timestamp folder_id s =
     (if folder_id = None then Some (Inl ValueError, s)
      else export_shared_drive_acls svc fuel timestamp folder_id s)"

section \<open>Behaviour of a remote operation over time\<close>

text \<open>
  \<open>outcomes op n w\<close> lists what \<open>n\<close> consecutive invocations of the remote operation
  \<open>op\<close> return, starting in world \<open>w\<close>; \<open>world_after op n w\<close> is the world they leave.
\<close>

fun outcomes :: "('w \<Rightarrow> 'r \<times> 'w) \<Rightarrow> nat \<Rightarrow> 'w \<Rightarrow> 'r list" where
  "outcomes op 0 w = []"
| "outcomes op (Suc n) w = (case op w of (r, w') \<Rightarrow> r # outcomes op n w')"

fun world_after :: "('w \<Rightarrow> 'r \<times> 'w) \<Rightarrow> nat \<Rightarrow> 'w \<Rightarrow> 'w" where
  "world_after op 0 w = w"
| "world_after op (Suc n) w = world_after op n (snd (op w))"

text \<open>The outcomes that \<^verbatim>\<open>get_group_settings\<close> answers with another attempt.\<close>

fun settings_retried :: "exn + 'a \<Rightarrow> bool" where
  "settings_retried (Inl e) = (is_HttpError e \<or> e = TimeoutError)"
| "settings_retried (Inr v) = False"

text \<open>The outcomes that \<^verbatim>\<open>upload_file_to_drive\<close> answers with another attempt.\<close>

fun upload_retried :: "exn + 'a \<Rightarrow> bool" where
  "upload_retried (Inl e) = (e = SSLEOFError \<or> is_HttpError e)"
| "upload_retried (Inr v) = False"

section \<open>Reading a trace\<close>

text \<open>The number of remote calls in a trace, and the delays slept, in order.\<close>

fun calls :: "event list \<Rightarrow> nat" where
  "calls [] = 0"
| "calls (Call r # tr) = Suc (calls tr)"
| "calls (Sleep d # tr) = calls tr"

fun sleeps :: "event list \<Rightarrow> nat list" where
  "sleeps [] = []"
| "sleeps (Call r # tr) = sleeps tr"
| "sleeps (Sleep d # tr) = d # sleeps tr"

text \<open>The events a run has added to the trace of the state it started from.\<close>

definition new_events :: "'w st \<Rightarrow> 'w st \<Rightarrow> event list" where
  "new_events s s' = drop (length (trace s)) (trace s')"

section \<open>Concrete services\<close>

text \<open>
  Services over a world that counts the remote calls made so far. \<open>svc_ok\<close> answers
  every call; \<open>svc_flaky k e\<close> raises \<open>e\<close> from the detail and upload endpoints as long
  as fewer than \<open>k\<close> calls have been made.
\<close>

definition member_x :: obj where
  "member_x = [(''email'', ''x@y.com''), (''role'', ''MEMBER''), (''status'', ''ACTIVE'')]"

definition settings_x :: obj where
  "settings_x = [(''email'', ''b@y.com''), (''name'', ''Group B'')]"

definition forwarding_x :: forwarding where
  "forwarding_x = \<lparr>enabled = Some True, emailAddress = Some ''z@y.com'', disposition = Some ''trash''\<rparr>"

definition svc_ok :: "nat service" where
  "svc_ok = \<lparr>
     groups_list = (\<lambda>tok w. (Inr \<lparr>items = [[(''email'', ''a@y.com'')], [(''email'', ''b@y.com'')],
                                            [(''email'', ''c@y.com'')]],
                                   nextPageToken = None\<rparr>, Suc w)),
     members_list = (\<lambda>g w. (Inr \<lparr>items = [member_x], nextPageToken = None\<rparr>, Suc w)),
     groups_settings_get = (\<lambda>g w. (Inr settings_x, Suc w)),
     files_list = (\<lambda>folder w. (Inr [], Suc w)),
     files_create = (\<lambda>name folder media w. (Inr (Some ''file-1''), Suc w)),
     drives_list = (\<lambda>tok w. (Inr \<lparr>items = [[(''id'', ''d1''), (''name'', ''Drive 1'')]],
                                   nextPageToken = None\<rparr>, Suc w)),
     permissions_list = (\<lambda>d tok w. (Inr \<lparr>items = [[(''role'', ''organizer'')]],
                                          nextPageToken = None\<rparr>, Suc w)),
     users_list = (\<lambda>c tok w. (Inr \<lparr>items = [\<lparr>primaryEmail = Some ''u@y.com'',
                                                fullName = Some ''U'', suspended = None\<rparr>],
                                    nextPageToken = None\<rparr>, Suc w)),
     get_auto_forwarding = (\<lambda>u w. (Inr forwarding_x, Suc w))\<rparr>"

definition svc_flaky :: "nat \<Rightarrow> exn \<Rightarrow> nat service" where
  "svc_flaky k e = svc_ok\<lparr>
     members_list := (\<lambda>g w. if w < k then (Inl e, Suc w) else members_list svc_ok g w),
     groups_settings_get := (\<lambda>g w. if w < k then (Inl e, Suc w) else groups_settings_get svc_ok g w),
     files_create := (\<lambda>name folder media w.
        if w < k then (Inl e, Suc w) else files_create svc_ok name folder media w),
     get_auto_forwarding := (\<lambda>u w. if w < k then (Inl e, Suc w) else get_auto_forwarding svc_ok u w)\<rparr>"

definition s0 :: "nat st" where
  "s0 = \<lparr>world = 0, trace = [], csv = None\<rparr>"

text \<open>
  \<open>svc_upload_down e\<close> answers every call except the upload, which always raises \<open>e\<close>;
  \<open>svc_no_folder\<close> answers every call except the listing of the destination folder,
  which raises \<^verbatim>\<open>HttpError\<close> 404.
\<close>

definition svc_upload_down :: "exn \<Rightarrow> nat service" where
  "svc_upload_down e = svc_ok\<lparr>files_create := (\<lambda>name folder media w. (Inl e, Suc w))\<rparr>"

definition svc_no_folder :: "nat service" where
  "svc_no_folder = svc_ok\<lparr>files_list := (\<lambda>folder w. (Inl (HttpError 404), Suc w))\<rparr>"

text \<open>
  Ten groups, of which the fourth can never be fetched: \<open>svc_ten\<close> raises
  \<^verbatim>\<open>HttpError\<close> 503 from both detail endpoints for that group, every time.
\<close>

definition ten_groups :: "obj list" where
  "ten_groups = map (\<lambda>e. [(''email'', e)])
     [''g1@y.com'', ''g2@y.com'', ''g3@y.com'', ''g4@y.com'', ''g5@y.com'',
      ''g6@y.com'', ''g7@y.com'', ''g8@y.com'', ''g9@y.com'', ''g10@y.com'']"

definition svc_ten :: "nat service" where
  "svc_ten = svc_ok\<lparr>
     members_list := (\<lambda>g w. if g = ''g4@y.com'' then (Inl (HttpError 503), Suc w)
                             else members_list svc_ok g w),
     groups_settings_get := (\<lambda>g w.
        if g = Some ''g4@y.com'' then (Inl (HttpError 503), Suc w)
        else (Inr [(''email'', case g of None \<Rightarrow> [] | Some e \<Rightarrow> e), (''name'', ''Group'')],
              Suc w))\<rparr>"

text \<open>
  \<open>svc_two_pages\<close>: the members of a group and the permissions of a drive come in two
  pages (the first page carries the cursor \<^verbatim>\<open>p2\<close>). \<open>svc_users_page2_down\<close>: the user
  listing answers its first page, with a cursor, and raises \<^verbatim>\<open>HttpError\<close> 500 for the
  second page.
\<close>

definition svc_two_pages :: "nat service" where
  "svc_two_pages = svc_ok\<lparr>
     members_list := (\<lambda>g w. (Inr \<lparr>items = [member_x], nextPageToken = Some ''p2''\<rparr>, Suc w)),
     permissions_list := (\<lambda>d tok w.
        (if tok = None then Inr \<lparr>items = [[(''role'', ''organizer'')]], nextPageToken = Some ''p2''\<rparr>
         else Inr \<lparr>items = [[(''role'', ''reader'')]], nextPageToken = None\<rparr>, Suc w))\<rparr>"

definition svc_users_page2_down :: "nat service" where
  "svc_users_page2_down = svc_ok\<lparr>
     users_list := (\<lambda>c tok w.
        (if tok = None
         then Inr \<lparr>items = [\<lparr>primaryEmail = Some ''u@y.com'', fullName = Some ''U'',
                               suspended = None\<rparr>],
                   nextPageToken = Some ''p2''\<rparr>
         else Inl (HttpError 500), Suc w))\<rparr>"

definition svc_groups_page2_down :: "nat service" where
  "svc_groups_page2_down = svc_ok\<lparr>
     groups_list := (\<lambda>tok w.
        (if tok = None
         then Inr \<lparr>items = [[(''email'', ''a@y.com'')]], nextPageToken = Some ''p2''\<rparr>
         else Inl (HttpError 500), Suc w))\<rparr>"

text \<open>
  \<open>svc_details_down\<close>: every detail endpoint always raises an \<^verbatim>\<open>HttpError\<close>, everything
  else answers. \<open>svc_no_drives\<close> and \<open>svc_no_users\<close>: the listing succeeds and is empty.
\<close>

definition svc_details_down :: "nat service" where
  "svc_details_down = svc_ok\<lparr>
     members_list := (\<lambda>g w. (Inl (HttpError 503), Suc w)),
     groups_settings_get := (\<lambda>g w. (Inl (HttpError 503), Suc w)),
     permissions_list := (\<lambda>d tok w. (Inl (HttpError 403), Suc w)),
     get_auto_forwarding := (\<lambda>u w. (Inl (HttpError 400), Suc w))\<rparr>"

definition svc_no_drives :: "nat service" where
  "svc_no_drives = svc_ok\<lparr>
     drives_list := (\<lambda>tok w. (Inr \<lparr>items = [], nextPageToken = None\<rparr>, Suc w))\<rparr>"

definition svc_no_users :: "nat service" where
  "svc_no_users = svc_ok\<lparr>
     users_list := (\<lambda>c tok w. (Inr \<lparr>items = [], nextPageToken = None\<rparr>, Suc w))\<rparr>"

text \<open>
  \<open>is_probe\<close> recognises the folder-listing call of \<^verbatim>\<open>check_folder_exists\<close>;
  \<open>no_probe_ext t t'\<close> says that the trace \<open>t'\<close> continues \<open>t\<close> with events none of
  which is that call.
\<close>

fun is_probe :: "event \<Rightarrow> bool" where
  "is_probe (Call (FilesList folder_id)) = True"
| "is_probe c = False"

definition no_probe_ext :: "event list \<Rightarrow> event list \<Rightarrow> bool" where
  "no_probe_ext t t' = (prefix t t' \<and> list_all (\<lambda>c. \<not> is_probe c) (drop (length t) t'))"

section \<open>The retry loops, attempt by attempt\<close>

lemma length_outcomes [simp]: "length (outcomes op n w) = n"
  by (induction n arbitrary: w) (auto split: prod.splits)

lemma outcomes_add:
  "outcomes op (m + k) w = outcomes op m w @ outcomes op k (world_after op m w)"
  by (induction m arbitrary: w) (auto split: prod.splits)

lemma world_after_add:
  "world_after op (m + k) w = world_after op k (world_after op m w)"
  by (induction m arbitrary: w) auto

lemma outcomes_Suc_end:
  "outcomes op (Suc n) w = outcomes op n w @ [fst (op (world_after op n w))]"
  using outcomes_add [of op n 1 w] by (simp split: prod.splits)

lemma world_after_Suc_end:
  "world_after op (Suc n) w = snd (op (world_after op n w))"
  using world_after_add [of op n 1 w] by simp

lemma execute_eq:
  "f (world s) = (r, w') \<Longrightarrow> execute req f s = (r, s\<lparr>world := w', trace := trace s @ [Call req]\<rparr>)"
  by (simp add: execute_def)

lemma execute_unfold:
  "execute req f s = (fst (f (world s)), s\<lparr>world := snd (f (world s)), trace := trace s @ [Call req]\<rparr>)"
  by (simp add: execute_def split: prod.splits)

lemma execute_at:
  "execute req f (s\<lparr>world := w, trace := t\<rparr>) =
     (fst (f w), s\<lparr>world := snd (f w), trace := t @ [Call req]\<rparr>)"
  by (simp add: execute_def split: prod.splits)

lemma replicate_Suc_end: "replicate (Suc n) x = replicate n x @ [x]"
  by (simp add: replicate_append_same)

lemma snoc_eq_replicate:
  "length xs = n \<Longrightarrow> (xs @ [y] = replicate (Suc n) x) = (xs = replicate n x \<and> y = x)"
  by (simp only: replicate_Suc_end append1_eq_conv)

lemma members_skip:
  "outcomes (members_list svc g) n (world s) = replicate n (Inl (HttpError 503)) \<Longrightarrow>
   a + n < retries \<Longrightarrow>
   get_group_members_loop svc g retries delay [a..<retries] s =
   get_group_members_loop svc g retries delay [a + n..<retries]
     (s\<lparr>world := world_after (members_list svc g) n (world s),
        trace := trace s @ concat (replicate n [Call (MembersList g), Sleep delay])\<rparr>)"
proof (induction n)
  case 0
  then show ?case by simp
next
  case (Suc n)
  let ?op = "members_list svc g"
  from Suc.prems(1) have pre: "outcomes ?op n (world s) = replicate n (Inl (HttpError 503))"
    and last: "fst (?op (world_after ?op n (world s))) = Inl (HttpError 503)"
    by (simp_all add: outcomes_Suc_end snoc_eq_replicate del: outcomes.simps replicate.simps)
  have a: "a + n < retries" "a + n < retries - 1" using Suc.prems(2) by simp_all
  show ?case
    using a last
    by (simp add: Suc.IH [OF pre a(1)] upt_conv_Cons [of "a + n"] execute_at sleep_def
        world_after_Suc_end replicate_Suc_end del: world_after.simps replicate.simps)
qed

lemma members_success:
  assumes "1 \<le> N" "N \<le> retries"
    and "outcomes (members_list svc g) N (world s) = replicate (N - 1) (Inl (HttpError 503)) @ [Inr p]"
  shows "get_group_members svc g retries delay s =
     (Inr (Some (items p)),
      s\<lparr>world := world_after (members_list svc g) N (world s),
        trace := trace s @ concat (replicate (N - 1) [Call (MembersList g), Sleep delay])
                   @ [Call (MembersList g)]\<rparr>)"
proof -
  let ?op = "members_list svc g"
  from assms(1) obtain n where N: "N = Suc n" by (cases N) auto
  from assms(3) have pre: "outcomes ?op n (world s) = replicate n (Inl (HttpError 503))"
    and last: "fst (?op (world_after ?op n (world s))) = Inr p"
    by (simp_all add: N outcomes_Suc_end del: outcomes.simps)
  have n: "0 + n < retries" using assms(2) N by simp
  show ?thesis
    unfolding get_group_members_def members_skip [OF pre n]
    using n last
    by (simp add: N upt_conv_Cons [of n] execute_at world_after_Suc_end del: world_after.simps)
qed

lemma members_exhausted:
  assumes "1 \<le> retries"
    and "outcomes (members_list svc g) retries (world s) = replicate retries (Inl (HttpError 503))"
  shows "get_group_members svc g retries delay s =
     (Inr (Some []),
      s\<lparr>world := world_after (members_list svc g) retries (world s),
        trace := trace s @ concat (replicate (retries - 1) [Call (MembersList g), Sleep delay])
                   @ [Call (MembersList g)]\<rparr>)"
proof -
  let ?op = "members_list svc g"
  from assms(1) obtain n where N: "retries = Suc n" by (cases retries) auto
  from assms(2) have pre: "outcomes ?op n (world s) = replicate n (Inl (HttpError 503))"
    and last: "fst (?op (world_after ?op n (world s))) = Inl (HttpError 503)"
    by (simp_all add: N outcomes_Suc_end snoc_eq_replicate del: outcomes.simps replicate.simps)
  have n: "0 + n < retries" using N by simp
  show ?thesis
    unfolding get_group_members_def members_skip [OF pre n]
    using last
    by (simp add: N execute_at world_after_Suc_end del: world_after.simps)
qed

lemma members_fatal:
  assumes "1 \<le> retries" and "fst (members_list svc g (world s)) = Inl e" and "e \<noteq> HttpError 503"
  shows "get_group_members svc g retries delay s =
     (Inl e, s\<lparr>world := snd (members_list svc g (world s)),
               trace := trace s @ [Call (MembersList g)]\<rparr>)"
proof -
  have "[0..<retries] = 0 # [Suc 0..<retries]" using assms(1) by (simp add: upt_conv_Cons)
  then show ?thesis
    using assms(2,3) by (cases e) (simp_all add: get_group_members_def execute_unfold)
qed

lemma settings_skip:
  "list_all settings_retried (outcomes (groups_settings_get svc g) n (world s)) \<Longrightarrow>
   a + n < max_retries \<Longrightarrow>
   get_group_settings_loop svc g [a..<max_retries] s =
   get_group_settings_loop svc g [a + n..<max_retries]
     (s\<lparr>world := world_after (groups_settings_get svc g) n (world s),
        trace := trace s @ concat (map (\<lambda>i. [Call (GroupsSettingsGet g), Sleep (5 * (i + 1))]) [a..<a + n])\<rparr>)"
proof (induction n)
  case 0
  then show ?case by simp
next
  case (Suc n)
  let ?op = "groups_settings_get svc g"
  from Suc.prems(1) have pre: "list_all settings_retried (outcomes ?op n (world s))"
    and last: "settings_retried (fst (?op (world_after ?op n (world s))))"
    by (simp_all add: outcomes_Suc_end del: outcomes.simps)
  have a: "a + n < max_retries" "a + n < max_retries - 1" using Suc.prems(2) by simp_all
  from last obtain e where e: "fst (?op (world_after ?op n (world s))) = Inl e"
    "is_HttpError e \<or> e = TimeoutError"
    by (cases "fst (?op (world_after ?op n (world s)))") auto
  show ?case
    using a e
    by (simp add: Suc.IH [OF pre a(1)] upt_conv_Cons [of "a + n"] execute_at sleep_def
        world_after_Suc_end del: world_after.simps)
qed

lemma list_all_settings_map:
  "list_all settings_retried (map Inl es) = list_all (\<lambda>e. is_HttpError e \<or> e = TimeoutError) es"
  by (induction es) auto

lemma settings_success:
  assumes "1 \<le> N" "N \<le> max_retries"
    and "outcomes (groups_settings_get svc g) N (world s) = map Inl es @ [Inr d]"
    and "list_all (\<lambda>e. is_HttpError e \<or> e = TimeoutError) es"
  shows "get_group_settings svc g s =
     (Inr (Some d),
      s\<lparr>world := world_after (groups_settings_get svc g) N (world s),
        trace := trace s
           @ concat (map (\<lambda>i. [Call (GroupsSettingsGet g), Sleep (5 * (i + 1))]) [0..<N - 1])
           @ [Call (GroupsSettingsGet g)]\<rparr>)"
proof -
  let ?op = "groups_settings_get svc g"
  from assms(1) obtain n where N: "N = Suc n" by (cases N) auto
  from assms(3) have pre: "outcomes ?op n (world s) = map Inl es"
    and last: "fst (?op (world_after ?op n (world s))) = Inr d"
    by (simp_all add: N outcomes_Suc_end del: outcomes.simps)
  have pre': "list_all settings_retried (outcomes ?op n (world s))"
    using assms(4) by (simp only: pre list_all_settings_map)
  have n: "0 + n < max_retries" using assms(2) N by simp
  show ?thesis
    unfolding get_group_settings_def settings_skip [OF pre' n]
    using n last
    by (simp add: N upt_conv_Cons [of n] execute_at world_after_Suc_end del: world_after.simps)
qed

lemma settings_exhausted:
  assumes "outcomes (groups_settings_get svc g) max_retries (world s) = map Inl es"
    and "list_all (\<lambda>e. is_HttpError e \<or> e = TimeoutError) es"
  shows "get_group_settings svc g s =
     (Inr None,
      s\<lparr>world := world_after (groups_settings_get svc g) max_retries (world s),
        trace := trace s
           @ concat (map (\<lambda>i. [Call (GroupsSettingsGet g), Sleep (5 * (i + 1))]) [0..<max_retries - 1])
           @ [Call (GroupsSettingsGet g)]\<rparr>)"
proof -
  let ?op = "groups_settings_get svc g"
  let ?two = "Suc (Suc 0)"
  have three: "max_retries = Suc ?two" by (simp add: max_retries_def)
  have "list_all settings_retried (outcomes ?op (Suc ?two) (world s))"
    using assms by (simp only: three [symmetric] list_all_settings_map)
  then have pre: "list_all settings_retried (outcomes ?op ?two (world s))"
    and last: "settings_retried (fst (?op (world_after ?op ?two (world s))))"
    by (simp_all add: outcomes_Suc_end del: outcomes.simps)
  from last obtain e where e: "fst (?op (world_after ?op ?two (world s))) = Inl e"
    "is_HttpError e \<or> e = TimeoutError"
    by (cases "fst (?op (world_after ?op ?two (world s)))") auto
  have n: "0 + ?two < max_retries" using three by simp
  have "get_group_settings svc g s =
     (Inr None,
      s\<lparr>world := world_after ?op (Suc ?two) (world s),
        trace := trace s
           @ concat (map (\<lambda>i. [Call (GroupsSettingsGet g), Sleep (5 * (i + 1))]) [0..<?two])
           @ [Call (GroupsSettingsGet g)]\<rparr>)"
    unfolding get_group_settings_def settings_skip [OF pre n]
    using e
    by (simp add: three execute_at world_after_Suc_end [of ?op ?two] del: world_after.simps)
  then show ?thesis by (simp only: three diff_Suc_1)
qed

lemma settings_fatal:
  assumes "fst (groups_settings_get svc g (world s)) = Inl e"
    and "\<not> is_HttpError e" and "e \<noteq> TimeoutError"
  shows "get_group_settings svc g s =
     (Inl e, s\<lparr>world := snd (groups_settings_get svc g (world s)),
               trace := trace s @ [Call (GroupsSettingsGet g)]\<rparr>)"
proof -
  have "[0..<max_retries] = 0 # [Suc 0..<max_retries]"
    by (simp add: upt_conv_Cons max_retries_def)
  then show ?thesis
    using assms by (simp add: get_group_settings_def execute_unfold)
qed

lemma forwarding_skip:
  "outcomes (get_auto_forwarding svc u) n (world s) = replicate n (Inl (HttpError 429)) \<Longrightarrow>
   a + n \<le> retries \<Longrightarrow>
   get_forwarding_settings_loop svc u delay [a..<retries] s =
   get_forwarding_settings_loop svc u (delay * 2 ^ n) [a + n..<retries]
     (s\<lparr>world := world_after (get_auto_forwarding svc u) n (world s),
        trace := trace s
           @ concat (map (\<lambda>i. [Call (GetAutoForwarding u), Sleep (delay * 2 ^ i)]) [0..<n])\<rparr>)"
proof (induction n)
  case 0
  then show ?case by simp
next
  case (Suc n)
  let ?op = "get_auto_forwarding svc u"
  from Suc.prems(1) have pre: "outcomes ?op n (world s) = replicate n (Inl (HttpError 429))"
    and last: "fst (?op (world_after ?op n (world s))) = Inl (HttpError 429)"
    by (simp_all add: outcomes_Suc_end snoc_eq_replicate del: outcomes.simps replicate.simps)
  have a: "a + n \<le> retries" "a + n < retries" using Suc.prems(2) by simp_all
  show ?case
    using a last
    by (simp add: Suc.IH [OF pre a(1)] upt_conv_Cons [of "a + n"] execute_at sleep_def
        world_after_Suc_end ac_simps del: world_after.simps)
qed

lemma forwarding_success:
  assumes "1 \<le> N" "N \<le> retries"
    and "outcomes (get_auto_forwarding svc u) N (world s)
           = replicate (N - 1) (Inl (HttpError 429)) @ [Inr f]"
    and "enabled f = Some en"
  shows "get_forwarding_settings svc u retries delay s =
     (Inr (if en then (Some (case emailAddress f of None \<Rightarrow> ''N/A'' | Some a \<Rightarrow> a),
                       Some (case disposition f of None \<Rightarrow> ''N/A'' | Some d \<Rightarrow> d))
           else (None, None)),
      s\<lparr>world := world_after (get_auto_forwarding svc u) N (world s),
        trace := trace s
           @ concat (map (\<lambda>i. [Call (GetAutoForwarding u), Sleep (delay * 2 ^ i)]) [0..<N - 1])
           @ [Call (GetAutoForwarding u)]\<rparr>)"
proof -
  let ?op = "get_auto_forwarding svc u"
  from assms(1) obtain n where N: "N = Suc n" by (cases N) auto
  from assms(3) have pre: "outcomes ?op n (world s) = replicate n (Inl (HttpError 429))"
    and last: "fst (?op (world_after ?op n (world s))) = Inr f"
    by (simp_all add: N outcomes_Suc_end del: outcomes.simps)
  have n: "0 + n \<le> retries" "n < retries" using assms(2) N by simp_all
  show ?thesis
    unfolding get_forwarding_settings_def forwarding_skip [OF pre n(1)]
    using n last assms(4)
    by (simp add: N upt_conv_Cons [of n] execute_at world_after_Suc_end del: world_after.simps)
qed

lemma forwarding_exhausted:
  assumes "outcomes (get_auto_forwarding svc u) retries (world s)
           = replicate retries (Inl (HttpError 429))"
  shows "get_forwarding_settings svc u retries delay s =
     (Inr (None, None),
      s\<lparr>world := world_after (get_auto_forwarding svc u) retries (world s),
        trace := trace s
           @ concat (map (\<lambda>i. [Call (GetAutoForwarding u), Sleep (delay * 2 ^ i)]) [0..<retries])\<rparr>)"
  unfolding get_forwarding_settings_def
  using forwarding_skip [OF assms, of 0 retries delay] by simp

lemma forwarding_fatal:
  assumes "1 \<le> retries" and "fst (get_auto_forwarding svc u (world s)) = Inl (HttpError status)"
    and "status \<noteq> 429"
  shows "get_forwarding_settings svc u retries delay s =
     (Inr (None, None), s\<lparr>world := snd (get_auto_forwarding svc u (world s)),
               trace := trace s @ [Call (GetAutoForwarding u)]\<rparr>)"
proof -
  have "[0..<retries] = 0 # [Suc 0..<retries]" using assms(1) by (simp add: upt_conv_Cons)
  then show ?thesis
    using assms(2,3) by (simp add: get_forwarding_settings_def execute_unfold)
qed

section \<open>The retrying fetch layer\<close>

lemma calls_append [simp]: "calls (xs @ ys) = calls xs + calls ys"
  by (induction xs rule: calls.induct) auto

lemma sleeps_append [simp]: "sleeps (xs @ ys) = sleeps xs @ sleeps ys"
  by (induction xs rule: sleeps.induct) auto

lemma calls_attempts [simp]:
  "calls (concat (map (\<lambda>i. [Call r, Sleep (f i)]) xs)) = length xs"
  by (induction xs) auto

lemma sleeps_attempts [simp]:
  "sleeps (concat (map (\<lambda>i. [Call r, Sleep (f i)]) xs)) = map f xs"
  by (induction xs) auto

lemma calls_replicate [simp]: "calls (concat (replicate n [Call r, Sleep d])) = n"
  by (induction n) auto

lemma sleeps_replicate [simp]: "sleeps (concat (replicate n [Call r, Sleep d])) = replicate n d"
  by (induction n) auto

text \<open>
  Claim C1, as the code has it. For each of the three retrying fetchers: when the remote
  operation fails with the retried error on the first \<open>N - 1\<close> invocations and succeeds on
  invocation \<open>N\<close>, with \<open>N\<close> at most the number of attempts, the fetcher returns the
  value of that invocation and has invoked the operation exactly \<open>N\<close> times. When every
  invocation up to the number of attempts fails with the retried error, the fetcher has
  invoked the operation exactly that many times and returns its missing marker
  (\<^verbatim>\<open>[]\<close>, \<^verbatim>\<open>None\<close>, \<^verbatim>\<open>(None, None)\<close>); it raises nothing.
\<close>

theorem retry_returns_value_or_missing_marker:
  "(1 \<le> N \<and> N \<le> retries \<and>
    outcomes (members_list svc g) N (world s) = replicate (N - 1) (Inl (HttpError 503)) @ [Inr p]
    \<longrightarrow> fst (get_group_members svc g retries delay s) = Inr (Some (items p))
      \<and> calls (trace (snd (get_group_members svc g retries delay s))) = calls (trace s) + N)
 \<and> (1 \<le> retries \<and>
    outcomes (members_list svc g) retries (world s) = replicate retries (Inl (HttpError 503))
    \<longrightarrow> fst (get_group_members svc g retries delay s) = Inr (Some [])
      \<and> calls (trace (snd (get_group_members svc g retries delay s))) = calls (trace s) + retries)
 \<and> (1 \<le> N \<and> N \<le> max_retries \<and>
    outcomes (groups_settings_get svc ge) N (world s) = map Inl es @ [Inr d] \<and>
    list_all (\<lambda>e. is_HttpError e \<or> e = TimeoutError) es
    \<longrightarrow> fst (get_group_settings svc ge s) = Inr (Some d)
      \<and> calls (trace (snd (get_group_settings svc ge s))) = calls (trace s) + N)
 \<and> (outcomes (groups_settings_get svc ge) max_retries (world s) = map Inl es \<and>
    list_all (\<lambda>e. is_HttpError e \<or> e = TimeoutError) es
    \<longrightarrow> fst (get_group_settings svc ge s) = Inr None
      \<and> calls (trace (snd (get_group_settings svc ge s))) = calls (trace s) + max_retries)
 \<and> (1 \<le> N \<and> N \<le> retries \<and>
    outcomes (get_auto_forwarding svc u) N (world s)
      = replicate (N - 1) (Inl (HttpError 429)) @ [Inr f] \<and>
    enabled f = Some en
    \<longrightarrow> fst (get_forwarding_settings svc u retries delay s) =
          Inr (if en then (Some (case emailAddress f of None \<Rightarrow> ''N/A'' | Some a \<Rightarrow> a),
                           Some (case disposition f of None \<Rightarrow> ''N/A'' | Some d \<Rightarrow> d))
               else (None, None))
      \<and> calls (trace (snd (get_forwarding_settings svc u retries delay s))) = calls (trace s) + N)
 \<and> (outcomes (get_auto_forwarding svc u) retries (world s)
      = replicate retries (Inl (HttpError 429))
    \<longrightarrow> fst (get_forwarding_settings svc u retries delay s) = Inr (None, None)
      \<and> calls (trace (snd (get_forwarding_settings svc u retries delay s)))
          = calls (trace s) + retries)"
proof (intro conjI impI; (elim conjE)?)
  assume "1 \<le> N" "N \<le> retries"
    "outcomes (members_list svc g) N (world s) = replicate (N - 1) (Inl (HttpError 503)) @ [Inr p]"
  note a = members_success [OF this, of delay]
  show "fst (get_group_members svc g retries delay s) = Inr (Some (items p))"
    by (simp add: a)
  from \<open>1 \<le> N\<close> show "calls (trace (snd (get_group_members svc g retries delay s))) = calls (trace s) + N"
    by (simp add: a)
next
  assume "1 \<le> retries"
    "outcomes (members_list svc g) retries (world s) = replicate retries (Inl (HttpError 503))"
  note a = members_exhausted [OF this, of delay]
  show "fst (get_group_members svc g retries delay s) = Inr (Some [])"
    by (simp add: a)
  from \<open>1 \<le> retries\<close>
  show "calls (trace (snd (get_group_members svc g retries delay s))) = calls (trace s) + retries"
    by (simp add: a)
next
  assume "1 \<le> N" "N \<le> max_retries"
    "outcomes (groups_settings_get svc ge) N (world s) = map Inl es @ [Inr d]"
    "list_all (\<lambda>e. is_HttpError e \<or> e = TimeoutError) es"
  note a = settings_success [OF this]
  show "fst (get_group_settings svc ge s) = Inr (Some d)"
    by (simp add: a)
  from \<open>1 \<le> N\<close> show "calls (trace (snd (get_group_settings svc ge s))) = calls (trace s) + N"
    by (simp add: a)
next
  assume "outcomes (groups_settings_get svc ge) max_retries (world s) = map Inl es"
    "list_all (\<lambda>e. is_HttpError e \<or> e = TimeoutError) es"
  note a = settings_exhausted [OF this]
  show "fst (get_group_settings svc ge s) = Inr None"
    by (simp add: a)
  show "calls (trace (snd (get_group_settings svc ge s))) = calls (trace s) + max_retries"
    by (simp add: a max_retries_def)
next
  assume "1 \<le> N" "N \<le> retries"
    "outcomes (get_auto_forwarding svc u) N (world s)
      = replicate (N - 1) (Inl (HttpError 429)) @ [Inr f]"
    "enabled f = Some en"
  note a = forwarding_success [OF this, of delay]
  show "fst (get_forwarding_settings svc u retries delay s) =
          Inr (if en then (Some (case emailAddress f of None \<Rightarrow> ''N/A'' | Some a \<Rightarrow> a),
                           Some (case disposition f of None \<Rightarrow> ''N/A'' | Some d \<Rightarrow> d))
               else (None, None))"
    by (simp add: a)
  from \<open>1 \<le> N\<close>
  show "calls (trace (snd (get_forwarding_settings svc u retries delay s))) = calls (trace s) + N"
    by (simp add: a)
next
  assume "outcomes (get_auto_forwarding svc u) retries (world s)
      = replicate retries (Inl (HttpError 429))"
  note a = forwarding_exhausted [OF this, of delay]
  show "fst (get_forwarding_settings svc u retries delay s) = Inr (None, None)"
    by (simp add: a)
  show "calls (trace (snd (get_forwarding_settings svc u retries delay s)))
          = calls (trace s) + retries"
    by (simp add: a)
qed



theorem retry_returns_value_or_missing_marker_witness:
  "(fst (get_group_members (svc_flaky 2 (HttpError 503)) ''b@y.com'' 3 5 s0) = Inr (Some [member_x])
    \<and> calls (trace (snd (get_group_members (svc_flaky 2 (HttpError 503)) ''b@y.com'' 3 5 s0))) = 3)
 \<and> (fst (get_group_members (svc_flaky 3 (HttpError 503)) ''b@y.com'' 3 5 s0) = Inr (Some [])
    \<and> calls (trace (snd (get_group_members (svc_flaky 3 (HttpError 503)) ''b@y.com'' 3 5 s0))) = 3)
 \<and> (fst (get_group_settings (svc_flaky 1 TimeoutError) (Some ''b@y.com'') s0) = Inr (Some settings_x)
    \<and> calls (trace (snd (get_group_settings (svc_flaky 1 TimeoutError) (Some ''b@y.com'') s0))) = 2)
 \<and> (fst (get_group_settings (svc_flaky 3 (HttpError 503)) (Some ''b@y.com'') s0) = Inr None
    \<and> calls (trace (snd (get_group_settings (svc_flaky 3 (HttpError 503)) (Some ''b@y.com'') s0))) = 3)
 \<and> (fst (get_forwarding_settings (svc_flaky 4 (HttpError 429)) ''u@y.com'' 5 30 s0)
       = Inr (Some ''z@y.com'', Some ''trash'')
    \<and> calls (trace (snd (get_forwarding_settings (svc_flaky 4 (HttpError 429)) ''u@y.com'' 5 30 s0))) = 5)
 \<and> (fst (get_forwarding_settings (svc_flaky 5 (HttpError 429)) ''u@y.com'' 5 30 s0) = Inr (None, None)
    \<and> calls (trace (snd (get_forwarding_settings (svc_flaky 5 (HttpError 429)) ''u@y.com'' 5 30 s0))) = 5)"
proof (intro conjI)
  note defs = svc_flaky_def svc_ok_def s0_def eval_nat_numeral max_retries_def forwarding_x_def
  note c1 = retry_returns_value_or_missing_marker [THEN conjunct1]
  note c2 = retry_returns_value_or_missing_marker [THEN conjunct2, THEN conjunct1]
  note c3 = retry_returns_value_or_missing_marker [THEN conjunct2, THEN conjunct2, THEN conjunct1]
  note c4 = retry_returns_value_or_missing_marker [THEN conjunct2, THEN conjunct2, THEN conjunct2,
      THEN conjunct1]
  note c5 = retry_returns_value_or_missing_marker [THEN conjunct2, THEN conjunct2, THEN conjunct2,
      THEN conjunct2, THEN conjunct1]
  note c6 = retry_returns_value_or_missing_marker [THEN conjunct2, THEN conjunct2, THEN conjunct2,
      THEN conjunct2, THEN conjunct2]
  show "fst (get_group_members (svc_flaky 2 (HttpError 503)) ''b@y.com'' 3 5 s0) = Inr (Some [member_x])"
    and "calls (trace (snd (get_group_members (svc_flaky 2 (HttpError 503)) ''b@y.com'' 3 5 s0))) = 3"
    using c1 [of 3 3 "svc_flaky 2 (HttpError 503)" "''b@y.com''" s0
        "\<lparr>items = [member_x], nextPageToken = None\<rparr>" 5]
    by (simp_all add: defs)
  show "fst (get_group_members (svc_flaky 3 (HttpError 503)) ''b@y.com'' 3 5 s0) = Inr (Some [])"
    and "calls (trace (snd (get_group_members (svc_flaky 3 (HttpError 503)) ''b@y.com'' 3 5 s0))) = 3"
    using c2 [of 3 "svc_flaky 3 (HttpError 503)" "''b@y.com''" s0 5]
    by (simp_all add: defs)
  show "fst (get_group_settings (svc_flaky 1 TimeoutError) (Some ''b@y.com'') s0) = Inr (Some settings_x)"
    and "calls (trace (snd (get_group_settings (svc_flaky 1 TimeoutError) (Some ''b@y.com'') s0))) = 2"
    using c3 [of 2 "svc_flaky 1 TimeoutError" "Some ''b@y.com''" s0 "[TimeoutError]" settings_x]
    by (simp_all add: defs)
  show "fst (get_group_settings (svc_flaky 3 (HttpError 503)) (Some ''b@y.com'') s0) = Inr None"
    and "calls (trace (snd (get_group_settings (svc_flaky 3 (HttpError 503)) (Some ''b@y.com'') s0))) = 3"
    using c4 [of "svc_flaky 3 (HttpError 503)" "Some ''b@y.com''" s0
        "[HttpError 503, HttpError 503, HttpError 503]"]
    by (simp_all add: defs)
  show "fst (get_forwarding_settings (svc_flaky 4 (HttpError 429)) ''u@y.com'' 5 30 s0)
       = Inr (Some ''z@y.com'', Some ''trash'')"
    and "calls (trace (snd (get_forwarding_settings (svc_flaky 4 (HttpError 429)) ''u@y.com'' 5 30 s0))) = 5"
    using c5 [of 5 5 "svc_flaky 4 (HttpError 429)" "''u@y.com''" s0 forwarding_x True 30]
    by (simp_all add: defs)
  show "fst (get_forwarding_settings (svc_flaky 5 (HttpError 429)) ''u@y.com'' 5 30 s0) = Inr (None, None)"
    and "calls (trace (snd (get_forwarding_settings (svc_flaky 5 (HttpError 429)) ''u@y.com'' 5 30 s0))) = 5"
    using c6 [of "svc_flaky 5 (HttpError 429)" "''u@y.com''" 5 s0 30]
    by (simp_all add: defs)
qed

text \<open>
  Three retried failures in a row: none of the fetchers raises a retry-exhausted error,
  each returns its missing marker.
\<close>

theorem exhausted_retries_raise_counterexample:
  "outcomes (groups_settings_get (svc_flaky 3 (HttpError 503)) (Some ''b@y.com'')) max_retries (world s0)
     = [Inl (HttpError 503), Inl (HttpError 503), Inl (HttpError 503)]
   \<and> fst (get_group_settings (svc_flaky 3 (HttpError 503)) (Some ''b@y.com'') s0) = Inr None
   \<and> fst (get_group_members (svc_flaky 3 (HttpError 503)) ''b@y.com'' 3 5 s0) = Inr (Some [])
   \<and> fst (get_forwarding_settings (svc_flaky 5 (HttpError 429)) ''u@y.com'' 5 30 s0) = Inr (None, None)"
  by (simp add: svc_flaky_def svc_ok_def s0_def eval_nat_numeral max_retries_def
      get_group_settings_def get_group_members_def get_forwarding_settings_def
      execute_def sleep_def upt_rec)

text \<open>
  Claim C3, as the code has it. In \<^verbatim>\<open>get_group_members\<close> an exception other than
  \<^verbatim>\<open>HttpError\<close> 503 is re-raised after exactly one invocation and no sleep, and in
  \<^verbatim>\<open>get_forwarding_settings\<close> an \<^verbatim>\<open>HttpError\<close> other than 429 is turned into
  \<^verbatim>\<open>(None, None)\<close> after exactly one invocation and no sleep.
  \<^verbatim>\<open>get_group_settings\<close> does not classify: it retries every \<^verbatim>\<open>HttpError\<close>, whatever
  its status, three invocations with sleeps of 5 and 10 seconds; only an exception that is
  neither \<^verbatim>\<open>HttpError\<close> nor \<^verbatim>\<open>TimeoutError\<close> leaves it after one invocation.
\<close>

theorem fatal_error_single_attempt:
  "(1 \<le> retries \<and> fst (members_list svc g (world s)) = Inl e \<and> e \<noteq> HttpError 503
    \<longrightarrow> get_group_members svc g retries delay s =
          (Inl e, s\<lparr>world := snd (members_list svc g (world s)),
                    trace := trace s @ [Call (MembersList g)]\<rparr>))
 \<and> (1 \<le> retries \<and> fst (get_auto_forwarding svc u (world s)) = Inl (HttpError status) \<and>
    status \<noteq> 429
    \<longrightarrow> get_forwarding_settings svc u retries delay s =
          (Inr (None, None), s\<lparr>world := snd (get_auto_forwarding svc u (world s)),
                               trace := trace s @ [Call (GetAutoForwarding u)]\<rparr>))
 \<and> (fst (groups_settings_get svc ge (world s)) = Inl e \<and> \<not> is_HttpError e \<and> e \<noteq> TimeoutError
    \<longrightarrow> get_group_settings svc ge s =
          (Inl e, s\<lparr>world := snd (groups_settings_get svc ge (world s)),
                    trace := trace s @ [Call (GroupsSettingsGet ge)]\<rparr>))
 \<and> (outcomes (groups_settings_get svc ge) max_retries (world s)
      = replicate max_retries (Inl (HttpError status))
    \<longrightarrow> fst (get_group_settings svc ge s) = Inr None
      \<and> calls (trace (snd (get_group_settings svc ge s))) = calls (trace s) + 3
      \<and> sleeps (trace (snd (get_group_settings svc ge s))) = sleeps (trace s) @ [5, 10])"
proof (intro conjI impI; (elim conjE)?)
  assume "1 \<le> retries" "fst (members_list svc g (world s)) = Inl e" "e \<noteq> HttpError 503"
  then show "get_group_members svc g retries delay s =
          (Inl e, s\<lparr>world := snd (members_list svc g (world s)),
                    trace := trace s @ [Call (MembersList g)]\<rparr>)"
    by (rule members_fatal)
next
  assume "1 \<le> retries" "fst (get_auto_forwarding svc u (world s)) = Inl (HttpError status)"
    "status \<noteq> 429"
  then show "get_forwarding_settings svc u retries delay s =
          (Inr (None, None), s\<lparr>world := snd (get_auto_forwarding svc u (world s)),
                               trace := trace s @ [Call (GetAutoForwarding u)]\<rparr>)"
    by (rule forwarding_fatal)
next
  assume "fst (groups_settings_get svc ge (world s)) = Inl e" "\<not> is_HttpError e" "e \<noteq> TimeoutError"
  then show "get_group_settings svc ge s =
          (Inl e, s\<lparr>world := snd (groups_settings_get svc ge (world s)),
                    trace := trace s @ [Call (GroupsSettingsGet ge)]\<rparr>)"
    by (rule settings_fatal)
next
  assume "outcomes (groups_settings_get svc ge) max_retries (world s)
      = replicate max_retries (Inl (HttpError status))"
  then have "outcomes (groups_settings_get svc ge) max_retries (world s)
      = map Inl (replicate max_retries (HttpError status))"
    by simp
  note a = settings_exhausted [OF this]
  have b: "list_all (\<lambda>e. is_HttpError e \<or> e = TimeoutError) (replicate max_retries (HttpError status))"
    by (simp add: list_all_iff)
  show "fst (get_group_settings svc ge s) = Inr None"
    by (simp add: a [OF b])
  show "calls (trace (snd (get_group_settings svc ge s))) = calls (trace s) + 3"
    by (simp add: a [OF b] max_retries_def)
  show "sleeps (trace (snd (get_group_settings svc ge s))) = sleeps (trace s) @ [5, 10]"
    by (simp add: a [OF b] max_retries_def eval_nat_numeral)
qed

theorem fatal_error_single_attempt_witness:
  "get_group_members (svc_flaky 1 (HttpError 403)) ''b@y.com'' 3 5 s0 =
     (Inl (HttpError 403), \<lparr>world = 1, trace = [Call (MembersList ''b@y.com'')], csv = None\<rparr>)
 \<and> get_forwarding_settings (svc_flaky 1 (HttpError 400)) ''u@y.com'' 5 30 s0 =
     (Inr (None, None), \<lparr>world = 1, trace = [Call (GetAutoForwarding ''u@y.com'')], csv = None\<rparr>)
 \<and> get_group_settings (svc_flaky 1 (KeyError ''x'')) (Some ''b@y.com'') s0 =
     (Inl (KeyError ''x''),
      \<lparr>world = 1, trace = [Call (GroupsSettingsGet (Some ''b@y.com''))], csv = None\<rparr>)
 \<and> (fst (get_group_settings (svc_flaky 3 (HttpError 403)) (Some ''b@y.com'') s0) = Inr None
    \<and> calls (trace (snd (get_group_settings (svc_flaky 3 (HttpError 403)) (Some ''b@y.com'') s0))) = 3
    \<and> sleeps (trace (snd (get_group_settings (svc_flaky 3 (HttpError 403)) (Some ''b@y.com'') s0)))
        = [5, 10])"
proof (intro conjI)
  note defs = svc_flaky_def svc_ok_def s0_def eval_nat_numeral max_retries_def
  note c1 = fatal_error_single_attempt [THEN conjunct1]
  note c2 = fatal_error_single_attempt [THEN conjunct2, THEN conjunct1]
  note c3 = fatal_error_single_attempt [THEN conjunct2, THEN conjunct2, THEN conjunct1]
  note c4 = fatal_error_single_attempt [THEN conjunct2, THEN conjunct2, THEN conjunct2]
  show "get_group_members (svc_flaky 1 (HttpError 403)) ''b@y.com'' 3 5 s0 =
     (Inl (HttpError 403), \<lparr>world = 1, trace = [Call (MembersList ''b@y.com'')], csv = None\<rparr>)"
    using c1 [of 3 "svc_flaky 1 (HttpError 403)" "''b@y.com''" s0 "HttpError 403" 5]
    by (simp add: defs)
  show "get_forwarding_settings (svc_flaky 1 (HttpError 400)) ''u@y.com'' 5 30 s0 =
     (Inr (None, None), \<lparr>world = 1, trace = [Call (GetAutoForwarding ''u@y.com'')], csv = None\<rparr>)"
    using c2 [of 5 "svc_flaky 1 (HttpError 400)" "''u@y.com''" s0 400 30]
    by (simp add: defs)
  show "get_group_settings (svc_flaky 1 (KeyError ''x'')) (Some ''b@y.com'') s0 =
     (Inl (KeyError ''x''),
      \<lparr>world = 1, trace = [Call (GroupsSettingsGet (Some ''b@y.com''))], csv = None\<rparr>)"
    using c3 [of "svc_flaky 1 (KeyError ''x'')" "Some ''b@y.com''" s0 "KeyError ''x''"]
    by (simp add: defs)
  show "fst (get_group_settings (svc_flaky 3 (HttpError 403)) (Some ''b@y.com'') s0) = Inr None"
    and "calls (trace (snd (get_group_settings (svc_flaky 3 (HttpError 403)) (Some ''b@y.com'') s0))) = 3"
    and "sleeps (trace (snd (get_group_settings (svc_flaky 3 (HttpError 403)) (Some ''b@y.com'') s0)))
        = [5, 10]"
    using c4 [of "svc_flaky 3 (HttpError 403)" "Some ''b@y.com''" s0 403]
    by (simp_all add: defs)
qed

text \<open>
  A permission error (status 403) from the group-settings endpoint: \<^verbatim>\<open>get_group_settings\<close>
  invokes the operation three times and sleeps twice.
\<close>

theorem fatal_error_retried_counterexample:
  "fst (groups_settings_get (svc_flaky 3 (HttpError 403)) (Some ''b@y.com'') (world s0))
     = Inl (HttpError 403)
   \<and> trace (snd (get_group_settings (svc_flaky 3 (HttpError 403)) (Some ''b@y.com'') s0)) =
       [Call (GroupsSettingsGet (Some ''b@y.com'')), Sleep 5,
        Call (GroupsSettingsGet (Some ''b@y.com'')), Sleep 10,
        Call (GroupsSettingsGet (Some ''b@y.com''))]"
  by (simp add: svc_flaky_def svc_ok_def s0_def eval_nat_numeral max_retries_def
      get_group_settings_def execute_def sleep_def upt_rec)

lemma map_from_one:
  assumes "1 \<le> N"
  shows "map h [Suc 0..<N] = map (\<lambda>i. h (Suc i)) [0..<N - Suc 0]"
proof -
  from assms have "[Suc 0..<N] = map Suc [0..<N - Suc 0]"
    by (simp add: map_Suc_upt)
  then show ?thesis
    by (simp add: comp_def)
qed

text \<open>
  Claim C4, as the code has it. After \<open>N - 1\<close> retried failures and a success, the delays
  slept between the attempts are: in \<^verbatim>\<open>get_forwarding_settings\<close> the base delay times
  \<open>2 ^ (k - 1)\<close> before attempt \<open>k + 1\<close> (exponential, multiplier 2); in
  \<^verbatim>\<open>get_group_settings\<close> 5 times \<open>k\<close> (linear: 5, then 10); in \<^verbatim>\<open>get_group_members\<close>
  the unchanged \<^verbatim>\<open>delay\<close> every time.
\<close>

theorem backoff_delays:
  "(1 \<le> N \<and> N \<le> retries \<and>
    outcomes (get_auto_forwarding svc u) N (world s)
      = replicate (N - 1) (Inl (HttpError 429)) @ [Inr f] \<and>
    enabled f = Some en
    \<longrightarrow> sleeps (trace (snd (get_forwarding_settings svc u retries delay s)))
          = sleeps (trace s) @ map (\<lambda>k. delay * 2 ^ (k - 1)) [1..<N])
 \<and> (1 \<le> N \<and> N \<le> max_retries \<and>
    outcomes (groups_settings_get svc ge) N (world s) = map Inl es @ [Inr d] \<and>
    list_all (\<lambda>e. is_HttpError e \<or> e = TimeoutError) es
    \<longrightarrow> sleeps (trace (snd (get_group_settings svc ge s)))
          = sleeps (trace s) @ map (\<lambda>k. 5 * k) [1..<N])
 \<and> (1 \<le> N \<and> N \<le> retries \<and>
    outcomes (members_list svc g) N (world s) = replicate (N - 1) (Inl (HttpError 503)) @ [Inr p]
    \<longrightarrow> sleeps (trace (snd (get_group_members svc g retries delay s)))
          = sleeps (trace s) @ map (\<lambda>k. delay) [1..<N])"
proof (intro conjI impI; (elim conjE)?)
  assume n: "1 \<le> N" and "N \<le> retries"
    "outcomes (get_auto_forwarding svc u) N (world s)
      = replicate (N - 1) (Inl (HttpError 429)) @ [Inr f]"
    "enabled f = Some en"
  note a = forwarding_success [OF this, of delay]
  show "sleeps (trace (snd (get_forwarding_settings svc u retries delay s)))
        = sleeps (trace s) @ map (\<lambda>k. delay * 2 ^ (k - 1)) [1..<N]"
    by (simp add: a map_from_one [OF n])
next
  assume n: "1 \<le> N" and "N \<le> max_retries"
    "outcomes (groups_settings_get svc ge) N (world s) = map Inl es @ [Inr d]"
    "list_all (\<lambda>e. is_HttpError e \<or> e = TimeoutError) es"
  note a = settings_success [OF this]
  show "sleeps (trace (snd (get_group_settings svc ge s)))
        = sleeps (trace s) @ map (\<lambda>k. 5 * k) [1..<N]"
    by (simp add: a map_from_one [OF n])
next
  assume n: "1 \<le> N" and "N \<le> retries"
    "outcomes (members_list svc g) N (world s) = replicate (N - 1) (Inl (HttpError 503)) @ [Inr p]"
  note a = members_success [OF this, of delay]
  show "sleeps (trace (snd (get_group_members svc g retries delay s)))
        = sleeps (trace s) @ map (\<lambda>k. delay) [1..<N]"
    by (simp add: a map_from_one [OF n] map_replicate_const)
qed

theorem backoff_delays_witness:
  "sleeps (trace (snd (get_forwarding_settings (svc_flaky 4 (HttpError 429)) ''u@y.com'' 5 30 s0)))
     = [30, 60, 120, 240]
 \<and> sleeps (trace (snd (get_group_settings (svc_flaky 2 (HttpError 503)) (Some ''b@y.com'') s0)))
     = [5, 10]
 \<and> sleeps (trace (snd (get_group_members (svc_flaky 2 (HttpError 503)) ''b@y.com'' 3 5 s0)))
     = [5, 5]"
proof (intro conjI)
  note defs = svc_flaky_def svc_ok_def s0_def eval_nat_numeral max_retries_def forwarding_x_def
    upt_rec
  note c1 = backoff_delays [THEN conjunct1]
  note c2 = backoff_delays [THEN conjunct2, THEN conjunct1]
  note c3 = backoff_delays [THEN conjunct2, THEN conjunct2]
  show "sleeps (trace (snd (get_forwarding_settings (svc_flaky 4 (HttpError 429)) ''u@y.com'' 5 30 s0)))
     = [30, 60, 120, 240]"
    using c1 [of 5 5 "svc_flaky 4 (HttpError 429)" "''u@y.com''" s0 forwarding_x True 30]
    by (simp add: defs)
  show "sleeps (trace (snd (get_group_settings (svc_flaky 2 (HttpError 503)) (Some ''b@y.com'') s0)))
     = [5, 10]"
    using c2 [of 3 "svc_flaky 2 (HttpError 503)" "Some ''b@y.com''" s0
        "[HttpError 503, HttpError 503]" settings_x]
    by (simp add: defs)
  show "sleeps (trace (snd (get_group_members (svc_flaky 2 (HttpError 503)) ''b@y.com'' 3 5 s0)))
     = [5, 5]"
    using c3 [of 3 3 "svc_flaky 2 (HttpError 503)" "''b@y.com''" s0
        "\<lparr>items = [member_x], nextPageToken = None\<rparr>" 5]
    by (simp add: defs)
qed

text \<open>
  Two 503 failures of the members call, then a success: \<^verbatim>\<open>get_group_members\<close> sleeps 5
  seconds before the second attempt and 5 seconds again, not 10, before the third.
\<close>

theorem backoff_not_doubled_counterexample:
  "sleeps (trace (snd (get_group_members (svc_flaky 2 (HttpError 503)) ''b@y.com'' 3 5 s0)))
     = [5, 5]
   \<and> [5, 5::nat] \<noteq> map (\<lambda>k. 5 * 2 ^ (k - 1)) [1..<(3::nat)]"
  by (simp add: svc_flaky_def svc_ok_def s0_def eval_nat_numeral
      get_group_members_def execute_def sleep_def upt_rec)

section \<open>Upload and destination probe\<close>

lemma upload_skip:
  "list_all upload_retried (outcomes (files_create svc name folder media) n (world s)) \<Longrightarrow>
   a + n < retries \<Longrightarrow>
   upload_file_to_drive_loop svc media name folder retries delay [a..<retries] s =
   upload_file_to_drive_loop svc media name folder retries delay [a + n..<retries]
     (s\<lparr>world := world_after (files_create svc name folder media) n (world s),
        trace := trace s @ concat (replicate n [Call (FilesCreate name folder media), Sleep delay])\<rparr>)"
proof (induction n)
  case 0
  then show ?case by simp
next
  case (Suc n)
  let ?op = "files_create svc name folder media"
  from Suc.prems(1) have pre: "list_all upload_retried (outcomes ?op n (world s))"
    and last: "upload_retried (fst (?op (world_after ?op n (world s))))"
    by (simp_all add: outcomes_Suc_end del: outcomes.simps)
  have a: "a + n < retries" "a + n < retries - 1" using Suc.prems(2) by simp_all
  from last obtain e where e: "fst (?op (world_after ?op n (world s))) = Inl e"
    "e = SSLEOFError \<or> is_HttpError e"
    by (cases "fst (?op (world_after ?op n (world s)))") auto
  show ?case
    using a e
    by (simp add: Suc.IH [OF pre a(1)] upt_conv_Cons [of "a + n"] execute_at sleep_def
        world_after_Suc_end replicate_Suc_end del: world_after.simps replicate.simps)
qed

lemma list_all_upload_map:
  "list_all upload_retried (map Inl es) = list_all (\<lambda>e. e = SSLEOFError \<or> is_HttpError e) es"
  by (induction es) auto

lemma upload_exhausted:
  assumes "1 \<le> retries" and "csv s = Some media"
    and "outcomes (files_create svc name folder media) retries (world s) = map Inl es"
    and "list_all (\<lambda>e. e = SSLEOFError \<or> is_HttpError e) es"
  shows "upload_file_to_drive svc name folder retries delay s =
     (Inl (last es),
      s\<lparr>world := world_after (files_create svc name folder media) retries (world s),
        trace := trace s
          @ concat (replicate (retries - 1) [Call (FilesCreate name folder media), Sleep delay])
          @ [Call (FilesCreate name folder media)]\<rparr>)"
proof -
  let ?op = "files_create svc name folder media"
  from assms(1) obtain n where N: "retries = Suc n" by (cases retries) auto
  have len: "length es = Suc n"
    using arg_cong [OF assms(3), of length] by (simp add: N del: outcomes.simps)
  then have ne: "es \<noteq> []" by auto
  have "list_all upload_retried (outcomes ?op (Suc n) (world s))"
    using assms(4) by (simp only: assms(3) [unfolded N] list_all_upload_map)
  then have pre: "list_all upload_retried (outcomes ?op n (world s))"
    and retried: "upload_retried (fst (?op (world_after ?op n (world s))))"
    by (simp_all add: outcomes_Suc_end del: outcomes.simps)
  have "fst (?op (world_after ?op n (world s))) = last (outcomes ?op (Suc n) (world s))"
    by (simp add: outcomes_Suc_end del: outcomes.simps)
  also have "\<dots> = Inl (last es)"
    using ne by (simp add: assms(3) [unfolded N] last_map del: outcomes.simps)
  finally have last: "fst (?op (world_after ?op n (world s))) = Inl (last es)" .
  with retried have all: "last es = SSLEOFError \<or> is_HttpError (last es)"
    by simp
  have n: "0 + n < retries" using N by simp
  show ?thesis
    unfolding upload_file_to_drive_def assms(2) option.case upload_skip [OF pre n]
    using last all
    by (simp add: N execute_at world_after_Suc_end del: world_after.simps)
qed

lemma upload_success:
  assumes "1 \<le> N" "N \<le> retries" and "csv s = Some media"
    and "outcomes (files_create svc name folder media) N (world s) = map Inl es @ [Inr file_id]"
    and "list_all (\<lambda>e. e = SSLEOFError \<or> is_HttpError e) es"
  shows "upload_file_to_drive svc name folder retries delay s =
     (Inr file_id,
      s\<lparr>world := world_after (files_create svc name folder media) N (world s),
        trace := trace s
          @ concat (replicate (N - 1) [Call (FilesCreate name folder media), Sleep delay])
          @ [Call (FilesCreate name folder media)]\<rparr>)"
proof -
  let ?op = "files_create svc name folder media"
  from assms(1) obtain n where N: "N = Suc n" by (cases N) auto
  from assms(4) have pre0: "outcomes ?op n (world s) = map Inl es"
    and last: "fst (?op (world_after ?op n (world s))) = Inr file_id"
    by (simp_all add: N outcomes_Suc_end del: outcomes.simps)
  have pre: "list_all upload_retried (outcomes ?op n (world s))"
    using assms(5) by (simp only: pre0 list_all_upload_map)
  have n: "0 + n < retries" using assms(2) N by simp
  show ?thesis
    unfolding upload_file_to_drive_def assms(3) option.case upload_skip [OF pre n]
    using last n
    by (simp add: N upt_conv_Cons [of n] execute_at world_after_Suc_end del: world_after.simps)
qed

lemma is_HttpError_iff: "is_HttpError e = (\<exists>status. e = HttpError status)"
  by (cases e) auto

text \<open>
  Claim C9, as the code has it. In the two group scripts \<^verbatim>\<open>upload_file_to_drive\<close> retries
  an upload that fails with \<^verbatim>\<open>SSLEOFError\<close> or \<^verbatim>\<open>HttpError\<close> with the same delay
  before every retry, up to its attempt count (3 in both callers); when every attempt
  fails, the last error is raised, and \<^verbatim>\<open>export_groups_to_csv\<close> and
  \<^verbatim>\<open>export_groups_settings_to_csv\<close> raise it in turn. In the shared-drive script
  \<^verbatim>\<open>upload_to_drive\<close> makes one attempt and returns normally when it fails with
  \<^verbatim>\<open>HttpError\<close>.
\<close>

theorem upload_retry_fixed_delay:
  "(1 \<le> retries \<and> csv s = Some media \<and>
    outcomes (files_create svc name folder media) retries (world s) = map Inl es \<and>
    list_all (\<lambda>e. e = SSLEOFError \<or> is_HttpError e) es
    \<longrightarrow> fst (upload_file_to_drive svc name folder retries delay s) = Inl (last es)
      \<and> calls (trace (snd (upload_file_to_drive svc name folder retries delay s)))
          = calls (trace s) + retries
      \<and> sleeps (trace (snd (upload_file_to_drive svc name folder retries delay s)))
          = sleeps (trace s) @ replicate (retries - 1) delay)
 \<and> (export_groups_rows svc groups
      (writerow [''Group Email'', ''Member Email'', ''Role'', ''Status''] (open_csv s)) = (Inr (), s2) \<and>
    fst (upload_file_to_drive svc (''gg_backup_'' @ timestamp @ ''.csv'') folder 3 5 s2) = Inl e
    \<longrightarrow> fst (export_groups_to_csv svc timestamp groups folder s) = Inl e)
 \<and> (export_groups_settings_rows svc groups (writerow fields (open_csv s)) = (Inr (), s2) \<and>
    fst (upload_file_to_drive svc (''gg_settings_backup_'' @ timestamp @ ''.csv'') folder 3 5 s2) = Inl e
    \<longrightarrow> fst (export_groups_settings_to_csv svc timestamp groups folder s) = Inl e)
 \<and> (csv s = Some media \<and> fst (files_create svc name folder media (world s)) = Inl e \<and>
    is_HttpError e
    \<longrightarrow> upload_to_drive svc name folder s =
          (Inr (), s\<lparr>world := snd (files_create svc name folder media (world s)),
                     trace := trace s @ [Call (FilesCreate name folder media)]\<rparr>))"
proof (intro conjI impI; (elim conjE)?)
  assume "1 \<le> retries" "csv s = Some media"
    "outcomes (files_create svc name folder media) retries (world s) = map Inl es"
    "list_all (\<lambda>e. e = SSLEOFError \<or> is_HttpError e) es"
  note a = upload_exhausted [OF this, of delay]
  show "fst (upload_file_to_drive svc name folder retries delay s) = Inl (last es)"
    by (simp add: a)
  from \<open>1 \<le> retries\<close>
  show "calls (trace (snd (upload_file_to_drive svc name folder retries delay s)))
          = calls (trace s) + retries"
    by (simp add: a)
  show "sleeps (trace (snd (upload_file_to_drive svc name folder retries delay s)))
          = sleeps (trace s) @ replicate (retries - 1) delay"
    by (simp add: a)
next
  assume "export_groups_rows svc groups
      (writerow [''Group Email'', ''Member Email'', ''Role'', ''Status''] (open_csv s)) = (Inr (), s2)"
    "fst (upload_file_to_drive svc (''gg_backup_'' @ timestamp @ ''.csv'') folder 3 5 s2) = Inl e"
  then show "fst (export_groups_to_csv svc timestamp groups folder s) = Inl e"
    by (auto simp add: export_groups_to_csv_def Let_def split: prod.splits sum.splits)
next
  assume "export_groups_settings_rows svc groups (writerow fields (open_csv s)) = (Inr (), s2)"
    "fst (upload_file_to_drive svc (''gg_settings_backup_'' @ timestamp @ ''.csv'') folder 3 5 s2) = Inl e"
  then show "fst (export_groups_settings_to_csv svc timestamp groups folder s) = Inl e"
    by (auto simp add: export_groups_settings_to_csv_def Let_def split: prod.splits sum.splits)
next
  assume "csv s = Some media" "fst (files_create svc name folder media (world s)) = Inl e"
    "is_HttpError e"
  then show "upload_to_drive svc name folder s =
          (Inr (), s\<lparr>world := snd (files_create svc name folder media (world s)),
                     trace := trace s @ [Call (FilesCreate name folder media)]\<rparr>)"
    by (simp add: upload_to_drive_def execute_unfold)
qed

theorem upload_retry_fixed_delay_witness:
  "(fst (upload_file_to_drive (svc_upload_down SSLEOFError) ''f.csv'' (Some ''folder'') 3 5 (open_csv s0))
      = Inl SSLEOFError
    \<and> calls (trace (snd (upload_file_to_drive (svc_upload_down SSLEOFError) ''f.csv'' (Some ''folder'')
                          3 5 (open_csv s0)))) = 3
    \<and> sleeps (trace (snd (upload_file_to_drive (svc_upload_down SSLEOFError) ''f.csv'' (Some ''folder'')
                          3 5 (open_csv s0)))) = [5, 5])
 \<and> fst (export_groups_to_csv (svc_upload_down (HttpError 500)) ''20240828-000000'' []
          (Some ''folder'') s0) = Inl (HttpError 500)
 \<and> fst (export_groups_settings_to_csv (svc_upload_down (HttpError 500)) ''20240829-000000'' []
          (Some ''folder'') s0) = Inl (HttpError 500)
 \<and> upload_to_drive (svc_upload_down (HttpError 500)) ''f.csv'' (Some ''folder'') (open_csv s0) =
     (Inr (), \<lparr>world = 1, trace = [Call (FilesCreate ''f.csv'' (Some ''folder'') [])],
               csv = Some []\<rparr>)"
proof (intro conjI)
  note defs = svc_upload_down_def svc_ok_def s0_def open_csv_def eval_nat_numeral
  note c1 = upload_retry_fixed_delay [THEN conjunct1]
  note c2 = upload_retry_fixed_delay [THEN conjunct2, THEN conjunct1]
  note c3 = upload_retry_fixed_delay [THEN conjunct2, THEN conjunct2, THEN conjunct1]
  note c4 = upload_retry_fixed_delay [THEN conjunct2, THEN conjunct2, THEN conjunct2]
  show "fst (upload_file_to_drive (svc_upload_down SSLEOFError) ''f.csv'' (Some ''folder'') 3 5 (open_csv s0))
      = Inl SSLEOFError"
    and "calls (trace (snd (upload_file_to_drive (svc_upload_down SSLEOFError) ''f.csv'' (Some ''folder'')
                          3 5 (open_csv s0)))) = 3"
    and "sleeps (trace (snd (upload_file_to_drive (svc_upload_down SSLEOFError) ''f.csv'' (Some ''folder'')
                          3 5 (open_csv s0)))) = [5, 5]"
    using c1 [of 3 "open_csv s0" "[]" "svc_upload_down SSLEOFError" "''f.csv''" "Some ''folder''"
        "[SSLEOFError, SSLEOFError, SSLEOFError]" 5]
    by (simp_all add: defs)
  have up: "fst (upload_file_to_drive (svc_upload_down (HttpError 500)) name (Some ''folder'') 3 5
               (writerow hdr (open_csv s0))) = Inl (HttpError 500)" for name hdr
    by (simp add: defs upload_file_to_drive_def writerow_def execute_def sleep_def upt_rec)
  show "fst (export_groups_to_csv (svc_upload_down (HttpError 500)) ''20240828-000000'' []
          (Some ''folder'') s0) = Inl (HttpError 500)"
    using c2 [of "svc_upload_down (HttpError 500)" "[]" s0
        "writerow [''Group Email'', ''Member Email'', ''Role'', ''Status''] (open_csv s0)"
        "''20240828-000000''" "Some ''folder''" "HttpError 500"] up
    by simp
  show "fst (export_groups_settings_to_csv (svc_upload_down (HttpError 500)) ''20240829-000000'' []
          (Some ''folder'') s0) = Inl (HttpError 500)"
    using c3 [of "svc_upload_down (HttpError 500)" "[]" s0 "writerow fields (open_csv s0)"
        "''20240829-000000''" "Some ''folder''" "HttpError 500"] up
    by simp
  show "upload_to_drive (svc_upload_down (HttpError 500)) ''f.csv'' (Some ''folder'') (open_csv s0) =
     (Inr (), \<lparr>world = 1, trace = [Call (FilesCreate ''f.csv'' (Some ''folder'') [])],
               csv = Some []\<rparr>)"
    using c4 [of "open_csv s0" "[]" "svc_upload_down (HttpError 500)" "''f.csv''" "Some ''folder''"
        "HttpError 500"]
    by (simp add: defs)
qed

text \<open>
  A shared-drive run whose upload fails with \<^verbatim>\<open>HttpError\<close> 500: one upload attempt, no
  retry, and the run returns normally although nothing was archived.
\<close>

theorem upload_failure_absorbed_counterexample:
  "main_shared_drives (svc_upload_down (HttpError 500)) 3 ''20240910-000000'' (Some ''folder'') s0 =
     Some (Inr (),
       \<lparr>world = 3,
        trace = [Call (DrivesList None), Call (PermissionsList ''d1'' None),
                 Call (FilesCreate ''shared_drive_acls_20240910-000000.csv'' (Some ''folder'')
                   [[''Shared Drive Name'', ''Shared Drive ID'', ''Permission Email'',
                     ''Permission Role'', ''Permission Type'', ''Permission Display Name''],
                    [''Drive 1'', ''d1'', ''N/A'', ''organizer'', ''N/A'', ''N/A'']])],
        csv = Some [[''Shared Drive Name'', ''Shared Drive ID'', ''Permission Email'',
                     ''Permission Role'', ''Permission Type'', ''Permission Display Name''],
                    [''Drive 1'', ''d1'', ''N/A'', ''organizer'', ''N/A'', ''N/A'']]\<rparr>)"
  by (simp add: main_shared_drives_def export_shared_drive_acls_def export_shared_drive_acls_try_def
      svc_upload_down_def svc_ok_def s0_def eval_nat_numeral execute_def no_token_def open_csv_def
      writerow_def acl_row_def dict_get_def upload_to_drive_def)

text \<open>
  Claim C10. \<^verbatim>\<open>check_folder_exists\<close> returns \<^verbatim>\<open>True\<close> exactly when the file-listing call
  against the destination raises nothing, whatever list of files it returns, the empty
  list included; it returns \<^verbatim>\<open>False\<close> exactly when that call raises an \<^verbatim>\<open>HttpError\<close>.
\<close>

theorem probe_true_iff_listing_succeeds:
  "(fst (check_folder_exists svc folder_id s) = Inr True)
     = (\<exists>files. fst (files_list svc folder_id (world s)) = Inr files)
 \<and> (fst (check_folder_exists svc folder_id s) = Inr False)
     = (\<exists>status. fst (files_list svc folder_id (world s)) = Inl (HttpError status))"
proof -
  obtain r w' where op: "files_list svc folder_id (world s) = (r, w')"
    by (cases "files_list svc folder_id (world s)")
  show ?thesis
  proof (cases r)
    case (Inl e)
    with op show ?thesis
      by (cases e) (simp_all add: check_folder_exists_def execute_def)
  next
    case (Inr files)
    with op show ?thesis
      by (simp add: check_folder_exists_def execute_def)
  qed
qed

theorem probe_true_iff_listing_succeeds_witness:
  "fst (files_list svc_ok (Some ''folder'') (world s0)) = Inr []
 \<and> fst (check_folder_exists svc_ok (Some ''folder'') s0) = Inr True
 \<and> fst (files_list svc_no_folder (Some ''folder'') (world s0)) = Inl (HttpError 404)
 \<and> fst (check_folder_exists svc_no_folder (Some ''folder'') s0) = Inr False"
  using probe_true_iff_listing_succeeds [of svc_ok "Some ''folder''" s0]
    probe_true_iff_listing_succeeds [of svc_no_folder "Some ''folder''" s0]
  by (simp add: svc_ok_def svc_no_folder_def s0_def)

section \<open>What every step leaves alone: the trace only grows, fetching writes no row\<close>

lemma trace_execute [simp]: "trace (snd (execute req f s)) = trace s @ [Call req]"
  by (simp add: execute_unfold)

lemma csv_execute [simp]: "csv (snd (execute req f s)) = csv s"
  by (simp add: execute_unfold)

lemma trace_sleep [simp]: "trace (sleep d s) = trace s @ [Sleep d]"
  by (simp add: sleep_def)

lemma csv_sleep [simp]: "csv (sleep d s) = csv s"
  by (simp add: sleep_def)

lemma trace_writerow [simp]: "trace (writerow r s) = trace s"
  by (simp add: writerow_def)

lemma world_writerow [simp]: "world (writerow r s) = world s"
  by (simp add: writerow_def)

lemma trace_writerows [simp]: "trace (writerows rs s) = trace s"
  by (induction rs arbitrary: s) auto

lemma world_writerows [simp]: "world (writerows rs s) = world s"
  by (induction rs arbitrary: s) auto

lemma csv_writerows: "csv s = Some rows \<Longrightarrow> csv (writerows rs s) = Some (rows @ rs)"
  by (induction rs arbitrary: s rows) (auto simp: writerow_def)

lemma trace_open_csv [simp]: "trace (open_csv s) = trace s"
  by (simp add: open_csv_def)

lemma world_open_csv [simp]: "world (open_csv s) = world s"
  by (simp add: open_csv_def)

lemma prefix_snoc_trans: "prefix (xs @ [x]) ys \<Longrightarrow> prefix xs ys"
  by (meson prefix_order.trans prefixI)

lemma members_loop_grows:
  "prefix (trace s) (trace (snd (get_group_members_loop svc g retries delay xs s)))
   \<and> csv (snd (get_group_members_loop svc g retries delay xs s)) = csv s"
proof (induction xs arbitrary: s)
  case Nil
  show ?case by simp
next
  case (Cons a xs)
  let ?s1 = "snd (execute (MembersList g) (members_list svc g) s)"
  have "prefix (trace s) (trace (sleep delay ?s1))" by simp
  with Cons [of "sleep delay ?s1"] have
    "prefix (trace s) (trace (snd (get_group_members_loop svc g retries delay xs (sleep delay ?s1))))"
    "csv (snd (get_group_members_loop svc g retries delay xs (sleep delay ?s1))) = csv s"
    by (auto dest: append_prefixD)
  then show ?case
    by (auto simp: split_beta Let_def split: sum.splits exn.splits)
qed

lemma members_grows:
  "prefix (trace s) (trace (snd (get_group_members svc g retries delay s)))"
  "csv (snd (get_group_members svc g retries delay s)) = csv s"
  by (simp_all add: get_group_members_def members_loop_grows)

lemma settings_loop_grows:
  "prefix (trace s) (trace (snd (get_group_settings_loop svc g xs s)))
   \<and> csv (snd (get_group_settings_loop svc g xs s)) = csv s"
proof (induction xs arbitrary: s)
  case Nil
  show ?case by simp
next
  case (Cons a xs)
  let ?s1 = "snd (execute (GroupsSettingsGet g) (groups_settings_get svc g) s)"
  have "prefix (trace s) (trace (sleep (5 * (a + 1)) ?s1))" by simp
  with Cons [of "sleep (5 * (a + 1)) ?s1"] have
    "prefix (trace s) (trace (snd (get_group_settings_loop svc g xs (sleep (5 * (a + 1)) ?s1))))"
    "csv (snd (get_group_settings_loop svc g xs (sleep (5 * (a + 1)) ?s1))) = csv s"
    by (auto dest: append_prefixD)
  then show ?case
    by (auto simp: split_beta Let_def split: sum.splits)
qed

lemma settings_grows:
  "prefix (trace s) (trace (snd (get_group_settings svc g s)))"
  "csv (snd (get_group_settings svc g s)) = csv s"
  by (simp_all add: get_group_settings_def settings_loop_grows)

lemma upload_loop_grows:
  "prefix (trace s) (trace (snd (upload_file_to_drive_loop svc media name folder retries delay xs s)))
   \<and> csv (snd (upload_file_to_drive_loop svc media name folder retries delay xs s)) = csv s"
proof (induction xs arbitrary: s)
  case Nil
  show ?case by simp
next
  case (Cons a xs)
  let ?s1 = "snd (execute (FilesCreate name folder media) (files_create svc name folder media) s)"
  have "prefix (trace s) (trace (sleep delay ?s1))" by simp
  with Cons [of "sleep delay ?s1"] have
    "prefix (trace s)
       (trace (snd (upload_file_to_drive_loop svc media name folder retries delay xs (sleep delay ?s1))))"
    "csv (snd (upload_file_to_drive_loop svc media name folder retries delay xs (sleep delay ?s1))) = csv s"
    by (auto dest: append_prefixD)
  then show ?case
    by (auto simp: split_beta Let_def split: sum.splits)
qed

lemma upload_grows:
  "prefix (trace s) (trace (snd (upload_file_to_drive svc name folder retries delay s)))"
  "csv (snd (upload_file_to_drive svc name folder retries delay s)) = csv s"
  by (simp_all add: upload_file_to_drive_def upload_loop_grows split: option.splits)

lemma upload_first_call:
  assumes "csv s = Some media" and "1 \<le> retries"
  shows "prefix (trace s @ [Call (FilesCreate name folder media)])
           (trace (snd (upload_file_to_drive svc name folder retries delay s)))"
proof -
  define xs where "xs = [Suc 0..<retries]"
  from assms(2) have xs: "[0..<retries] = 0 # xs"
    by (simp add: xs_def upt_conv_Cons)
  let ?s1 = "snd (execute (FilesCreate name folder media) (files_create svc name folder media) s)"
  let ?end = "trace (snd (upload_file_to_drive_loop svc media name folder retries delay xs
                     (sleep delay ?s1)))"
  have "prefix ((trace s @ [Call (FilesCreate name folder media)]) @ [Sleep delay]) ?end"
    using upload_loop_grows [of "sleep delay ?s1" svc media name folder retries delay xs]
    by simp
  then have "prefix (trace s @ [Call (FilesCreate name folder media)]) ?end"
    by (rule append_prefixD)
  then show ?thesis
    by (auto simp: upload_file_to_drive_def assms(1) xs split_beta Let_def split: sum.splits)
qed

lemma google_groups_loop_grows:
  "get_google_groups_loop svc fuel request groups s = Some (r, s') \<Longrightarrow>
   prefix (trace s) (trace s') \<and> csv s' = csv s"
proof (induction fuel arbitrary: request groups s)
  case 0
  then show ?case by simp
next
  case (Suc fuel)
  show ?case
  proof (cases request)
    case None
    with Suc.prems show ?thesis by simp
  next
    case (Some tok)
    let ?e = "execute (GroupsList tok) (groups_list svc tok) s"
    show ?thesis
    proof (cases "fst ?e")
      case (Inl e)
      with Suc.prems Some show ?thesis
        by (auto simp: split_beta)
    next
      case (Inr response)
      with Suc.prems Some have
        "get_google_groups_loop svc fuel (list_next response) (groups @ items response) (snd ?e)
          = Some (r, s')"
        by (simp add: split_beta)
      from Suc.IH [OF this] show ?thesis
        by (auto dest: append_prefixD)
    qed
  qed
qed

lemma new_events_append:
  "prefix (trace s) (trace s') \<Longrightarrow> trace s' = trace s @ new_events s s'"
  by (auto simp: new_events_def prefix_def)

lemma new_events_mono:
  assumes "prefix (trace s) (trace s1)" and "prefix (trace s1) (trace s')"
  shows "set (new_events s s1) \<subseteq> set (new_events s s')"
    and "set (new_events s1 s') \<subseteq> set (new_events s s')"
proof -
  from assms obtain a b where a: "trace s1 = trace s @ a" and b: "trace s' = trace s1 @ b"
    by (auto simp: prefix_def)
  then show "set (new_events s s1) \<subseteq> set (new_events s s')"
    and "set (new_events s1 s') \<subseteq> set (new_events s s')"
    by (simp_all add: new_events_def)
qed

lemma members_first_call:
  assumes "1 \<le> retries"
  shows "prefix (trace s @ [Call (MembersList g)])
           (trace (snd (get_group_members svc g retries delay s)))"
proof -
  define xs where "xs = [Suc 0..<retries]"
  from assms have xs: "[0..<retries] = 0 # xs"
    by (simp add: xs_def upt_conv_Cons)
  let ?s1 = "snd (execute (MembersList g) (members_list svc g) s)"
  let ?end = "trace (snd (get_group_members_loop svc g retries delay xs (sleep delay ?s1)))"
  have "prefix ((trace s @ [Call (MembersList g)]) @ [Sleep delay]) ?end"
    using members_loop_grows [of "sleep delay ?s1" svc g retries delay xs] by simp
  then have "prefix (trace s @ [Call (MembersList g)]) ?end"
    by (rule append_prefixD)
  then show ?thesis
    by (auto simp: get_group_members_def xs split_beta Let_def split: sum.splits exn.splits)
qed

lemma settings_first_call:
  "prefix (trace s @ [Call (GroupsSettingsGet g)]) (trace (snd (get_group_settings svc g s)))"
proof -
  define xs where "xs = [Suc 0..<max_retries]"
  have xs: "[0..<max_retries] = 0 # xs"
    by (simp add: xs_def upt_conv_Cons max_retries_def)
  let ?s1 = "snd (execute (GroupsSettingsGet g) (groups_settings_get svc g) s)"
  let ?end = "trace (snd (get_group_settings_loop svc g xs (sleep (5 * (0 + 1)) ?s1)))"
  have "prefix ((trace s @ [Call (GroupsSettingsGet g)]) @ [Sleep (5 * (0 + 1))]) ?end"
    using settings_loop_grows [of "sleep (5 * (0 + 1)) ?s1" svc g xs] by simp
  then have "prefix (trace s @ [Call (GroupsSettingsGet g)]) ?end"
    by (rule append_prefixD)
  then show ?thesis
    by (auto simp: get_group_settings_def xs split_beta Let_def split: sum.splits)
qed

text \<open>
  When the members endpoint raises nothing but \<^verbatim>\<open>HttpError\<close>, \<^verbatim>\<open>get_group_members\<close>
  either raises an \<^verbatim>\<open>HttpError\<close> or returns a list: the empty one, or a page's items.
\<close>

lemma members_loop_result:
  assumes "\<forall>w e. fst (members_list svc g w) = Inl e \<longrightarrow> is_HttpError e"
    and "a < retries"
  shows "case fst (get_group_members_loop svc g retries delay [a..<retries] s) of
           Inl e \<Rightarrow> is_HttpError e
         | Inr None \<Rightarrow> False
         | Inr (Some m) \<Rightarrow> m = [] \<or> (\<exists>w p. fst (members_list svc g w) = Inr p \<and> m = items p)"
  using assms(2)
proof (induction "retries - a" arbitrary: a s)
  case 0
  then show ?case by simp
next
  case (Suc n)
  have unroll: "[a..<retries] = a # [Suc a..<retries]"
    using Suc.prems by (simp add: upt_conv_Cons)
  let ?w = "world s"
  show ?case
  proof (cases "fst (members_list svc g ?w)")
    case (Inr p)
    then show ?thesis
      by (auto simp: unroll execute_unfold)
  next
    case (Inl e)
    with assms(1) have h: "is_HttpError e" by blast
    then obtain status where e: "e = HttpError status" by (cases e) auto
    show ?thesis
    proof (cases "status = 503 \<and> a < retries - 1")
      case True
      then have "n = retries - Suc a" "Suc a < retries" using Suc.hyps(2) by linarith+
      from Suc.hyps(1) [OF this] True Inl e show ?thesis
        by (simp add: unroll execute_unfold)
    next
      case False
      with Inl e show ?thesis
        by (auto simp: unroll execute_unfold)
    qed
  qed
qed

lemma settings_loop_result:
  assumes "\<forall>w e. fst (groups_settings_get svc g w) = Inl e \<longrightarrow> is_HttpError e \<or> e = TimeoutError"
  shows "\<exists>v. fst (get_group_settings_loop svc g xs s) = Inr v"
proof (induction xs arbitrary: s)
  case Nil
  show ?case by simp
next
  case (Cons a xs)
  show ?case
  proof (cases "fst (groups_settings_get svc g (world s))")
    case (Inr d)
    then show ?thesis by (simp add: execute_unfold)
  next
    case (Inl e)
    with assms have "is_HttpError e \<or> e = TimeoutError" by blast
    with Inl Cons.IH show ?thesis
      by (simp add: execute_unfold)
  qed
qed

lemma export_groups_rows_grows:
  "prefix (trace s) (trace (snd (export_groups_rows svc groups s)))"
proof (induction groups arbitrary: s)
  case Nil
  show ?case by simp
next
  case (Cons grp rest)
  show ?case
  proof (cases "map_of grp ''email''")
    case None
    then show ?thesis by simp
  next
    case (Some e)
    let ?m = "get_group_members svc e 3 5 s"
    have p: "prefix (trace s) (trace (snd ?m))" by (rule members_grows)
    have "prefix (trace s) (trace (snd (export_groups_rows svc rest s')))"
      if "trace s' = trace (snd ?m)" for s'
      using Cons.IH [of s'] p that by (auto intro: prefix_order.trans)
    with p Some show ?thesis
      by (auto simp: split_beta split: sum.splits option.splits)
  qed
qed

lemma export_groups_settings_rows_grows:
  "prefix (trace s) (trace (snd (export_groups_settings_rows svc groups s)))"
proof (induction groups arbitrary: s)
  case Nil
  show ?case by simp
next
  case (Cons grp rest)
  show ?case
  proof (cases "map_of grp ''email''")
    case None
    then show ?thesis by simp
  next
    case (Some e)
    let ?m = "get_group_settings svc (Some e) s"
    have p: "prefix (trace s) (trace (snd ?m))" by (rule settings_grows)
    have "prefix (trace s) (trace (snd (export_groups_settings_rows svc rest s')))"
      if "trace s' = trace (snd ?m)" for s'
      using Cons.IH [of s'] p that by (auto intro: prefix_order.trans)
    with p Some show ?thesis
      by (auto simp: split_beta Let_def split: sum.splits option.splits)
  qed
qed

lemma first_call_new:
  assumes "prefix (trace s @ [c]) (trace s1)"
  shows "c \<in> set (new_events s s1)"
proof -
  from assms obtain zs where "trace s1 = trace s @ c # zs"
    by (auto simp: prefix_def)
  then show ?thesis by (simp add: new_events_def)
qed

lemma new_events_later:
  assumes "prefix (trace s) (trace s1)" and "prefix (trace s1) (trace s')"
    and "c \<in> set (new_events s s1) \<or> c \<in> set (new_events s1 s')"
  shows "c \<in> set (new_events s s')"
  using new_events_mono [OF assms(1,2)] assms(3) by blast

lemma export_groups_rows_step:
  assumes "map_of grp ''email'' = Some e"
    and "\<forall>w x. fst (members_list svc e w) = Inl x \<longrightarrow> is_HttpError x"
  shows "\<exists>s1. trace s1 = trace (snd (get_group_members svc e 3 5 s))
     \<and> export_groups_rows svc (grp # rest) s = export_groups_rows svc rest s1"
proof -
  let ?m = "get_group_members svc e 3 5 s"
  have kind: "case fst ?m of
           Inl x \<Rightarrow> is_HttpError x
         | Inr None \<Rightarrow> False
         | Inr (Some m) \<Rightarrow> m = [] \<or> (\<exists>w p. fst (members_list svc e w) = Inr p \<and> m = items p)"
    unfolding get_group_members_def by (rule members_loop_result [OF assms(2)]) simp
  show ?thesis
  proof (cases "fst ?m")
    case (Inl x)
    with kind assms(1) show ?thesis
      by (intro exI [of _ "snd ?m"]) (simp add: split_beta)
  next
    case (Inr v)
    with kind obtain m where "v = Some m" by (cases v) auto
    with Inr assms(1) show ?thesis
      by (intro exI [of _ "writerows (map (member_row e) m) (snd ?m)"]) (simp add: split_beta)
  qed
qed

lemma export_groups_rows_visits_all:
  assumes "\<forall>g\<in>set groups. map_of g ''email'' \<noteq> None"
    and "\<forall>g w e. fst (members_list svc g w) = Inl e \<longrightarrow> is_HttpError e"
  shows "fst (export_groups_rows svc groups s) = Inr ()
     \<and> (\<forall>g\<in>set groups. \<forall>e. map_of g ''email'' = Some e \<longrightarrow>
          Call (MembersList e) \<in> set (new_events s (snd (export_groups_rows svc groups s))))"
  using assms(1)
proof (induction groups arbitrary: s)
  case Nil
  show ?case by simp
next
  case (Cons grp rest)
  from Cons.prems obtain e where e: "map_of grp ''email'' = Some e" by auto
  let ?m = "get_group_members svc e 3 5 s"
  from export_groups_rows_step [OF e, of svc s rest] assms(2)
  obtain s1 where s1: "trace s1 = trace (snd ?m)"
    and step: "export_groups_rows svc (grp # rest) s = export_groups_rows svc rest s1"
    by blast
  let ?s' = "snd (export_groups_rows svc rest s1)"
  from Cons.IH [of s1] Cons.prems
  have ih: "fst (export_groups_rows svc rest s1) = Inr ()"
    "\<forall>g\<in>set rest. \<forall>e. map_of g ''email'' = Some e \<longrightarrow> Call (MembersList e) \<in> set (new_events s1 ?s')"
    by auto
  have p1: "prefix (trace s) (trace s1)"
    unfolding s1 by (rule members_grows)
  have p2: "prefix (trace s1) (trace ?s')"
    by (rule export_groups_rows_grows)
  have "prefix (trace s @ [Call (MembersList e)]) (trace s1)"
    unfolding s1 by (rule members_first_call) simp
  then have here: "Call (MembersList e) \<in> set (new_events s s1)"
    by (rule first_call_new)
  show ?case
    unfolding step
    using ih e here new_events_later [OF p1 p2] by auto
qed

lemma export_groups_settings_rows_step:
  assumes "map_of grp ''email'' = Some e"
    and "\<forall>w x. fst (groups_settings_get svc (Some e) w) = Inl x
             \<longrightarrow> is_HttpError x \<or> x = TimeoutError"
  shows "\<exists>s1. trace s1 = trace (snd (get_group_settings svc (Some e) s))
     \<and> export_groups_settings_rows svc (grp # rest) s = export_groups_settings_rows svc rest s1"
proof -
  let ?m = "get_group_settings svc (Some e) s"
  from settings_loop_result [OF assms(2)] obtain v where v: "fst ?m = Inr v"
    unfolding get_group_settings_def by blast
  show ?thesis
  proof (cases "\<exists>d. v = Some d \<and> d \<noteq> []")
    case True
    then obtain d where "v = Some d" "d \<noteq> []" by blast
    with v assms(1) show ?thesis
      by (intro exI [of _ "writerow (map (\<lambda>field. dict_get d field ''N/A'') fields) (snd ?m)"])
        (simp add: split_beta Let_def)
  next
    case False
    with v assms(1) show ?thesis
      by (intro exI [of _ "snd ?m"]) (auto simp: split_beta Let_def split: option.splits)
  qed
qed

lemma export_groups_settings_rows_visits_all:
  assumes "\<forall>g\<in>set groups. map_of g ''email'' \<noteq> None"
    and "\<forall>g w e. fst (groups_settings_get svc g w) = Inl e \<longrightarrow> is_HttpError e \<or> e = TimeoutError"
  shows "fst (export_groups_settings_rows svc groups s) = Inr ()
     \<and> (\<forall>g\<in>set groups. Call (GroupsSettingsGet (map_of g ''email''))
            \<in> set (new_events s (snd (export_groups_settings_rows svc groups s))))"
  using assms(1)
proof (induction groups arbitrary: s)
  case Nil
  show ?case by simp
next
  case (Cons grp rest)
  from Cons.prems obtain e where e: "map_of grp ''email'' = Some e" by auto
  let ?m = "get_group_settings svc (Some e) s"
  from export_groups_settings_rows_step [OF e, of svc s rest] assms(2)
  obtain s1 where s1: "trace s1 = trace (snd ?m)"
    and step: "export_groups_settings_rows svc (grp # rest) s = export_groups_settings_rows svc rest s1"
    by blast
  let ?s' = "snd (export_groups_settings_rows svc rest s1)"
  from Cons.IH [of s1] Cons.prems
  have ih: "fst (export_groups_settings_rows svc rest s1) = Inr ()"
    "\<forall>g\<in>set rest. Call (GroupsSettingsGet (map_of g ''email'')) \<in> set (new_events s1 ?s')"
    by auto
  have p1: "prefix (trace s) (trace s1)"
    unfolding s1 by (rule settings_grows)
  have p2: "prefix (trace s1) (trace ?s')"
    by (rule export_groups_settings_rows_grows)
  have "prefix (trace s @ [Call (GroupsSettingsGet (Some e))]) (trace s1)"
    unfolding s1 by (rule settings_first_call)
  then have here: "Call (GroupsSettingsGet (Some e)) \<in> set (new_events s s1)"
    by (rule first_call_new)
  show ?case
    unfolding step
    using ih e here new_events_later [OF p1 p2] by auto
qed

text \<open>
  Claim C2. In \<^verbatim>\<open>export_groups_to_csv\<close> and \<^verbatim>\<open>export_groups_settings_to_csv\<close>, a group
  whose detail fetch fails on all three attempts is skipped: the loop goes on with the
  groups after it, in their order, from a state whose CSV file is the one it had before
  the fetch. And the loop never stops early: as long as every group carries its
  \<^verbatim>\<open>'email'\<close> and the detail endpoint raises only the errors the fetcher handles, it
  ends normally and has fetched every group of the list.
\<close>

theorem failed_resource_skipped_collection_continues:
  "(map_of grp ''email'' = Some e \<and>
    outcomes (members_list svc e) 3 (world s) = replicate 3 (Inl (HttpError 503))
    \<longrightarrow> export_groups_rows svc (grp # rest) s =
        export_groups_rows svc rest
          (s\<lparr>world := world_after (members_list svc e) 3 (world s),
             trace := trace s @ [Call (MembersList e), Sleep 5, Call (MembersList e), Sleep 5,
                                 Call (MembersList e)]\<rparr>))
 \<and> (map_of grp ''email'' = Some e \<and>
    outcomes (groups_settings_get svc (Some e)) 3 (world s) = map Inl es \<and>
    list_all (\<lambda>e. is_HttpError e \<or> e = TimeoutError) es
    \<longrightarrow> export_groups_settings_rows svc (grp # rest) s =
        export_groups_settings_rows svc rest
          (s\<lparr>world := world_after (groups_settings_get svc (Some e)) 3 (world s),
             trace := trace s @ [Call (GroupsSettingsGet (Some e)), Sleep 5,
                                 Call (GroupsSettingsGet (Some e)), Sleep 10,
                                 Call (GroupsSettingsGet (Some e))]\<rparr>))
 \<and> ((\<forall>g\<in>set groups. map_of g ''email'' \<noteq> None) \<and>
    (\<forall>g w x. fst (members_list svc g w) = Inl x \<longrightarrow> is_HttpError x)
    \<longrightarrow> fst (export_groups_rows svc groups s) = Inr ()
      \<and> (\<forall>g\<in>set groups. \<forall>e. map_of g ''email'' = Some e \<longrightarrow>
            Call (MembersList e) \<in> set (new_events s (snd (export_groups_rows svc groups s)))))
 \<and> ((\<forall>g\<in>set groups. map_of g ''email'' \<noteq> None) \<and>
    (\<forall>g w x. fst (groups_settings_get svc g w) = Inl x \<longrightarrow> is_HttpError x \<or> x = TimeoutError)
    \<longrightarrow> fst (export_groups_settings_rows svc groups s) = Inr ()
      \<and> (\<forall>g\<in>set groups. Call (GroupsSettingsGet (map_of g ''email''))
            \<in> set (new_events s (snd (export_groups_settings_rows svc groups s)))))"
proof (intro conjI impI; (elim conjE)?)
  assume e: "map_of grp ''email'' = Some e"
    and "outcomes (members_list svc e) 3 (world s) = replicate 3 (Inl (HttpError 503))"
  from members_exhausted [OF _ this(2), of 5]
  show "export_groups_rows svc (grp # rest) s =
        export_groups_rows svc rest
          (s\<lparr>world := world_after (members_list svc e) 3 (world s),
             trace := trace s @ [Call (MembersList e), Sleep 5, Call (MembersList e), Sleep 5,
                                 Call (MembersList e)]\<rparr>)"
    by (simp add: e eval_nat_numeral)
next
  assume e: "map_of grp ''email'' = Some e"
    and "outcomes (groups_settings_get svc (Some e)) 3 (world s) = map Inl es"
    "list_all (\<lambda>e. is_HttpError e \<or> e = TimeoutError) es"
  from settings_exhausted [OF this(2,3) [folded max_retries_def]]
  show "export_groups_settings_rows svc (grp # rest) s =
        export_groups_settings_rows svc rest
          (s\<lparr>world := world_after (groups_settings_get svc (Some e)) 3 (world s),
             trace := trace s @ [Call (GroupsSettingsGet (Some e)), Sleep 5,
                                 Call (GroupsSettingsGet (Some e)), Sleep 10,
                                 Call (GroupsSettingsGet (Some e))]\<rparr>)"
    by (simp add: e max_retries_def eval_nat_numeral)
next
  assume "\<forall>g\<in>set groups. map_of g ''email'' \<noteq> None"
    "\<forall>g w x. fst (members_list svc g w) = Inl x \<longrightarrow> is_HttpError x"
  note a = export_groups_rows_visits_all [OF this, of s]
  from a show "fst (export_groups_rows svc groups s) = Inr ()" by (rule conjunct1)
  from a show "\<forall>g\<in>set groups. \<forall>e. map_of g ''email'' = Some e \<longrightarrow>
            Call (MembersList e) \<in> set (new_events s (snd (export_groups_rows svc groups s)))"
    by (rule conjunct2)
next
  assume "\<forall>g\<in>set groups. map_of g ''email'' \<noteq> None"
    "\<forall>g w x. fst (groups_settings_get svc g w) = Inl x \<longrightarrow> is_HttpError x \<or> x = TimeoutError"
  note a = export_groups_settings_rows_visits_all [OF this, of s]
  from a show "fst (export_groups_settings_rows svc groups s) = Inr ()" by (rule conjunct1)
  from a show "\<forall>g\<in>set groups. Call (GroupsSettingsGet (map_of g ''email''))
            \<in> set (new_events s (snd (export_groups_settings_rows svc groups s)))"
    by (rule conjunct2)
qed

theorem failed_resource_skipped_collection_continues_witness:
  "export_groups_rows svc_ten ten_groups
     (writerow [''Group Email'', ''Member Email'', ''Role'', ''Status''] (open_csv s0)) =
   (Inr (),
    \<lparr>world = 12,
     trace =
       [Call (MembersList ''g1@y.com''), Call (MembersList ''g2@y.com''),
        Call (MembersList ''g3@y.com''), Call (MembersList ''g4@y.com''),
        Sleep 5, Call (MembersList ''g4@y.com''), Sleep 5,
        Call (MembersList ''g4@y.com''), Call (MembersList ''g5@y.com''),
        Call (MembersList ''g6@y.com''), Call (MembersList ''g7@y.com''),
        Call (MembersList ''g8@y.com''), Call (MembersList ''g9@y.com''),
        Call (MembersList ''g10@y.com'')],
     csv =
       Some
        [[''Group Email'', ''Member Email'', ''Role'', ''Status''],
         [''g1@y.com'', ''x@y.com'', ''MEMBER'', ''ACTIVE''],
         [''g2@y.com'', ''x@y.com'', ''MEMBER'', ''ACTIVE''],
         [''g3@y.com'', ''x@y.com'', ''MEMBER'', ''ACTIVE''],
         [''g5@y.com'', ''x@y.com'', ''MEMBER'', ''ACTIVE''],
         [''g6@y.com'', ''x@y.com'', ''MEMBER'', ''ACTIVE''],
         [''g7@y.com'', ''x@y.com'', ''MEMBER'', ''ACTIVE''],
         [''g8@y.com'', ''x@y.com'', ''MEMBER'', ''ACTIVE''],
         [''g9@y.com'', ''x@y.com'', ''MEMBER'', ''ACTIVE''],
         [''g10@y.com'', ''x@y.com'', ''MEMBER'', ''ACTIVE'']]\<rparr>)
 \<and> export_groups_settings_rows svc_ten ten_groups (writerow fields (open_csv s0)) =
   (Inr (),
    \<lparr>world = 12,
     trace =
       [Call (GroupsSettingsGet (Some ''g1@y.com'')), Call (GroupsSettingsGet (Some ''g2@y.com'')),
        Call (GroupsSettingsGet (Some ''g3@y.com'')), Call (GroupsSettingsGet (Some ''g4@y.com'')),
        Sleep 5, Call (GroupsSettingsGet (Some ''g4@y.com'')), Sleep 10,
        Call (GroupsSettingsGet (Some ''g4@y.com'')), Call (GroupsSettingsGet (Some ''g5@y.com'')),
        Call (GroupsSettingsGet (Some ''g6@y.com'')), Call (GroupsSettingsGet (Some ''g7@y.com'')),
        Call (GroupsSettingsGet (Some ''g8@y.com'')), Call (GroupsSettingsGet (Some ''g9@y.com'')),
        Call (GroupsSettingsGet (Some ''g10@y.com''))],
     csv =
       Some (fields #
         map (\<lambda>e. map (\<lambda>field. dict_get [(''email'', e), (''name'', ''Group'')] field ''N/A'') fields)
           [''g1@y.com'', ''g2@y.com'', ''g3@y.com'', ''g5@y.com'', ''g6@y.com'', ''g7@y.com'',
            ''g8@y.com'', ''g9@y.com'', ''g10@y.com''])\<rparr>)
 \<and> map_option (map (take 3))
       (csv (snd (export_groups_settings_rows svc_ten ten_groups (writerow fields (open_csv s0)))))
     = Some [[''email'', ''id'', ''name''],
             [''g1@y.com'', ''N/A'', ''Group''], [''g2@y.com'', ''N/A'', ''Group''],
             [''g3@y.com'', ''N/A'', ''Group''], [''g5@y.com'', ''N/A'', ''Group''],
             [''g6@y.com'', ''N/A'', ''Group''], [''g7@y.com'', ''N/A'', ''Group''],
             [''g8@y.com'', ''N/A'', ''Group''], [''g9@y.com'', ''N/A'', ''Group''],
             [''g10@y.com'', ''N/A'', ''Group'']]
 \<and> fst (export_groups_rows svc_ten ten_groups s0) = Inr ()
 \<and> set (map (\<lambda>e. Call (MembersList e))
           [''g5@y.com'', ''g6@y.com'', ''g7@y.com'', ''g8@y.com'', ''g9@y.com'', ''g10@y.com''])
       \<subseteq> set (new_events s0 (snd (export_groups_rows svc_ten ten_groups s0)))
 \<and> fst (export_groups_settings_rows svc_ten ten_groups s0) = Inr ()
 \<and> set (map (\<lambda>e. Call (GroupsSettingsGet (Some e)))
           [''g5@y.com'', ''g6@y.com'', ''g7@y.com'', ''g8@y.com'', ''g9@y.com'', ''g10@y.com''])
       \<subseteq> set (new_events s0 (snd (export_groups_settings_rows svc_ten ten_groups s0)))"
proof -
  note c1 = failed_resource_skipped_collection_continues [THEN conjunct1]
  note c2 = failed_resource_skipped_collection_continues [THEN conjunct2, THEN conjunct1]
  note c3 = failed_resource_skipped_collection_continues [THEN conjunct2, THEN conjunct2, THEN conjunct1]
  note c4 = failed_resource_skipped_collection_continues [THEN conjunct2, THEN conjunct2, THEN conjunct2]
  note svc = svc_ten_def svc_ok_def
  note run = get_group_members_def get_group_settings_def execute_def sleep_def writerow_def
    open_csv_def member_row_def dict_get_def member_x_def s0_def max_retries_def
    upt_rec eval_nat_numeral
  let ?hdr = "[''Group Email'', ''Member Email'', ''Role'', ''Status'']"
  let ?row = "\<lambda>g. [g, ''x@y.com'', ''MEMBER'', ''ACTIVE'']"
  let ?call = "\<lambda>g. Call (MembersList g)"
  let ?s3 = "\<lparr>world = 3, trace = [?call ''g1@y.com'', ?call ''g2@y.com'', ?call ''g3@y.com''],
              csv = Some [?hdr, ?row ''g1@y.com'', ?row ''g2@y.com'', ?row ''g3@y.com'']\<rparr> :: nat st"
  have first3: "export_groups_rows svc_ten ten_groups (writerow ?hdr (open_csv s0))
                  = export_groups_rows svc_ten (drop 3 ten_groups) ?s3"
    by (simp add: svc run ten_groups_def)
  have fourth: "export_groups_rows svc_ten (drop 3 ten_groups) ?s3
                  = export_groups_rows svc_ten (drop 4 ten_groups)
                      (?s3\<lparr>world := world_after (members_list svc_ten ''g4@y.com'') 3 (world ?s3),
                           trace := trace ?s3 @ [?call ''g4@y.com'', Sleep 5, ?call ''g4@y.com'',
                                                 Sleep 5, ?call ''g4@y.com'']\<rparr>)"
    using c1 [of "[(''email'', ''g4@y.com'')]" "''g4@y.com''" svc_ten ?s3 "drop 4 ten_groups"]
    by (simp add: svc ten_groups_def eval_nat_numeral)
  have members_run: "export_groups_rows svc_ten ten_groups (writerow ?hdr (open_csv s0)) =
   (Inr (),
    \<lparr>world = 12,
     trace =
       [?call ''g1@y.com'', ?call ''g2@y.com'', ?call ''g3@y.com'', ?call ''g4@y.com'',
        Sleep 5, ?call ''g4@y.com'', Sleep 5, ?call ''g4@y.com'', ?call ''g5@y.com'',
        ?call ''g6@y.com'', ?call ''g7@y.com'', ?call ''g8@y.com'', ?call ''g9@y.com'',
        ?call ''g10@y.com''],
     csv =
       Some
        [?hdr, ?row ''g1@y.com'', ?row ''g2@y.com'', ?row ''g3@y.com'', ?row ''g5@y.com'',
         ?row ''g6@y.com'', ?row ''g7@y.com'', ?row ''g8@y.com'', ?row ''g9@y.com'',
         ?row ''g10@y.com'']\<rparr>)"
    unfolding first3 fourth
    by (simp add: svc run ten_groups_def)
  let ?get = "\<lambda>g. Call (GroupsSettingsGet (Some g))"
  let ?srow = "\<lambda>e. map (\<lambda>field. dict_get [(''email'', e), (''name'', ''Group'')] field ''N/A'') fields"
  let ?t3 = "\<lparr>world = 3, trace = [?get ''g1@y.com'', ?get ''g2@y.com'', ?get ''g3@y.com''],
      csv = Some [fields, ?srow ''g1@y.com'', ?srow ''g2@y.com'', ?srow ''g3@y.com'']\<rparr> :: nat st"
  note srun = get_group_settings_def execute_def sleep_def writerow_def open_csv_def s0_def
    max_retries_def upt_rec eval_nat_numeral
  have sfirst3: "export_groups_settings_rows svc_ten ten_groups (writerow fields (open_csv s0))
                  = export_groups_settings_rows svc_ten (drop 3 ten_groups) ?t3"
    by (simp add: svc srun ten_groups_def)
  have sfourth: "export_groups_settings_rows svc_ten (drop 3 ten_groups) ?t3
                  = export_groups_settings_rows svc_ten (drop 4 ten_groups)
                      (?t3\<lparr>world := world_after (groups_settings_get svc_ten (Some ''g4@y.com'')) 3
                                      (world ?t3),
                           trace := trace ?t3 @ [?get ''g4@y.com'', Sleep 5, ?get ''g4@y.com'',
                                                 Sleep 10, ?get ''g4@y.com'']\<rparr>)"
    using c2 [of "[(''email'', ''g4@y.com'')]" "''g4@y.com''" svc_ten ?t3
        "[HttpError 503, HttpError 503, HttpError 503]" "drop 4 ten_groups"]
    by (simp add: svc ten_groups_def eval_nat_numeral)
  have settings_run: "export_groups_settings_rows svc_ten ten_groups (writerow fields (open_csv s0)) =
   (Inr (),
    \<lparr>world = 12,
     trace =
       [?get ''g1@y.com'', ?get ''g2@y.com'', ?get ''g3@y.com'', ?get ''g4@y.com'',
        Sleep 5, ?get ''g4@y.com'', Sleep 10, ?get ''g4@y.com'', ?get ''g5@y.com'',
        ?get ''g6@y.com'', ?get ''g7@y.com'', ?get ''g8@y.com'', ?get ''g9@y.com'',
        ?get ''g10@y.com''],
     csv =
       Some (fields # map ?srow
           [''g1@y.com'', ''g2@y.com'', ''g3@y.com'', ''g5@y.com'', ''g6@y.com'', ''g7@y.com'',
            ''g8@y.com'', ''g9@y.com'', ''g10@y.com''])\<rparr>)"
    unfolding sfirst3 sfourth
    by (simp add: svc srun ten_groups_def)
  have f3: "take 3 fields = [''email'', ''id'', ''name'']"
    by (simp add: fields_def)
  have row3: "take 3 (?srow e) = [e, ''N/A'', ''Group'']" for e
    by (simp add: take_map f3 dict_get_def)
  have columns: "map_option (map (take 3))
       (csv (snd (export_groups_settings_rows svc_ten ten_groups (writerow fields (open_csv s0)))))
     = Some [[''email'', ''id'', ''name''],
             [''g1@y.com'', ''N/A'', ''Group''], [''g2@y.com'', ''N/A'', ''Group''],
             [''g3@y.com'', ''N/A'', ''Group''], [''g5@y.com'', ''N/A'', ''Group''],
             [''g6@y.com'', ''N/A'', ''Group''], [''g7@y.com'', ''N/A'', ''Group''],
             [''g8@y.com'', ''N/A'', ''Group''], [''g9@y.com'', ''N/A'', ''Group''],
             [''g10@y.com'', ''N/A'', ''Group'']]"
    unfolding settings_run by (simp add: f3 row3)
  have emails: "\<forall>g\<in>set ten_groups. map_of g ''email'' \<noteq> None"
    by (simp add: ten_groups_def)
  have only_http: "\<forall>g w x. fst (members_list svc_ten g w) = Inl x \<longrightarrow> is_HttpError x"
    by (simp add: svc)
  from c3 [of ten_groups svc_ten s0] emails only_http
  have m: "fst (export_groups_rows svc_ten ten_groups s0) = Inr ()"
    "\<forall>g\<in>set ten_groups. \<forall>e. map_of g ''email'' = Some e \<longrightarrow>
       Call (MembersList e) \<in> set (new_events s0 (snd (export_groups_rows svc_ten ten_groups s0)))"
    by blast+
  have "Call (MembersList e) \<in> set (new_events s0 (snd (export_groups_rows svc_ten ten_groups s0)))"
    if "[(''email'', e)] \<in> set ten_groups" for e
    using m(2) that by force
  then have m_calls: "set (map (\<lambda>e. Call (MembersList e))
           [''g5@y.com'', ''g6@y.com'', ''g7@y.com'', ''g8@y.com'', ''g9@y.com'', ''g10@y.com''])
       \<subseteq> set (new_events s0 (snd (export_groups_rows svc_ten ten_groups s0)))"
    by (simp add: ten_groups_def)
  have only_caught: "\<forall>g w x. fst (groups_settings_get svc_ten g w) = Inl x
                       \<longrightarrow> is_HttpError x \<or> x = TimeoutError"
    by (simp add: svc)
  from c4 [of ten_groups svc_ten s0] emails only_caught
  have t: "fst (export_groups_settings_rows svc_ten ten_groups s0) = Inr ()"
    "\<forall>g\<in>set ten_groups. Call (GroupsSettingsGet (map_of g ''email''))
       \<in> set (new_events s0 (snd (export_groups_settings_rows svc_ten ten_groups s0)))"
    by blast+
  have "Call (GroupsSettingsGet (Some e))
          \<in> set (new_events s0 (snd (export_groups_settings_rows svc_ten ten_groups s0)))"
    if "[(''email'', e)] \<in> set ten_groups" for e
    using t(2) that by force
  then have t_calls: "set (map (\<lambda>e. Call (GroupsSettingsGet (Some e)))
           [''g5@y.com'', ''g6@y.com'', ''g7@y.com'', ''g8@y.com'', ''g9@y.com'', ''g10@y.com''])
       \<subseteq> set (new_events s0 (snd (export_groups_settings_rows svc_ten ten_groups s0)))"
    by (simp add: ten_groups_def)
  from members_run settings_run columns m(1) m_calls t(1) t_calls show ?thesis
    by (intro conjI)
qed

section \<open>The order of a run\<close>

lemma export_groups_to_csv_grows:
  "prefix (trace s) (trace (snd (export_groups_to_csv svc timestamp groups folder_id s)))"
proof -
  let ?s1 = "writerow [''Group Email'', ''Member Email'', ''Role'', ''Status''] (open_csv s)"
  let ?s2 = "snd (export_groups_rows svc groups ?s1)"
  let ?s3 = "snd (upload_file_to_drive svc (''gg_backup_'' @ timestamp @ ''.csv'') folder_id 3 5 ?s2)"
  have a: "prefix (trace s) (trace ?s2)"
    using export_groups_rows_grows [of ?s1 svc groups] by simp
  have "prefix (trace ?s2) (trace ?s3)" by (rule upload_grows)
  with a have "prefix (trace s) (trace ?s3)" by (rule prefix_order.trans)
  with a show ?thesis
    by (auto simp: export_groups_to_csv_def Let_def split_beta split: sum.splits)
qed

lemma export_groups_settings_to_csv_grows:
  "prefix (trace s) (trace (snd (export_groups_settings_to_csv svc timestamp groups folder_id s)))"
proof -
  let ?s1 = "writerow fields (open_csv s)"
  let ?s2 = "snd (export_groups_settings_rows svc groups ?s1)"
  let ?s3 = "snd (upload_file_to_drive svc (''gg_settings_backup_'' @ timestamp @ ''.csv'')
                    folder_id 3 5 ?s2)"
  have a: "prefix (trace s) (trace ?s2)"
    using export_groups_settings_rows_grows [of ?s1 svc groups] by simp
  have "prefix (trace ?s2) (trace ?s3)" by (rule upload_grows)
  with a have "prefix (trace s) (trace ?s3)" by (rule prefix_order.trans)
  with a show ?thesis
    by (auto simp: export_groups_settings_to_csv_def Let_def split_beta split: sum.splits)
qed

lemma check_folder_exists_unfold:
  "check_folder_exists svc folder_id s =
     (case fst (files_list svc folder_id (world s)) of
        Inr files \<Rightarrow> Inr True
      | Inl error \<Rightarrow> if is_HttpError error then Inr False else Inl error,
      s\<lparr>world := snd (files_list svc folder_id (world s)),
         trace := trace s @ [Call (FilesList folder_id)]\<rparr>)"
  by (simp add: check_folder_exists_def execute_unfold split: sum.splits)

lemma main_groups_backup_probe_first:
  assumes "main_groups_backup svc fuel timestamp folder_id s = Some (r, s')"
  shows "prefix (trace s @ [Call (FilesList folder_id)]) (trace s')"
proof -
  let ?s1 = "snd (check_folder_exists svc folder_id s)"
  have t1: "trace ?s1 = trace s @ [Call (FilesList folder_id)]"
    by (simp add: check_folder_exists_unfold)
  show ?thesis
  proof (cases "fst (check_folder_exists svc folder_id s) = Inr True")
    case False
    with assms t1 show ?thesis
      by (auto simp: main_groups_backup_def split_beta split: sum.splits if_splits)
  next
    case True
    with assms obtain r2 s2 where g: "get_google_groups svc fuel ?s1 = Some (r2, s2)"
      by (auto simp: main_groups_backup_def split_beta split: option.splits)
    then have p2: "prefix (trace ?s1) (trace s2)"
      unfolding get_google_groups_def by (auto dest: google_groups_loop_grows)
    show ?thesis
    proof (cases r2)
      case (Inl e)
      with assms True g p2 t1 show ?thesis
        by (auto simp: main_groups_backup_def split_beta)
    next
      case (Inr groups)
      with assms True g have "s' = snd (export_groups_to_csv svc timestamp groups folder_id s2)"
        by (auto simp: main_groups_backup_def split_beta)
      with p2 export_groups_to_csv_grows [of s2 svc timestamp groups folder_id] t1
      show ?thesis by (metis prefix_order.trans)
    qed
  qed
qed

lemma main_gg_settings_backup_probe_first:
  assumes "main_gg_settings_backup svc fuel timestamp folder_id s = Some (r, s')"
  shows "prefix (trace s @ [Call (FilesList folder_id)]) (trace s')"
proof -
  let ?s1 = "snd (check_folder_exists svc folder_id s)"
  have t1: "trace ?s1 = trace s @ [Call (FilesList folder_id)]"
    by (simp add: check_folder_exists_unfold)
  show ?thesis
  proof (cases "fst (check_folder_exists svc folder_id s) = Inr True")
    case False
    with assms t1 show ?thesis
      by (auto simp: main_gg_settings_backup_def split_beta split: sum.splits if_splits)
  next
    case True
    with assms obtain r2 s2 where g: "get_google_groups svc fuel ?s1 = Some (r2, s2)"
      by (auto simp: main_gg_settings_backup_def split_beta split: option.splits)
    then have p2: "prefix (trace ?s1) (trace s2)"
      unfolding get_google_groups_def by (auto dest: google_groups_loop_grows)
    show ?thesis
    proof (cases r2)
      case (Inl e)
      with assms True g p2 t1 show ?thesis
        by (auto simp: main_gg_settings_backup_def split_beta)
    next
      case (Inr groups)
      with assms True g
      have "s' = snd (export_groups_settings_to_csv svc timestamp groups folder_id s2)"
        by (auto simp: main_gg_settings_backup_def split_beta)
      with p2 export_groups_settings_to_csv_grows [of s2 svc timestamp groups folder_id] t1
      show ?thesis by (metis prefix_order.trans)
    qed
  qed
qed

subsection \<open>The scripts without a probe\<close>

lemma no_probe_ext_iff:
  "no_probe_ext t t' = (\<exists>tr. t' = t @ tr \<and> list_all (\<lambda>c. \<not> is_probe c) tr)"
  by (auto simp: no_probe_ext_def prefix_def)

lemma no_probe_ext_refl [simp]: "no_probe_ext t t"
  by (simp add: no_probe_ext_iff)

lemma no_probe_ext_trans:
  "no_probe_ext t t1 \<Longrightarrow> no_probe_ext t1 t2 \<Longrightarrow> no_probe_ext t t2"
  by (auto simp: no_probe_ext_iff)

lemma no_probe_ext_snoc:
  "no_probe_ext t t1 \<Longrightarrow> \<not> is_probe c \<Longrightarrow> no_probe_ext t (t1 @ [c])"
  by (auto simp: no_probe_ext_iff)

lemma no_probe_ext_snocD:
  "no_probe_ext (t @ [c]) t' \<Longrightarrow> \<not> is_probe c \<Longrightarrow> no_probe_ext t t'"
  by (auto simp: no_probe_ext_iff)

lemma no_probe_ext_new_events:
  assumes "no_probe_ext (trace s) (trace s')"
  shows "prefix (trace s) (trace s')" and "\<forall>f. Call (FilesList f) \<notin> set (new_events s s')"
proof -
  from assms show "prefix (trace s) (trace s')" by (simp add: no_probe_ext_def)
  from assms have "list_all (\<lambda>c. \<not> is_probe c) (new_events s s')"
    by (simp add: no_probe_ext_def new_events_def)
  then show "\<forall>f. Call (FilesList f) \<notin> set (new_events s s')"
    by (auto simp: list_all_iff)
qed

lemma list_shared_drives_no_probe:
  "list_shared_drives svc fuel page_token shared_drives s = Some (r, s1) \<Longrightarrow>
   no_probe_ext (trace s @ [Call (DrivesList page_token)]) (trace s1)"
proof (induction fuel arbitrary: page_token shared_drives s)
  case 0
  then show ?case by simp
next
  case (Suc fuel)
  let ?e = "execute (DrivesList page_token) (drives_list svc page_token) s"
  have one: "no_probe_ext (trace s @ [Call (DrivesList page_token)]) (trace (snd ?e))"
    by simp
  show ?case
  proof (cases "fst ?e")
    case (Inl e)
    with Suc.prems one show ?thesis
      by (auto simp: split_beta)
  next
    case (Inr response)
    show ?thesis
    proof (cases "no_token (nextPageToken response)")
      case True
      with Inr Suc.prems one show ?thesis
        by (auto simp: split_beta Let_def)
    next
      case False
      with Inr Suc.prems have
        "list_shared_drives svc fuel (nextPageToken response) (shared_drives @ items response) (snd ?e)
           = Some (r, s1)"
        by (simp add: split_beta Let_def)
      from Suc.IH [OF this]
      have "no_probe_ext (trace (snd ?e)) (trace s1)"
        by (rule no_probe_ext_snocD) simp
      from no_probe_ext_trans [OF one this] show ?thesis .
    qed
  qed
qed

lemma export_acls_pages_no_probe:
  "export_acls_pages svc fuel drive_name drive_id tok s = Some (r, s1) \<Longrightarrow>
   no_probe_ext (trace s) (trace s1)"
proof (induction fuel arbitrary: tok s)
  case 0
  then show ?case by simp
next
  case (Suc fuel)
  let ?e = "execute (PermissionsList drive_id tok) (permissions_list svc drive_id tok) s"
  have one: "no_probe_ext (trace s) (trace (snd ?e))"
    by (simp add: no_probe_ext_snoc)
  show ?case
  proof (cases "fst ?e")
    case (Inl e)
    with Suc.prems one show ?thesis
      by (auto simp: split_beta)
  next
    case (Inr response)
    let ?s2 = "writerows (map (acl_row drive_name drive_id) (items response)) (snd ?e)"
    have two: "no_probe_ext (trace s) (trace ?s2)" using one by simp
    show ?thesis
    proof (cases "no_token (nextPageToken response)")
      case True
      with Inr Suc.prems two show ?thesis
        by (auto simp: split_beta Let_def)
    next
      case False
      with Inr Suc.prems have
        "export_acls_pages svc fuel drive_name drive_id (nextPageToken response) ?s2 = Some (r, s1)"
        by (simp add: split_beta Let_def)
      from no_probe_ext_trans [OF two Suc.IH [OF this]] show ?thesis .
    qed
  qed
qed

lemma export_drives_rows_no_probe:
  "export_drives_rows svc fuel drives s = Some (r, s1) \<Longrightarrow> no_probe_ext (trace s) (trace s1)"
proof (induction drives arbitrary: s)
  case Nil
  then show ?case by simp
next
  case (Cons drive rest)
  show ?case
  proof (cases "map_of drive ''id''")
    case None
    with Cons.prems show ?thesis by simp
  next
    case i: (Some drive_id)
    show ?thesis
    proof (cases "map_of drive ''name''")
      case None
      with Cons.prems i show ?thesis by simp
    next
      case n: (Some drive_name)
      from Cons.prems i n obtain r2 s2 where
        a: "export_acls_pages svc fuel drive_name drive_id None s = Some (r2, s2)"
        by (auto split: option.splits)
      note one = export_acls_pages_no_probe [OF a]
      show ?thesis
      proof (cases "r = r2 \<and> s1 = s2")
        case True
        with one show ?thesis by simp
      next
        case False
        with Cons.prems i n a have "export_drives_rows svc fuel rest s2 = Some (r, s1)"
          by (auto split: sum.splits if_splits)
        from no_probe_ext_trans [OF one Cons.IH [OF this]] show ?thesis .
      qed
    qed
  qed
qed

lemma upload_to_drive_no_probe:
  "upload_to_drive svc name folder s = (r, s') \<Longrightarrow> no_probe_ext (trace s) (trace s')"
  by (auto simp: upload_to_drive_def execute_unfold no_probe_ext_snoc
      split: option.splits sum.splits if_splits)

lemma export_shared_drive_acls_no_probe:
  assumes "export_shared_drive_acls svc fuel timestamp folder_id s = Some (r, s')"
  shows "no_probe_ext (trace s @ [Call (DrivesList None)]) (trace s')"
proof -
  from assms obtain r0 where
    t: "export_shared_drive_acls_try svc fuel timestamp folder_id s = Some (r0, s')"
    by (auto simp: export_shared_drive_acls_def split: option.splits sum.splits if_splits)
  then obtain r1 s1 where l: "list_shared_drives svc fuel None [] s = Some (r1, s1)"
    by (auto simp: export_shared_drive_acls_try_def split: option.splits)
  note one = list_shared_drives_no_probe [OF l]
  show ?thesis
  proof (cases "s' = s1")
    case True
    with one show ?thesis by simp
  next
    case False
    let ?hdr = "[''Shared Drive Name'', ''Shared Drive ID'', ''Permission Email'',
                 ''Permission Role'', ''Permission Type'', ''Permission Display Name'']"
    let ?s2 = "writerow ?hdr (open_csv s1)"
    from False t l obtain drives r3 s3 where r1: "r1 = Inr drives"
      and d: "export_drives_rows svc fuel drives ?s2 = Some (r3, s3)"
      by (auto simp: export_shared_drive_acls_try_def Let_def split: sum.splits if_splits option.splits)
    have two: "no_probe_ext (trace s1) (trace s3)"
      using export_drives_rows_no_probe [OF d] by simp
    have "no_probe_ext (trace s3) (trace s')"
      using t l r1 d False
      by (auto simp: export_shared_drive_acls_try_def Let_def
          split: sum.splits if_splits prod.splits dest: upload_to_drive_no_probe)
    from no_probe_ext_trans [OF one no_probe_ext_trans [OF two this]] show ?thesis .
  qed
qed


lemma forwarding_loop_no_probe:
  "no_probe_ext (trace s) (trace (snd (get_forwarding_settings_loop svc u delay xs s)))"
proof (induction xs arbitrary: s delay)
  case Nil
  show ?case by simp
next
  case (Cons a xs)
  let ?s1 = "snd (execute (GetAutoForwarding u) (get_auto_forwarding svc u) s)"
  have one: "no_probe_ext (trace s) (trace ?s1)"
    by (simp add: no_probe_ext_snoc)
  have "no_probe_ext (trace s) (trace (sleep delay ?s1))"
    by (simp add: no_probe_ext_iff)
  from no_probe_ext_trans [OF this Cons [of "sleep delay ?s1" "delay * 2"]] one show ?case
    by (auto simp: split_beta Let_def split: sum.splits exn.splits option.splits)
qed

lemma export_users_rows_no_probe:
  "no_probe_ext (trace s) (trace (snd (export_users_rows svc users s)))"
proof (induction users arbitrary: s)
  case Nil
  show ?case by simp
next
  case (Cons u rest)
  show ?case
  proof (cases "primaryEmail u")
    case None
    then show ?thesis by simp
  next
    case (Some email)
    let ?m = "get_forwarding_settings svc email 5 30 s"
    have one: "no_probe_ext (trace s) (trace (snd ?m))"
      unfolding get_forwarding_settings_def by (rule forwarding_loop_no_probe)
    have two: "no_probe_ext (trace s) (trace (snd (export_users_rows svc rest (snd ?m))))"
      by (rule no_probe_ext_trans [OF one Cons])
    have three: "no_probe_ext (trace s) (trace (snd (export_users_rows svc rest (writerow row (snd ?m)))))"
      for row
      using no_probe_ext_trans [OF _ Cons [of "writerow row (snd ?m)"], of "trace s"] one by simp
    from Some one two three show ?thesis
      by (auto simp: split_beta Let_def split: sum.splits option.splits)
  qed
qed

lemma active_users_loop_no_probe:
  "get_active_users_loop svc fuel customer_id results users s = Some (r, s1) \<Longrightarrow>
   no_probe_ext (trace s) (trace s1)"
proof (induction fuel arbitrary: results users s)
  case 0
  then show ?case by simp
next
  case (Suc fuel)
  show ?case
  proof (cases "nextPageToken results")
    case None
    with Suc.prems show ?thesis by auto
  next
    case (Some tok)
    let ?e = "execute (UsersList customer_id (Some tok)) (users_list svc customer_id (Some tok)) s"
    have one: "no_probe_ext (trace s) (trace (snd ?e))"
      by (simp add: no_probe_ext_snoc)
    show ?thesis
    proof (cases "fst ?e")
      case (Inl e)
      with Suc.prems Some one show ?thesis
        by (auto simp: split_beta)
    next
      case (Inr results')
      with Suc.prems Some have
        "get_active_users_loop svc fuel customer_id results' (users @ items results') (snd ?e)
          = Some (r, s1)"
        by (simp add: split_beta)
      from no_probe_ext_trans [OF one Suc.IH [OF this]] show ?thesis .
    qed
  qed
qed

lemma get_active_users_no_probe:
  assumes "get_active_users svc fuel customer_id s = Some (users, s1)"
  shows "no_probe_ext (trace s @ [Call (UsersList customer_id None)]) (trace s1)"
proof -
  let ?e = "execute (UsersList customer_id None) (users_list svc customer_id None) s"
  have one: "no_probe_ext (trace s @ [Call (UsersList customer_id None)]) (trace (snd ?e))"
    by simp
  from assms obtain r where t: "get_active_users_try svc fuel customer_id s = Some (r, s1)"
    by (auto simp: get_active_users_def split: option.splits)
  show ?thesis
  proof (cases "fst ?e")
    case (Inl e)
    with t one show ?thesis
      by (auto simp: get_active_users_try_def split_beta)
  next
    case (Inr results)
    with t have "get_active_users_loop svc fuel customer_id results (items results) (snd ?e)
                   = Some (r, s1)"
      by (simp add: get_active_users_try_def split_beta)
    from no_probe_ext_trans [OF one active_users_loop_no_probe [OF this]] show ?thesis .
  qed
qed

lemma export_users_with_forwarding_to_csv_no_probe:
  "no_probe_ext (trace s)
     (trace (snd (export_users_with_forwarding_to_csv svc timestamp folder_id users s)))"
proof -
  let ?s1 = "writerow [''Primary Email'', ''Full Name'', ''Forwarding Email Address'',
                       ''Disposition''] (open_csv s)"
  let ?x = "export_users_rows svc users ?s1"
  have one: "no_probe_ext (trace s) (trace (snd ?x))"
    using export_users_rows_no_probe [of ?s1 svc users] by simp
  have two: "no_probe_ext (trace s) (trace (snd (upload_to_drive svc name folder_id (snd ?x))))"
    for name
    by (rule no_probe_ext_trans [OF one upload_to_drive_no_probe [OF prod.collapse [symmetric]]])
  from one two show ?thesis
    by (auto simp: export_users_with_forwarding_to_csv_def Let_def split_beta split: sum.splits)
qed

lemma main_forwarding_no_probe:
  assumes "main_forwarding svc fuel timestamp (Some cid) folder_id s = Some (r, s')"
    and cid: "cid \<noteq> []"
  shows "no_probe_ext (trace s @ [Call (UsersList cid None)]) (trace s')"
proof -
  from assms obtain active_users s1 where
    g: "get_active_users svc fuel cid s = Some (active_users, s1)"
    by (auto simp: main_forwarding_def split: option.splits)
  note one = get_active_users_no_probe [OF g]
  show ?thesis
  proof (cases "active_users = []")
    case True
    with assms cid g one show ?thesis by (simp add: main_forwarding_def)
  next
    case False
    with assms cid g have
      "s' = snd (export_users_with_forwarding_to_csv svc timestamp folder_id active_users s1)"
      by (simp add: main_forwarding_def)
    with no_probe_ext_trans [OF one export_users_with_forwarding_to_csv_no_probe] show ?thesis
      by simp
  qed
qed

text \<open>
  Claim C8, as the code has it. In \<^verbatim>\<open>gw_groups_backup.py\<close> and
  \<^verbatim>\<open>gw_gg_settings_backup.py\<close> the probe of the destination folder is the first remote
  call of every run, and when the probe raises, the run ends there: its whole trace is that
  one call, no listing, no detail fetch, no upload, and no file is written (after an
  \<^verbatim>\<open>HttpError\<close> the run returns normally with a message, any other exception propagates).
  The shared-drive and forwarding scripts have no probe: no run of
  \<^verbatim>\<open>gw_export_shared_drives_acls.py\<close> or \<^verbatim>\<open>gw_export_users_with_forwarding.py\<close>, whatever
  the remote services answer, ever issues the folder-listing call, and the first remote call
  of a run that gets past its environment check (\<^verbatim>\<open>FOLDER_ID\<close> set, respectively
  \<^verbatim>\<open>CUSTOMER_ID\<close> set and not empty) is the first page of the resource listing.
\<close>

theorem probe_first_and_fail_fast:
  "(main_groups_backup svc fuel timestamp folder_id s = Some (r, s')
    \<longrightarrow> prefix (trace s @ [Call (FilesList folder_id)]) (trace s'))
 \<and> (fst (files_list svc folder_id (world s)) = Inl e
    \<longrightarrow> main_groups_backup svc fuel timestamp folder_id s =
          Some (if is_HttpError e then Inr () else Inl e,
                s\<lparr>world := snd (files_list svc folder_id (world s)),
                  trace := trace s @ [Call (FilesList folder_id)]\<rparr>))
 \<and> (main_gg_settings_backup svc fuel timestamp folder_id s = Some (r, s')
    \<longrightarrow> prefix (trace s @ [Call (FilesList folder_id)]) (trace s'))
 \<and> (fst (files_list svc folder_id (world s)) = Inl e
    \<longrightarrow> main_gg_settings_backup svc fuel timestamp folder_id s =
          Some (if is_HttpError e then Inr () else Inl e,
                s\<lparr>world := snd (files_list svc folder_id (world s)),
                  trace := trace s @ [Call (FilesList folder_id)]\<rparr>))
 \<and> (main_shared_drives svc fuel timestamp folder_id s = Some (r, s')
    \<longrightarrow> prefix (trace s) (trace s')
      \<and> (\<forall>f. Call (FilesList f) \<notin> set (new_events s s'))
      \<and> (folder_id \<noteq> None \<longrightarrow> prefix (trace s @ [Call (DrivesList None)]) (trace s')))
 \<and> (main_forwarding svc fuel timestamp customer_id folder_id s = Some (r, s')
    \<longrightarrow> prefix (trace s) (trace s')
      \<and> (\<forall>f. Call (FilesList f) \<notin> set (new_events s s'))
      \<and> (\<forall>cid. customer_id = Some cid \<and> cid \<noteq> []
            \<longrightarrow> prefix (trace s @ [Call (UsersList cid None)]) (trace s')))"
proof (intro conjI impI allI; (elim conjE)?)
  assume "main_groups_backup svc fuel timestamp folder_id s = Some (r, s')"
  then show "prefix (trace s @ [Call (FilesList folder_id)]) (trace s')"
    by (rule main_groups_backup_probe_first)
next
  assume "main_gg_settings_backup svc fuel timestamp folder_id s = Some (r, s')"
  then show "prefix (trace s @ [Call (FilesList folder_id)]) (trace s')"
    by (rule main_gg_settings_backup_probe_first)
next
  assume "fst (files_list svc folder_id (world s)) = Inl e"
  then show "main_groups_backup svc fuel timestamp folder_id s =
          Some (if is_HttpError e then Inr () else Inl e,
                s\<lparr>world := snd (files_list svc folder_id (world s)),
                  trace := trace s @ [Call (FilesList folder_id)]\<rparr>)"
    by (simp add: main_groups_backup_def check_folder_exists_unfold)
next
  assume "fst (files_list svc folder_id (world s)) = Inl e"
  then show "main_gg_settings_backup svc fuel timestamp folder_id s =
          Some (if is_HttpError e then Inr () else Inl e,
                s\<lparr>world := snd (files_list svc folder_id (world s)),
                  trace := trace s @ [Call (FilesList folder_id)]\<rparr>)"
    by (simp add: main_gg_settings_backup_def check_folder_exists_unfold)
next
  assume m: "main_shared_drives svc fuel timestamp folder_id s = Some (r, s')"
  have n: "no_probe_ext (trace s) (trace s')"
  proof (cases "folder_id = None")
    case True
    with m show ?thesis by (simp add: main_shared_drives_def)
  next
    case False
    with m have "export_shared_drive_acls svc fuel timestamp folder_id s = Some (r, s')"
      by (simp add: main_shared_drives_def)
    from export_shared_drive_acls_no_probe [OF this] show ?thesis
      by (rule no_probe_ext_snocD) simp
  qed
  from no_probe_ext_new_events [OF n]
  show "prefix (trace s) (trace s')" and "Call (FilesList f) \<notin> set (new_events s s')" for f
    by simp_all
  {
    assume "folder_id \<noteq> None"
    with m have "export_shared_drive_acls svc fuel timestamp folder_id s = Some (r, s')"
      by (simp add: main_shared_drives_def)
    from export_shared_drive_acls_no_probe [OF this]
    show "prefix (trace s @ [Call (DrivesList None)]) (trace s')"
      by (simp add: no_probe_ext_def)
  }
next
  assume m: "main_forwarding svc fuel timestamp customer_id folder_id s = Some (r, s')"
  have n: "no_probe_ext (trace s) (trace s')"
  proof (cases "customer_id = None \<or> customer_id = Some []")
    case True
    with m show ?thesis by (auto simp: main_forwarding_def)
  next
    case False
    then obtain cid where c: "customer_id = Some cid" "cid \<noteq> []" by auto
    from main_forwarding_no_probe [OF m [unfolded c(1)] c(2)] show ?thesis
      by (rule no_probe_ext_snocD) simp
  qed
  from no_probe_ext_new_events [OF n]
  show "prefix (trace s) (trace s')" and "Call (FilesList f) \<notin> set (new_events s s')" for f
    by simp_all
  {
    fix cid
    assume c: "customer_id = Some cid" "cid \<noteq> []"
    from main_forwarding_no_probe [OF m [unfolded c(1)] c(2)]
    show "prefix (trace s @ [Call (UsersList cid None)]) (trace s')"
      by (simp add: no_probe_ext_def)
  }
qed

theorem probe_first_and_fail_fast_witness:
  "main_groups_backup svc_ok 2 ''20240828-000000'' (Some ''folder'') s0 =
     Some (Inr (),
       \<lparr>world = 6,
        trace =
          [Call (FilesList (Some ''folder'')), Call (GroupsList None),
           Call (MembersList ''a@y.com''), Call (MembersList ''b@y.com''),
           Call (MembersList ''c@y.com''),
           Call (FilesCreate ''gg_backup_20240828-000000.csv'' (Some ''folder'')
              [[''Group Email'', ''Member Email'', ''Role'', ''Status''],
               [''a@y.com'', ''x@y.com'', ''MEMBER'', ''ACTIVE''],
               [''b@y.com'', ''x@y.com'', ''MEMBER'', ''ACTIVE''],
               [''c@y.com'', ''x@y.com'', ''MEMBER'', ''ACTIVE'']])],
        csv = Some [[''Group Email'', ''Member Email'', ''Role'', ''Status''],
                    [''a@y.com'', ''x@y.com'', ''MEMBER'', ''ACTIVE''],
                    [''b@y.com'', ''x@y.com'', ''MEMBER'', ''ACTIVE''],
                    [''c@y.com'', ''x@y.com'', ''MEMBER'', ''ACTIVE'']]\<rparr>)
 \<and> prefix [Call (FilesList (Some ''folder''))]
      (case main_groups_backup svc_ok 2 ''20240828-000000'' (Some ''folder'') s0 of
         None \<Rightarrow> [] | Some (r, s') \<Rightarrow> trace s')
 \<and> main_groups_backup svc_no_folder 2 ''20240828-000000'' (Some ''folder'') s0 =
     Some (Inr (), \<lparr>world = 1, trace = [Call (FilesList (Some ''folder''))], csv = None\<rparr>)
 \<and> main_gg_settings_backup svc_no_folder 2 ''20240829-000000'' (Some ''folder'') s0 =
     Some (Inr (), \<lparr>world = 1, trace = [Call (FilesList (Some ''folder''))], csv = None\<rparr>)
 \<and> prefix [Call (FilesList (Some ''folder''))]
      (case main_gg_settings_backup svc_no_folder 2 ''20240829-000000'' (Some ''folder'') s0 of
         None \<Rightarrow> [] | Some (r, s') \<Rightarrow> trace s')
 \<and> main_shared_drives svc_ok 3 ''20240910-000000'' (Some ''folder'') s0 =
     Some (Inr (),
       \<lparr>world = 3,
        trace = [Call (DrivesList None), Call (PermissionsList ''d1'' None),
                 Call (FilesCreate ''shared_drive_acls_20240910-000000.csv'' (Some ''folder'')
                   [[''Shared Drive Name'', ''Shared Drive ID'', ''Permission Email'',
                     ''Permission Role'', ''Permission Type'', ''Permission Display Name''],
                    [''Drive 1'', ''d1'', ''N/A'', ''organizer'', ''N/A'', ''N/A'']])],
        csv = Some [[''Shared Drive Name'', ''Shared Drive ID'', ''Permission Email'',
                     ''Permission Role'', ''Permission Type'', ''Permission Display Name''],
                    [''Drive 1'', ''d1'', ''N/A'', ''organizer'', ''N/A'', ''N/A'']]\<rparr>)
 \<and> prefix [Call (DrivesList None)]
      (case main_shared_drives svc_ok 3 ''20240910-000000'' (Some ''folder'') s0 of
         None \<Rightarrow> [] | Some (r, s') \<Rightarrow> trace s')
 \<and> (\<forall>f. Call (FilesList f) \<notin> set
      (case main_shared_drives svc_ok 3 ''20240910-000000'' (Some ''folder'') s0 of
         None \<Rightarrow> [] | Some (r, s') \<Rightarrow> new_events s0 s'))
 \<and> main_forwarding svc_ok 3 ''20240909-000000'' (Some ''C01'') (Some ''folder'') s0 =
     Some (Inr (),
       \<lparr>world = 3,
        trace =
          [Call (UsersList ''C01'' None), Call (GetAutoForwarding ''u@y.com''),
           Call (FilesCreate ''active_users_with_forwarding_20240909-000000.csv'' (Some ''folder'')
              [[''Primary Email'', ''Full Name'', ''Forwarding Email Address'', ''Disposition''],
               [''u@y.com'', ''U'', ''z@y.com'', ''trash'']])],
        csv = Some [[''Primary Email'', ''Full Name'', ''Forwarding Email Address'', ''Disposition''],
                    [''u@y.com'', ''U'', ''z@y.com'', ''trash'']]\<rparr>)
 \<and> prefix [Call (UsersList ''C01'' None)]
      (case main_forwarding svc_ok 3 ''20240909-000000'' (Some ''C01'') (Some ''folder'') s0 of
         None \<Rightarrow> [] | Some (r, s') \<Rightarrow> trace s')
 \<and> (\<forall>f. Call (FilesList f) \<notin> set
      (case main_forwarding svc_ok 3 ''20240909-000000'' (Some ''C01'') (Some ''folder'') s0 of
         None \<Rightarrow> [] | Some (r, s') \<Rightarrow> new_events s0 s'))"
proof -
  note c1 = probe_first_and_fail_fast [THEN conjunct1]
  note c2 = probe_first_and_fail_fast [THEN conjunct2, THEN conjunct1]
  note c3 = probe_first_and_fail_fast [THEN conjunct2, THEN conjunct2, THEN conjunct1]
  note c4 = probe_first_and_fail_fast [THEN conjunct2, THEN conjunct2, THEN conjunct2,
      THEN conjunct1]
  note c5 = probe_first_and_fail_fast [THEN conjunct2, THEN conjunct2, THEN conjunct2,
      THEN conjunct2, THEN conjunct1]
  note c6 = probe_first_and_fail_fast [THEN conjunct2, THEN conjunct2, THEN conjunct2,
      THEN conjunct2, THEN conjunct2]
  let ?hdr = "[''Group Email'', ''Member Email'', ''Role'', ''Status'']"
  let ?rows = "[?hdr, [''a@y.com'', ''x@y.com'', ''MEMBER'', ''ACTIVE''],
                [''b@y.com'', ''x@y.com'', ''MEMBER'', ''ACTIVE''],
                [''c@y.com'', ''x@y.com'', ''MEMBER'', ''ACTIVE'']]"
  let ?end = "\<lparr>world = 6,
        trace =
          [Call (FilesList (Some ''folder'')), Call (GroupsList None),
           Call (MembersList ''a@y.com''), Call (MembersList ''b@y.com''),
           Call (MembersList ''c@y.com''),
           Call (FilesCreate ''gg_backup_20240828-000000.csv'' (Some ''folder'') ?rows)],
        csv = Some ?rows\<rparr> :: nat st"
  have run: "main_groups_backup svc_ok 2 ''20240828-000000'' (Some ''folder'') s0 = Some (Inr (), ?end)"
    by (simp add: main_groups_backup_def check_folder_exists_def get_google_groups_def list_next_def
        export_groups_to_csv_def get_group_members_def upload_file_to_drive_def execute_def
        writerow_def open_csv_def member_row_def dict_get_def member_x_def svc_ok_def s0_def
        upt_rec eval_nat_numeral)
  from c1 [of svc_ok 2 "''20240828-000000''" "Some ''folder''" s0 "Inr ()" ?end] run
  have first: "prefix [Call (FilesList (Some ''folder''))] (trace ?end)"
    by (simp add: s0_def)
  have probe: "fst (files_list svc_no_folder (Some ''folder'') (world s0)) = Inl (HttpError 404)"
    by (simp add: svc_no_folder_def svc_ok_def)
  from c2 [of svc_no_folder "Some ''folder''" s0 "HttpError 404" 2 "''20240828-000000''"] probe
  have stop1: "main_groups_backup svc_no_folder 2 ''20240828-000000'' (Some ''folder'') s0 =
     Some (Inr (), \<lparr>world = 1, trace = [Call (FilesList (Some ''folder''))], csv = None\<rparr>)"
    by (simp add: svc_no_folder_def svc_ok_def s0_def)
  from c4 [of svc_no_folder "Some ''folder''" s0 "HttpError 404" 2 "''20240829-000000''"] probe
  have stop2: "main_gg_settings_backup svc_no_folder 2 ''20240829-000000'' (Some ''folder'') s0 =
     Some (Inr (), \<lparr>world = 1, trace = [Call (FilesList (Some ''folder''))], csv = None\<rparr>)"
    by (simp add: svc_no_folder_def svc_ok_def s0_def)
  from c3 [of svc_no_folder 2 "''20240829-000000''" "Some ''folder''" s0 "Inr ()"
      "\<lparr>world = 1, trace = [Call (FilesList (Some ''folder''))], csv = None\<rparr>"] stop2
  have first2: "prefix [Call (FilesList (Some ''folder''))]
      (case main_gg_settings_backup svc_no_folder 2 ''20240829-000000'' (Some ''folder'') s0 of
         None \<Rightarrow> [] | Some (r, s') \<Rightarrow> trace s')"
    by (simp add: s0_def)
  let ?hdrS = "[''Shared Drive Name'', ''Shared Drive ID'', ''Permission Email'',
                ''Permission Role'', ''Permission Type'', ''Permission Display Name'']"
  let ?rowsS = "[?hdrS, [''Drive 1'', ''d1'', ''N/A'', ''organizer'', ''N/A'', ''N/A'']]"
  let ?endS = "\<lparr>world = 3,
        trace = [Call (DrivesList None), Call (PermissionsList ''d1'' None),
                 Call (FilesCreate ''shared_drive_acls_20240910-000000.csv'' (Some ''folder'') ?rowsS)],
        csv = Some ?rowsS\<rparr> :: nat st"
  let ?rowsF = "[[''Primary Email'', ''Full Name'', ''Forwarding Email Address'', ''Disposition''],
                 [''u@y.com'', ''U'', ''z@y.com'', ''trash'']]"
  let ?endF = "\<lparr>world = 3,
        trace =
          [Call (UsersList ''C01'' None), Call (GetAutoForwarding ''u@y.com''),
           Call (FilesCreate ''active_users_with_forwarding_20240909-000000.csv'' (Some ''folder'')
              ?rowsF)],
        csv = Some ?rowsF\<rparr> :: nat st"
  have runS: "main_shared_drives svc_ok 3 ''20240910-000000'' (Some ''folder'') s0 = Some (Inr (), ?endS)"
    by (simp add: main_shared_drives_def export_shared_drive_acls_def
        export_shared_drive_acls_try_def svc_ok_def s0_def eval_nat_numeral execute_def
        no_token_def open_csv_def writerow_def acl_row_def dict_get_def upload_to_drive_def)
  from c5 [of svc_ok 3 "''20240910-000000''" "Some ''folder''" s0 "Inr ()" ?endS] runS
  have noS: "\<forall>f. Call (FilesList f) \<notin> set (new_events s0 ?endS)"
    and firstS: "prefix [Call (DrivesList None)] (trace ?endS)"
    by (simp_all add: s0_def)
  have runF: "main_forwarding svc_ok 3 ''20240909-000000'' (Some ''C01'') (Some ''folder'') s0 =
      Some (Inr (), ?endF)"
    by (simp add: svc_ok_def s0_def main_forwarding_def get_active_users_def
        get_active_users_try_def is_suspended_def export_users_with_forwarding_to_csv_def
        get_forwarding_settings_def upload_to_drive_def forwarding_x_def execute_def open_csv_def
        writerow_def upt_rec eval_nat_numeral)
  from c6 [of svc_ok 3 "''20240909-000000''" "Some ''C01''" "Some ''folder''" s0 "Inr ()" ?endF] runF
  have noF: "\<forall>f. Call (FilesList f) \<notin> set (new_events s0 ?endF)"
    and firstF: "prefix [Call (UsersList ''C01'' None)] (trace ?endF)"
    by (simp_all add: s0_def)
  from run first stop1 stop2 first2 runS firstS noS runF firstF noF show ?thesis
    by simp
qed

text \<open>
  A shared-drive run against a destination that does not exist (the upload raises
  \<^verbatim>\<open>HttpError\<close> 404): the run makes no probe; it lists the drives, fetches the
  permissions and attempts the upload.
\<close>

theorem no_probe_counterexample:
  "main_shared_drives (svc_upload_down (HttpError 404)) 3 ''20240910-000000'' (Some ''folder'') s0 =
     Some (Inr (),
       \<lparr>world = 3,
        trace = [Call (DrivesList None), Call (PermissionsList ''d1'' None),
                 Call (FilesCreate ''shared_drive_acls_20240910-000000.csv'' (Some ''folder'')
                   [[''Shared Drive Name'', ''Shared Drive ID'', ''Permission Email'',
                     ''Permission Role'', ''Permission Type'', ''Permission Display Name''],
                    [''Drive 1'', ''d1'', ''N/A'', ''organizer'', ''N/A'', ''N/A'']])],
        csv = Some [[''Shared Drive Name'', ''Shared Drive ID'', ''Permission Email'',
                     ''Permission Role'', ''Permission Type'', ''Permission Display Name''],
                    [''Drive 1'', ''d1'', ''N/A'', ''organizer'', ''N/A'', ''N/A'']]\<rparr>)"
  by (simp add: main_shared_drives_def export_shared_drive_acls_def export_shared_drive_acls_try_def
      svc_upload_down_def svc_ok_def s0_def eval_nat_numeral execute_def no_token_def open_csv_def
      writerow_def acl_row_def dict_get_def upload_to_drive_def)

section \<open>Pagination\<close>

text \<open>
  Claim C5 at a group whose member list has a second page. The members endpoint answers
  with one member and the cursor \<^verbatim>\<open>p2\<close>; \<^verbatim>\<open>get_group_members\<close> makes that one call,
  returns the members of the first page and drops the cursor, so the members of the
  second page never reach the file. The permissions loop of \<^verbatim>\<open>export_shared_drive_acls\<close>,
  against the same kind of answer, requests the second page and writes both.
\<close>

theorem members_second_page_never_fetched:
  "fst (members_list svc_two_pages ''b@y.com'' (world s0))
     = Inr \<lparr>items = [member_x], nextPageToken = Some ''p2''\<rparr>
 \<and> get_group_members svc_two_pages ''b@y.com'' 3 5 s0 =
     (Inr (Some [member_x]),
      \<lparr>world = 1, trace = [Call (MembersList ''b@y.com'')], csv = None\<rparr>)
 \<and> export_acls_pages svc_two_pages 3 ''Drive 1'' ''d1'' None (open_csv s0) =
     Some (Inr (),
       \<lparr>world = 2,
        trace = [Call (PermissionsList ''d1'' None), Call (PermissionsList ''d1'' (Some ''p2''))],
        csv = Some [[''Drive 1'', ''d1'', ''N/A'', ''organizer'', ''N/A'', ''N/A''],
                    [''Drive 1'', ''d1'', ''N/A'', ''reader'', ''N/A'', ''N/A'']]\<rparr>)"
  by (simp add: svc_two_pages_def svc_ok_def s0_def get_group_members_def execute_def
      open_csv_def writerow_def acl_row_def dict_get_def no_token_def upt_rec eval_nat_numeral)

text \<open>
  Claim C6 at a user listing whose second page fails. \<^verbatim>\<open>get_active_users\<close> catches the
  exception and returns the users of the first page, so the run goes on with them: it
  fetches their forwarding settings, writes the file and uploads it. In the group scripts
  the same failure of \<^verbatim>\<open>get_google_groups\<close> ends the run with the exception, no file
  written, nothing uploaded.
\<close>

theorem listing_failure_exports_partial_users:
  "fst (users_list svc_users_page2_down ''C01'' (Some ''p2'') 1) = Inl (HttpError 500)
 \<and> main_forwarding svc_users_page2_down 3 ''20240909-000000'' (Some ''C01'') (Some ''folder'') s0 =
     Some (Inr (),
       \<lparr>world = 4,
        trace =
          [Call (UsersList ''C01'' None), Call (UsersList ''C01'' (Some ''p2'')),
           Call (GetAutoForwarding ''u@y.com''),
           Call (FilesCreate ''active_users_with_forwarding_20240909-000000.csv'' (Some ''folder'')
              [[''Primary Email'', ''Full Name'', ''Forwarding Email Address'', ''Disposition''],
               [''u@y.com'', ''U'', ''z@y.com'', ''trash'']])],
        csv = Some [[''Primary Email'', ''Full Name'', ''Forwarding Email Address'', ''Disposition''],
                    [''u@y.com'', ''U'', ''z@y.com'', ''trash'']]\<rparr>)
 \<and> main_groups_backup svc_groups_page2_down 3 ''20240828-000000'' (Some ''folder'') s0 =
     Some (Inl (HttpError 500),
       \<lparr>world = 3,
        trace = [Call (FilesList (Some ''folder'')), Call (GroupsList None),
                 Call (GroupsList (Some ''p2''))],
        csv = None\<rparr>)"
  by (simp add: svc_users_page2_down_def svc_groups_page2_down_def svc_ok_def s0_def
      main_forwarding_def get_active_users_def get_active_users_try_def is_suspended_def
      export_users_with_forwarding_to_csv_def get_forwarding_settings_def upload_to_drive_def
      main_groups_backup_def check_folder_exists_def get_google_groups_def list_next_def
      forwarding_x_def execute_def open_csv_def writerow_def upt_rec eval_nat_numeral)

section \<open>The file of a run without data rows\<close>

lemma export_groups_rows_all_fail:
  assumes "\<forall>g\<in>set groups. \<exists>e. map_of g ''email'' = Some e
             \<and> (\<forall>w. \<exists>x. fst (members_list svc e w) = Inl x \<and> is_HttpError x)"
  shows "fst (export_groups_rows svc groups s) = Inr ()
       \<and> csv (snd (export_groups_rows svc groups s)) = csv s"
  using assms
proof (induction groups arbitrary: s)
  case Nil
  show ?case by simp
next
  case (Cons grp rest)
  from Cons.prems obtain e where e: "map_of grp ''email'' = Some e"
    and fail: "\<forall>w. \<exists>x. fst (members_list svc e w) = Inl x \<and> is_HttpError x"
    by auto
  let ?m = "get_group_members svc e 3 5 s"
  have only: "\<forall>w x. fst (members_list svc e w) = Inl x \<longrightarrow> is_HttpError x"
    using fail by (metis Inl_inject)
  have kind: "case fst ?m of
           Inl x \<Rightarrow> is_HttpError x
         | Inr None \<Rightarrow> False
         | Inr (Some m) \<Rightarrow> m = [] \<or> (\<exists>w p. fst (members_list svc e w) = Inr p \<and> m = items p)"
    unfolding get_group_members_def by (rule members_loop_result [OF only]) simp
  have never: "\<not> (\<exists>w p. fst (members_list svc e w) = Inr p)"
    using fail by (metis sum.distinct(1))
  have csv1: "csv (snd ?m) = csv s" by (rule members_grows)
  have step: "export_groups_rows svc (grp # rest) s = export_groups_rows svc rest (snd ?m)"
  proof (cases "fst ?m")
    case (Inl x)
    with kind e show ?thesis by (simp add: split_beta)
  next
    case (Inr v)
    with kind never have "v = Some []" by (cases v) auto
    with Inr e show ?thesis by (simp add: split_beta)
  qed
  from Cons.IH [of "snd ?m"] Cons.prems csv1 show ?case
    unfolding step by simp
qed

lemma settings_loop_all_fail:
  assumes "\<forall>w. \<exists>x. fst (groups_settings_get svc g w) = Inl x \<and> (is_HttpError x \<or> x = TimeoutError)"
  shows "fst (get_group_settings_loop svc g xs s) = Inr None"
proof (induction xs arbitrary: s)
  case Nil
  show ?case by simp
next
  case (Cons a xs)
  from assms obtain x where "fst (groups_settings_get svc g (world s)) = Inl x"
    "is_HttpError x \<or> x = TimeoutError" by blast
  with Cons.IH show ?case
    by (simp add: execute_unfold)
qed

lemma export_groups_settings_rows_all_fail:
  assumes "\<forall>g\<in>set groups. \<exists>e. map_of g ''email'' = Some e
             \<and> (\<forall>w. \<exists>x. fst (groups_settings_get svc (Some e) w) = Inl x
                    \<and> (is_HttpError x \<or> x = TimeoutError))"
  shows "fst (export_groups_settings_rows svc groups s) = Inr ()
       \<and> csv (snd (export_groups_settings_rows svc groups s)) = csv s"
  using assms
proof (induction groups arbitrary: s)
  case Nil
  show ?case by simp
next
  case (Cons grp rest)
  from Cons.prems obtain e where e: "map_of grp ''email'' = Some e"
    and fail: "\<forall>w. \<exists>x. fst (groups_settings_get svc (Some e) w) = Inl x
                 \<and> (is_HttpError x \<or> x = TimeoutError)"
    by auto
  let ?m = "get_group_settings svc (Some e) s"
  have "fst ?m = Inr None"
    unfolding get_group_settings_def by (rule settings_loop_all_fail [OF fail])
  then have step: "export_groups_settings_rows svc (grp # rest) s
                     = export_groups_settings_rows svc rest (snd ?m)"
    using e by (simp add: split_beta Let_def)
  have csv1: "csv (snd ?m) = csv s" by (rule settings_grows)
  from Cons.IH [of "snd ?m"] Cons.prems csv1 show ?case
    unfolding step by simp
qed

lemma in_new_events:
  fixes s s1 s' :: "'w st"
  assumes "prefix (trace s) (trace s1)" and "prefix (trace s1 @ [c]) (trace s')"
  shows "c \<in> set (new_events s s')"
proof -
  from assms(2) have p: "prefix (trace s1) (trace s')" by (rule append_prefixD)
  from assms(2) have "c \<in> set (new_events s1 s')" by (rule first_call_new)
  with new_events_later [OF assms(1) p] show ?thesis by blast
qed

lemma export_groups_to_csv_header_only:
  assumes "\<forall>g\<in>set groups. \<exists>e. map_of g ''email'' = Some e
             \<and> (\<forall>w. \<exists>x. fst (members_list svc e w) = Inl x \<and> is_HttpError x)"
  shows "csv (snd (export_groups_to_csv svc timestamp groups folder_id s))
           = Some [[''Group Email'', ''Member Email'', ''Role'', ''Status'']]"
    and "Call (FilesCreate (''gg_backup_'' @ timestamp @ ''.csv'') folder_id
                 [[''Group Email'', ''Member Email'', ''Role'', ''Status'']])
           \<in> set (new_events s (snd (export_groups_to_csv svc timestamp groups folder_id s)))"
proof -
  let ?hdr = "[''Group Email'', ''Member Email'', ''Role'', ''Status'']"
  let ?name = "''gg_backup_'' @ timestamp @ ''.csv''"
  let ?s1 = "writerow ?hdr (open_csv s)"
  let ?s2 = "snd (export_groups_rows svc groups ?s1)"
  let ?s3 = "snd (upload_file_to_drive svc ?name folder_id 3 5 ?s2)"
  have rows: "fst (export_groups_rows svc groups ?s1) = Inr ()" "csv ?s2 = Some [?hdr]"
    using export_groups_rows_all_fail [OF assms, of ?s1] by (simp_all add: writerow_def open_csv_def)
  have s': "snd (export_groups_to_csv svc timestamp groups folder_id s) = ?s3"
    using rows(1) by (simp add: export_groups_to_csv_def Let_def split_beta split: sum.splits)
  show "csv (snd (export_groups_to_csv svc timestamp groups folder_id s)) = Some [?hdr]"
    unfolding s' using rows(2) by (simp add: upload_grows)
  have p: "prefix (trace s) (trace ?s2)"
    using export_groups_rows_grows [of ?s1 svc groups] by simp
  have "prefix (trace ?s2 @ [Call (FilesCreate ?name folder_id [?hdr])]) (trace ?s3)"
    by (rule upload_first_call [OF rows(2)]) simp
  with p show "Call (FilesCreate ?name folder_id [?hdr])
           \<in> set (new_events s (snd (export_groups_to_csv svc timestamp groups folder_id s)))"
    unfolding s' by (rule in_new_events)
qed

lemma export_groups_settings_to_csv_header_only:
  assumes "\<forall>g\<in>set groups. \<exists>e. map_of g ''email'' = Some e
             \<and> (\<forall>w. \<exists>x. fst (groups_settings_get svc (Some e) w) = Inl x
                    \<and> (is_HttpError x \<or> x = TimeoutError))"
  shows "csv (snd (export_groups_settings_to_csv svc timestamp groups folder_id s)) = Some [fields]"
    and "Call (FilesCreate (''gg_settings_backup_'' @ timestamp @ ''.csv'') folder_id [fields])
           \<in> set (new_events s (snd (export_groups_settings_to_csv svc timestamp groups folder_id s)))"
proof -
  let ?name = "''gg_settings_backup_'' @ timestamp @ ''.csv''"
  let ?s1 = "writerow fields (open_csv s)"
  let ?s2 = "snd (export_groups_settings_rows svc groups ?s1)"
  let ?s3 = "snd (upload_file_to_drive svc ?name folder_id 3 5 ?s2)"
  have rows: "fst (export_groups_settings_rows svc groups ?s1) = Inr ()" "csv ?s2 = Some [fields]"
    using export_groups_settings_rows_all_fail [OF assms, of ?s1]
    by (simp_all add: writerow_def open_csv_def)
  have s': "snd (export_groups_settings_to_csv svc timestamp groups folder_id s) = ?s3"
    using rows(1) by (simp add: export_groups_settings_to_csv_def Let_def split_beta split: sum.splits)
  show "csv (snd (export_groups_settings_to_csv svc timestamp groups folder_id s)) = Some [fields]"
    unfolding s' using rows(2) by (simp add: upload_grows)
  have p: "prefix (trace s) (trace ?s2)"
    using export_groups_settings_rows_grows [of ?s1 svc groups] by simp
  have "prefix (trace ?s2 @ [Call (FilesCreate ?name folder_id [fields])]) (trace ?s3)"
    by (rule upload_first_call [OF rows(2)]) simp
  with p show "Call (FilesCreate ?name folder_id [fields])
           \<in> set (new_events s (snd (export_groups_settings_to_csv svc timestamp groups folder_id s)))"
    unfolding s' by (rule in_new_events)
qed

lemma list_shared_drives_grows:
  "list_shared_drives svc fuel page_token shared_drives s = Some (r, s1) \<Longrightarrow>
   csv s1 = csv s \<and>
   (\<exists>tr. trace s1 = trace s @ tr \<and> (\<forall>c\<in>set tr. \<exists>t. c = Call (DrivesList t)))"
proof (induction fuel arbitrary: page_token shared_drives s)
  case 0
  then show ?case by simp
next
  case (Suc fuel)
  let ?e = "execute (DrivesList page_token) (drives_list svc page_token) s"
  show ?case
  proof (cases "fst ?e")
    case (Inl e)
    with Suc.prems show ?thesis
      by (auto simp: split_beta)
  next
    case (Inr response)
    show ?thesis
    proof (cases "no_token (nextPageToken response)")
      case True
      with Inr Suc.prems show ?thesis
        by (auto simp: split_beta Let_def)
    next
      case False
      with Inr Suc.prems have
        "list_shared_drives svc fuel (nextPageToken response) (shared_drives @ items response) (snd ?e)
           = Some (r, s1)"
        by (simp add: split_beta Let_def)
      from Suc.IH [OF this] obtain tr where "csv s1 = csv s"
        "trace s1 = (trace s @ [Call (DrivesList page_token)]) @ tr"
        "\<forall>c\<in>set tr. \<exists>t. c = Call (DrivesList t)"
        by auto
      then show ?thesis
        by (intro conjI exI [of _ "Call (DrivesList page_token) # tr"]) auto
    qed
  qed
qed

lemma acls_first_call_fails:
  assumes "fst (permissions_list svc drive_id tok (world s)) = Inl x"
  shows "export_acls_pages svc (Suc n) drive_name drive_id tok s =
     Some (Inl x, s\<lparr>world := snd (permissions_list svc drive_id tok (world s)),
                    trace := trace s @ [Call (PermissionsList drive_id tok)]\<rparr>)"
  using assms by (simp add: execute_unfold)

lemma export_drives_rows_all_fail:
  assumes "\<forall>d\<in>set drives. \<exists>i n. map_of d ''id'' = Some i \<and> map_of d ''name'' = Some n
             \<and> (\<forall>w. \<exists>x. fst (permissions_list svc i None w) = Inl x \<and> is_HttpError x)"
  shows "\<exists>s'. export_drives_rows svc (Suc fuel) drives s = Some (Inr (), s')
           \<and> csv s' = csv s \<and> prefix (trace s) (trace s')"
  using assms
proof (induction drives arbitrary: s)
  case Nil
  show ?case by simp
next
  case (Cons drive rest)
  from Cons.prems obtain i n where d: "map_of drive ''id'' = Some i" "map_of drive ''name'' = Some n"
    and fail: "\<forall>w. \<exists>x. fst (permissions_list svc i None w) = Inl x \<and> is_HttpError x"
    by auto
  from fail obtain x where x: "fst (permissions_list svc i None (world s)) = Inl x" "is_HttpError x"
    by blast
  let ?s1 = "s\<lparr>world := snd (permissions_list svc i None (world s)),
                trace := trace s @ [Call (PermissionsList i None)]\<rparr>"
  have step: "export_drives_rows svc (Suc fuel) (drive # rest) s
                = export_drives_rows svc (Suc fuel) rest ?s1"
    using d x by (simp add: acls_first_call_fails [OF x(1)] del: export_acls_pages.simps)
  from Cons.IH [of ?s1] Cons.prems obtain s' where
    "export_drives_rows svc (Suc fuel) rest ?s1 = Some (Inr (), s')" "csv s' = csv ?s1"
    "prefix (trace ?s1) (trace s')"
    by auto
  then show ?case
    unfolding step by (auto dest: append_prefixD)
qed

lemma upload_to_drive_call:
  assumes "csv s = Some media"
  shows "trace (snd (upload_to_drive svc name folder s))
           = trace s @ [Call (FilesCreate name folder media)]"
    and "csv (snd (upload_to_drive svc name folder s)) = Some media"
  using assms by (auto simp: upload_to_drive_def execute_unfold split: sum.splits)

lemma shared_drives_header_only:
  assumes "list_shared_drives svc fuel None [] s = Some (Inr drives, s1)" and "drives \<noteq> []"
    and "\<forall>d\<in>set drives. \<exists>i n. map_of d ''id'' = Some i \<and> map_of d ''name'' = Some n
             \<and> (\<forall>w. \<exists>x. fst (permissions_list svc i None w) = Inl x \<and> is_HttpError x)"
  shows "\<exists>r s'. export_shared_drive_acls svc fuel timestamp folder_id s = Some (r, s')
     \<and> csv s' = Some [[''Shared Drive Name'', ''Shared Drive ID'', ''Permission Email'',
                        ''Permission Role'', ''Permission Type'', ''Permission Display Name'']]
     \<and> Call (FilesCreate (''shared_drive_acls_'' @ timestamp @ ''.csv'') folder_id
                [[''Shared Drive Name'', ''Shared Drive ID'', ''Permission Email'',
                  ''Permission Role'', ''Permission Type'', ''Permission Display Name'']])
         \<in> set (new_events s s')"
proof -
  let ?hdr = "[''Shared Drive Name'', ''Shared Drive ID'', ''Permission Email'',
               ''Permission Role'', ''Permission Type'', ''Permission Display Name'']"
  let ?name = "''shared_drive_acls_'' @ timestamp @ ''.csv''"
  from assms(1) obtain n where fuel: "fuel = Suc n" by (cases fuel) auto
  let ?s2 = "writerow ?hdr (open_csv s1)"
  from export_drives_rows_all_fail [OF assms(3), of n ?s2] obtain s3 where
    rows: "export_drives_rows svc fuel drives ?s2 = Some (Inr (), s3)"
    and csv3: "csv s3 = Some [?hdr]" and p3: "prefix (trace s1) (trace s3)"
    unfolding fuel by (auto simp: writerow_def open_csv_def)
  let ?s4 = "snd (upload_to_drive svc ?name folder_id s3)"
  have p1: "prefix (trace s) (trace s1)"
    using list_shared_drives_grows [OF assms(1)] by (auto simp: prefix_def)
  from p1 p3 have p: "prefix (trace s) (trace s3)" by (rule prefix_order.trans)
  have "prefix (trace s3 @ [Call (FilesCreate ?name folder_id [?hdr])]) (trace ?s4)"
    by (simp add: upload_to_drive_call [OF csv3])
  with p have call: "Call (FilesCreate ?name folder_id [?hdr]) \<in> set (new_events s ?s4)"
    by (rule in_new_events)
  have "\<exists>r. export_shared_drive_acls svc fuel timestamp folder_id s = Some (r, ?s4)"
    using assms(1,2) rows
    by (auto simp: export_shared_drive_acls_def export_shared_drive_acls_try_def Let_def split_beta
        split: sum.splits)
  with call upload_to_drive_call(2) [OF csv3, of svc ?name folder_id] show ?thesis
    by blast
qed

lemma shared_drives_none:
  assumes "list_shared_drives svc fuel None [] s = Some (Inr [], s1)"
  shows "export_shared_drive_acls svc fuel timestamp folder_id s = Some (Inr (), s1)"
    and "csv s1 = csv s"
    and "\<forall>c\<in>set (new_events s s1). \<exists>t. c = Call (DrivesList t)"
proof -
  show "export_shared_drive_acls svc fuel timestamp folder_id s = Some (Inr (), s1)"
    using assms by (simp add: export_shared_drive_acls_def export_shared_drive_acls_try_def)
  from list_shared_drives_grows [OF assms]
  show "csv s1 = csv s" and "\<forall>c\<in>set (new_events s s1). \<exists>t. c = Call (DrivesList t)"
    by (auto simp: new_events_def)
qed

lemma forwarding_loop_grows:
  "prefix (trace s) (trace (snd (get_forwarding_settings_loop svc u delay xs s)))
   \<and> csv (snd (get_forwarding_settings_loop svc u delay xs s)) = csv s"
proof (induction xs arbitrary: s delay)
  case Nil
  show ?case by simp
next
  case (Cons a xs)
  let ?s1 = "snd (execute (GetAutoForwarding u) (get_auto_forwarding svc u) s)"
  have "prefix (trace s) (trace (sleep delay ?s1))" by simp
  with Cons [of "sleep delay ?s1" "delay * 2"] have
    "prefix (trace s)
       (trace (snd (get_forwarding_settings_loop svc u (delay * 2) xs (sleep delay ?s1))))"
    "csv (snd (get_forwarding_settings_loop svc u (delay * 2) xs (sleep delay ?s1))) = csv s"
    by (auto dest: append_prefixD)
  then show ?case
    by (auto simp: split_beta Let_def split: sum.splits exn.splits option.splits)
qed

lemma forwarding_loop_all_fail:
  assumes "\<forall>w. \<exists>status. fst (get_auto_forwarding svc u w) = Inl (HttpError status)"
  shows "fst (get_forwarding_settings_loop svc u delay xs s) = Inr (None, None)"
proof (induction xs arbitrary: s delay)
  case Nil
  show ?case by simp
next
  case (Cons a xs)
  from assms obtain status where "fst (get_auto_forwarding svc u (world s)) = Inl (HttpError status)"
    by blast
  with Cons.IH show ?case
    by (simp add: execute_unfold)
qed

lemma export_users_rows_all_fail:
  assumes "\<forall>u\<in>set users. \<exists>email. primaryEmail u = Some email
             \<and> (\<forall>w. \<exists>status. fst (get_auto_forwarding svc email w) = Inl (HttpError status))"
  shows "fst (export_users_rows svc users s) = Inr ()
       \<and> csv (snd (export_users_rows svc users s)) = csv s
       \<and> prefix (trace s) (trace (snd (export_users_rows svc users s)))"
  using assms
proof (induction users arbitrary: s)
  case Nil
  show ?case by simp
next
  case (Cons u rest)
  from Cons.prems obtain email where e: "primaryEmail u = Some email"
    and fail: "\<forall>w. \<exists>status. fst (get_auto_forwarding svc email w) = Inl (HttpError status)"
    by auto
  let ?m = "get_forwarding_settings svc email 5 30 s"
  have r: "fst ?m = Inr (None, None)"
    unfolding get_forwarding_settings_def by (rule forwarding_loop_all_fail [OF fail])
  have g: "prefix (trace s) (trace (snd ?m))" "csv (snd ?m) = csv s"
    unfolding get_forwarding_settings_def by (simp_all add: forwarding_loop_grows)
  have step: "export_users_rows svc (u # rest) s = export_users_rows svc rest (snd ?m)"
    using e r by (simp add: split_beta)
  from Cons.IH [of "snd ?m"] Cons.prems g show ?case
    unfolding step by (auto intro: prefix_order.trans)
qed

lemma active_users_loop_grows:
  "get_active_users_loop svc fuel customer_id results users s = Some (r, s1) \<Longrightarrow>
   prefix (trace s) (trace s1) \<and> csv s1 = csv s"
proof (induction fuel arbitrary: results users s)
  case 0
  then show ?case by simp
next
  case (Suc fuel)
  show ?case
  proof (cases "nextPageToken results")
    case None
    with Suc.prems show ?thesis by auto
  next
    case (Some tok)
    let ?e = "execute (UsersList customer_id (Some tok)) (users_list svc customer_id (Some tok)) s"
    show ?thesis
    proof (cases "fst ?e")
      case (Inl e)
      with Suc.prems Some show ?thesis
        by (auto simp: split_beta)
    next
      case (Inr results')
      with Suc.prems Some have
        "get_active_users_loop svc fuel customer_id results' (users @ items results') (snd ?e)
          = Some (r, s1)"
        by (simp add: split_beta)
      from Suc.IH [OF this] show ?thesis
        by (auto dest: append_prefixD)
    qed
  qed
qed

lemma get_active_users_grows:
  assumes "get_active_users svc fuel customer_id s = Some (users, s1)"
  shows "prefix (trace s) (trace s1)" and "csv s1 = csv s"
proof -
  let ?e = "execute (UsersList customer_id None) (users_list svc customer_id None) s"
  from assms obtain r where t: "get_active_users_try svc fuel customer_id s = Some (r, s1)"
    by (auto simp: get_active_users_def split: option.splits)
  have "prefix (trace s) (trace s1) \<and> csv s1 = csv s"
  proof (cases "fst ?e")
    case (Inl e)
    with t show ?thesis
      by (auto simp: get_active_users_try_def split_beta)
  next
    case (Inr results)
    with t have "get_active_users_loop svc fuel customer_id results (items results) (snd ?e)
                   = Some (r, s1)"
      by (simp add: get_active_users_try_def split_beta)
    from active_users_loop_grows [OF this] show ?thesis
      by (auto dest: append_prefixD)
  qed
  then show "prefix (trace s) (trace s1)" and "csv s1 = csv s" by simp_all
qed

lemma forwarding_header_only:
  assumes "get_active_users svc fuel cid s = Some (users, s1)" and "users \<noteq> []" and "cid \<noteq> []"
    and "\<forall>u\<in>set users. \<exists>email. primaryEmail u = Some email
             \<and> (\<forall>w. \<exists>status. fst (get_auto_forwarding svc email w) = Inl (HttpError status))"
  shows "\<exists>r s'. main_forwarding svc fuel timestamp (Some cid) folder_id s = Some (r, s')
     \<and> csv s' = Some [[''Primary Email'', ''Full Name'', ''Forwarding Email Address'',
                        ''Disposition'']]
     \<and> Call (FilesCreate (''active_users_with_forwarding_'' @ timestamp @ ''.csv'') folder_id
                [[''Primary Email'', ''Full Name'', ''Forwarding Email Address'', ''Disposition'']])
         \<in> set (new_events s s')"
proof -
  let ?hdr = "[''Primary Email'', ''Full Name'', ''Forwarding Email Address'', ''Disposition'']"
  let ?name = "''active_users_with_forwarding_'' @ timestamp @ ''.csv''"
  let ?s2 = "writerow ?hdr (open_csv s1)"
  let ?s3 = "snd (export_users_rows svc users ?s2)"
  let ?s4 = "snd (upload_to_drive svc ?name folder_id ?s3)"
  from export_users_rows_all_fail [OF assms(4), of ?s2]
  have rows: "fst (export_users_rows svc users ?s2) = Inr ()" and csv3: "csv ?s3 = Some [?hdr]"
    and p3: "prefix (trace s1) (trace ?s3)"
    by (simp_all add: writerow_def open_csv_def)
  have p1: "prefix (trace s) (trace s1)" by (rule get_active_users_grows [OF assms(1)])
  from p1 p3 have p: "prefix (trace s) (trace ?s3)" by (rule prefix_order.trans)
  have "prefix (trace ?s3 @ [Call (FilesCreate ?name folder_id [?hdr])]) (trace ?s4)"
    by (simp add: upload_to_drive_call [OF csv3])
  with p have call: "Call (FilesCreate ?name folder_id [?hdr]) \<in> set (new_events s ?s4)"
    by (rule in_new_events)
  have "main_forwarding svc fuel timestamp (Some cid) folder_id s
          = Some (upload_to_drive svc ?name folder_id ?s3)"
    using assms(1,2,3) rows
    by (auto simp: main_forwarding_def export_users_with_forwarding_to_csv_def Let_def split_beta
        split: sum.splits)
  then have "\<exists>r. main_forwarding svc fuel timestamp (Some cid) folder_id s = Some (r, ?s4)"
    by (metis prod.collapse)
  with call upload_to_drive_call(2) [OF csv3, of svc ?name folder_id] show ?thesis
    by blast
qed

lemma forwarding_none:
  assumes "get_active_users svc fuel cid s = Some ([], s1)" and "cid \<noteq> []"
  shows "main_forwarding svc fuel timestamp (Some cid) folder_id s = Some (Inr (), s1)"
    and "csv s1 = csv s"
  using assms get_active_users_grows(2) [OF assms(1)] by (simp_all add: main_forwarding_def)

text \<open>
  Claim C7, as the code has it. In the two group scripts, \<^verbatim>\<open>export_groups_to_csv\<close> and
  \<^verbatim>\<open>export_groups_settings_to_csv\<close> write the file with its header row and hand it to the
  uploader also when there is no data row, in two cases: the list of groups is empty, or
  every group carries its \<^verbatim>\<open>'email'\<close> and every detail fetch fails with an error the script
  handles (any \<^verbatim>\<open>HttpError\<close> in \<^verbatim>\<open>gw_groups_backup.py\<close>; any \<^verbatim>\<open>HttpError\<close> or
  \<^verbatim>\<open>TimeoutError\<close> in \<^verbatim>\<open>gw_gg_settings_backup.py\<close>). The file then holds exactly the header
  row. In the shared-drive and forwarding scripts the same holds when the listing is not
  empty, every listed resource carries the keys the loop reads (\<^verbatim>\<open>'id'\<close> and \<^verbatim>\<open>'name'\<close>,
  respectively \<^verbatim>\<open>'primaryEmail'\<close>) and every detail fetch fails with \<^verbatim>\<open>HttpError\<close>; when
  the listing returns no resource, the run ends right after the listing: no file is written
  and nothing is uploaded.
\<close>

theorem header_only_file_without_data_rows:
  "((\<forall>g\<in>set groups. \<exists>e. map_of g ''email'' = Some e
        \<and> (\<forall>w. \<exists>x. fst (members_list svc e w) = Inl x \<and> is_HttpError x))
    \<longrightarrow> csv (snd (export_groups_to_csv svc timestamp groups folder_id s))
          = Some [[''Group Email'', ''Member Email'', ''Role'', ''Status'']]
      \<and> Call (FilesCreate (''gg_backup_'' @ timestamp @ ''.csv'') folder_id
                [[''Group Email'', ''Member Email'', ''Role'', ''Status'']])
          \<in> set (new_events s (snd (export_groups_to_csv svc timestamp groups folder_id s))))
 \<and> ((\<forall>g\<in>set groups. \<exists>e. map_of g ''email'' = Some e
        \<and> (\<forall>w. \<exists>x. fst (groups_settings_get svc (Some e) w) = Inl x
               \<and> (is_HttpError x \<or> x = TimeoutError)))
    \<longrightarrow> csv (snd (export_groups_settings_to_csv svc timestamp groups folder_id s)) = Some [fields]
      \<and> Call (FilesCreate (''gg_settings_backup_'' @ timestamp @ ''.csv'') folder_id [fields])
          \<in> set (new_events s (snd (export_groups_settings_to_csv svc timestamp groups folder_id s))))
 \<and> (list_shared_drives svc fuel None [] s = Some (Inr drives, s1)
    \<and> drives \<noteq> []
    \<and> (\<forall>d\<in>set drives. \<exists>i n. map_of d ''id'' = Some i \<and> map_of d ''name'' = Some n
        \<and> (\<forall>w. \<exists>x. fst (permissions_list svc i None w) = Inl x \<and> is_HttpError x))
    \<longrightarrow> (\<exists>r s'. export_shared_drive_acls svc fuel timestamp folder_id s = Some (r, s')
          \<and> csv s' = Some [[''Shared Drive Name'', ''Shared Drive ID'', ''Permission Email'',
              ''Permission Role'', ''Permission Type'', ''Permission Display Name'']]
          \<and> Call (FilesCreate (''shared_drive_acls_'' @ timestamp @ ''.csv'') folder_id
               [[''Shared Drive Name'', ''Shared Drive ID'', ''Permission Email'',
              ''Permission Role'', ''Permission Type'', ''Permission Display Name'']])
              \<in> set (new_events s s')))
 \<and> (list_shared_drives svc fuel None [] s = Some (Inr [], s1)
    \<longrightarrow> export_shared_drive_acls svc fuel timestamp folder_id s = Some (Inr (), s1)
      \<and> csv s1 = csv s
      \<and> (\<forall>c\<in>set (new_events s s1). \<exists>t. c = Call (DrivesList t)))
 \<and> (get_active_users svc fuel cid s = Some (users, s1)
    \<and> users \<noteq> []
    \<and> cid \<noteq> []
    \<and> (\<forall>u\<in>set users. \<exists>email. primaryEmail u = Some email
        \<and> (\<forall>w. \<exists>status. fst (get_auto_forwarding svc email w) = Inl (HttpError status)))
    \<longrightarrow> (\<exists>r s'. main_forwarding svc fuel timestamp (Some cid) folder_id s = Some (r, s')
          \<and> csv s' = Some [[''Primary Email'', ''Full Name'', ''Forwarding Email Address'',
                             ''Disposition'']]
          \<and> Call (FilesCreate (''active_users_with_forwarding_'' @ timestamp @ ''.csv'') folder_id
               [[''Primary Email'', ''Full Name'', ''Forwarding Email Address'', ''Disposition'']])
              \<in> set (new_events s s')))
 \<and> (get_active_users svc fuel cid s = Some ([], s1)
    \<and> cid \<noteq> []
    \<longrightarrow> main_forwarding svc fuel timestamp (Some cid) folder_id s = Some (Inr (), s1)
      \<and> csv s1 = csv s)"
proof (intro conjI impI; (elim conjE)?)
  assume "(\<forall>g\<in>set groups. \<exists>e. map_of g ''email'' = Some e
        \<and> (\<forall>w. \<exists>x. fst (members_list svc e w) = Inl x \<and> is_HttpError x))"
  then show "csv (snd (export_groups_to_csv svc timestamp groups folder_id s))
          = Some [[''Group Email'', ''Member Email'', ''Role'', ''Status'']]"
    and "Call (FilesCreate (''gg_backup_'' @ timestamp @ ''.csv'') folder_id
                [[''Group Email'', ''Member Email'', ''Role'', ''Status'']])
          \<in> set (new_events s (snd (export_groups_to_csv svc timestamp groups folder_id s)))"
    by (rule export_groups_to_csv_header_only)+
next
  assume "(\<forall>g\<in>set groups. \<exists>e. map_of g ''email'' = Some e
        \<and> (\<forall>w. \<exists>x. fst (groups_settings_get svc (Some e) w) = Inl x
               \<and> (is_HttpError x \<or> x = TimeoutError)))"
  then show "csv (snd (export_groups_settings_to_csv svc timestamp groups folder_id s)) = Some [fields]"
    and "Call (FilesCreate (''gg_settings_backup_'' @ timestamp @ ''.csv'') folder_id [fields])
          \<in> set (new_events s (snd (export_groups_settings_to_csv svc timestamp groups folder_id s)))"
    by (rule export_groups_settings_to_csv_header_only)+
next
  assume "list_shared_drives svc fuel None [] s = Some (Inr drives, s1)" "drives \<noteq> []"
    "(\<forall>d\<in>set drives. \<exists>i n. map_of d ''id'' = Some i \<and> map_of d ''name'' = Some n
        \<and> (\<forall>w. \<exists>x. fst (permissions_list svc i None w) = Inl x \<and> is_HttpError x))"
  then show "(\<exists>r s'. export_shared_drive_acls svc fuel timestamp folder_id s = Some (r, s')
          \<and> csv s' = Some [[''Shared Drive Name'', ''Shared Drive ID'', ''Permission Email'',
              ''Permission Role'', ''Permission Type'', ''Permission Display Name'']]
          \<and> Call (FilesCreate (''shared_drive_acls_'' @ timestamp @ ''.csv'') folder_id
               [[''Shared Drive Name'', ''Shared Drive ID'', ''Permission Email'',
              ''Permission Role'', ''Permission Type'', ''Permission Display Name'']])
              \<in> set (new_events s s'))"
    by (rule shared_drives_header_only)
next
  assume a: "list_shared_drives svc fuel None [] s = Some (Inr [], s1)"
  show "export_shared_drive_acls svc fuel timestamp folder_id s = Some (Inr (), s1)" by (rule shared_drives_none(1) [OF a])
  show "csv s1 = csv s" by (rule shared_drives_none(2) [OF a])
  show "(\<forall>c\<in>set (new_events s s1). \<exists>t. c = Call (DrivesList t))" by (rule shared_drives_none(3) [OF a])
next
  assume "get_active_users svc fuel cid s = Some (users, s1)" "users \<noteq> []" "cid \<noteq> []"
    "(\<forall>u\<in>set users. \<exists>email. primaryEmail u = Some email
        \<and> (\<forall>w. \<exists>status. fst (get_auto_forwarding svc email w) = Inl (HttpError status)))"
  then show "(\<exists>r s'. main_forwarding svc fuel timestamp (Some cid) folder_id s = Some (r, s')
          \<and> csv s' = Some [[''Primary Email'', ''Full Name'', ''Forwarding Email Address'',
                             ''Disposition'']]
          \<and> Call (FilesCreate (''active_users_with_forwarding_'' @ timestamp @ ''.csv'') folder_id
               [[''Primary Email'', ''Full Name'', ''Forwarding Email Address'', ''Disposition'']])
              \<in> set (new_events s s'))"
    by (rule forwarding_header_only)
next
  assume a: "get_active_users svc fuel cid s = Some ([], s1)" "cid \<noteq> []"
  show "main_forwarding svc fuel timestamp (Some cid) folder_id s = Some (Inr (), s1)" by (rule forwarding_none(1) [OF a])
  show "csv s1 = csv s" by (rule forwarding_none(2) [OF a])
qed

theorem header_only_file_without_data_rows_witness:
  "(csv (snd (export_groups_to_csv svc_details_down ''20240828-000000''
             [[(''email'', ''a@y.com'')], [(''email'', ''b@y.com'')]] (Some ''folder'') s0))
      = Some [[''Group Email'', ''Member Email'', ''Role'', ''Status'']]
    \<and> Call (FilesCreate ''gg_backup_20240828-000000.csv'' (Some ''folder'')
              [[''Group Email'', ''Member Email'', ''Role'', ''Status'']])
        \<in> set (new_events s0 (snd (export_groups_to_csv svc_details_down ''20240828-000000''
             [[(''email'', ''a@y.com'')], [(''email'', ''b@y.com'')]] (Some ''folder'') s0))))
 \<and> (csv (snd (export_groups_to_csv svc_ok ''20240828-000000'' [] (Some ''folder'') s0))
      = Some [[''Group Email'', ''Member Email'', ''Role'', ''Status'']]
    \<and> Call (FilesCreate ''gg_backup_20240828-000000.csv'' (Some ''folder'')
              [[''Group Email'', ''Member Email'', ''Role'', ''Status'']])
        \<in> set (new_events s0 (snd (export_groups_to_csv svc_ok ''20240828-000000'' []
                                      (Some ''folder'') s0))))
 \<and> (csv (snd (export_groups_settings_to_csv svc_details_down ''20240829-000000''
             [[(''email'', ''a@y.com'')], [(''email'', ''b@y.com'')]] (Some ''folder'') s0))
      = Some [fields]
    \<and> Call (FilesCreate ''gg_settings_backup_20240829-000000.csv'' (Some ''folder'') [fields])
        \<in> set (new_events s0 (snd (export_groups_settings_to_csv svc_details_down ''20240829-000000''
             [[(''email'', ''a@y.com'')], [(''email'', ''b@y.com'')]] (Some ''folder'') s0))))
 \<and> (\<exists>r s'. export_shared_drive_acls svc_details_down 3 ''20240910-000000'' (Some ''folder'') s0
               = Some (r, s')
        \<and> csv s' = Some [[''Shared Drive Name'', ''Shared Drive ID'', ''Permission Email'',
                           ''Permission Role'', ''Permission Type'', ''Permission Display Name'']]
        \<and> Call (FilesCreate ''shared_drive_acls_20240910-000000.csv'' (Some ''folder'')
                  [[''Shared Drive Name'', ''Shared Drive ID'', ''Permission Email'',
                    ''Permission Role'', ''Permission Type'', ''Permission Display Name'']])
            \<in> set (new_events s0 s'))
 \<and> export_shared_drive_acls svc_no_drives 3 ''20240910-000000'' (Some ''folder'') s0 =
     Some (Inr (), \<lparr>world = 1, trace = [Call (DrivesList None)], csv = None\<rparr>)
 \<and> (\<exists>r s'. main_forwarding svc_details_down 3 ''20240909-000000'' (Some ''C01'') (Some ''folder'') s0
               = Some (r, s')
        \<and> csv s' = Some [[''Primary Email'', ''Full Name'', ''Forwarding Email Address'',
                           ''Disposition'']]
        \<and> Call (FilesCreate ''active_users_with_forwarding_20240909-000000.csv'' (Some ''folder'')
                  [[''Primary Email'', ''Full Name'', ''Forwarding Email Address'', ''Disposition'']])
            \<in> set (new_events s0 s'))
 \<and> main_forwarding svc_no_users 3 ''20240909-000000'' (Some ''C01'') (Some ''folder'') s0 =
     Some (Inr (), \<lparr>world = 1, trace = [Call (UsersList ''C01'' None)], csv = None\<rparr>)"
proof -
  note c1 = header_only_file_without_data_rows [THEN conjunct1]
  note c2 = header_only_file_without_data_rows [THEN conjunct2, THEN conjunct1]
  note c3 = header_only_file_without_data_rows [THEN conjunct2, THEN conjunct2, THEN conjunct1]
  note c4 = header_only_file_without_data_rows [THEN conjunct2, THEN conjunct2, THEN conjunct2,
      THEN conjunct1]
  note c5 = header_only_file_without_data_rows [THEN conjunct2, THEN conjunct2, THEN conjunct2,
      THEN conjunct2, THEN conjunct1]
  note c6 = header_only_file_without_data_rows [THEN conjunct2, THEN conjunct2, THEN conjunct2,
      THEN conjunct2, THEN conjunct2]
  note svc = svc_details_down_def svc_no_drives_def svc_no_users_def svc_ok_def
  let ?two = "[[(''email'', ''a@y.com'')], [(''email'', ''b@y.com'')]]"
  let ?after = "\<lambda>c. \<lparr>world = 1, trace = [c], csv = None\<rparr> :: nat st"
  have w1: "csv (snd (export_groups_to_csv svc_details_down ''20240828-000000'' ?two (Some ''folder'') s0))
      = Some [[''Group Email'', ''Member Email'', ''Role'', ''Status'']]
    \<and> Call (FilesCreate ''gg_backup_20240828-000000.csv'' (Some ''folder'')
              [[''Group Email'', ''Member Email'', ''Role'', ''Status'']])
        \<in> set (new_events s0 (snd (export_groups_to_csv svc_details_down ''20240828-000000''
             ?two (Some ''folder'') s0)))"
    using c1 [of ?two svc_details_down "''20240828-000000''" "Some ''folder''" s0]
    by (simp add: svc)
  have w1': "csv (snd (export_groups_to_csv svc_ok ''20240828-000000'' [] (Some ''folder'') s0))
      = Some [[''Group Email'', ''Member Email'', ''Role'', ''Status'']]
    \<and> Call (FilesCreate ''gg_backup_20240828-000000.csv'' (Some ''folder'')
              [[''Group Email'', ''Member Email'', ''Role'', ''Status'']])
        \<in> set (new_events s0 (snd (export_groups_to_csv svc_ok ''20240828-000000'' []
                                      (Some ''folder'') s0)))"
    using c1 [of "[]" svc_ok "''20240828-000000''" "Some ''folder''" s0]
    by simp
  have w2: "csv (snd (export_groups_settings_to_csv svc_details_down ''20240829-000000''
             ?two (Some ''folder'') s0))
      = Some [fields]
    \<and> Call (FilesCreate ''gg_settings_backup_20240829-000000.csv'' (Some ''folder'') [fields])
        \<in> set (new_events s0 (snd (export_groups_settings_to_csv svc_details_down ''20240829-000000''
             ?two (Some ''folder'') s0)))"
    using c2 [of ?two svc_details_down "''20240829-000000''" "Some ''folder''" s0]
    by (simp add: svc)
  have l3: "list_shared_drives svc_details_down 3 None [] s0
              = Some (Inr [[(''id'', ''d1''), (''name'', ''Drive 1'')]], ?after (Call (DrivesList None)))"
    by (simp add: svc s0_def execute_def no_token_def eval_nat_numeral)
  have w3: "\<exists>r s'. export_shared_drive_acls svc_details_down 3 ''20240910-000000'' (Some ''folder'') s0
               = Some (r, s')
        \<and> csv s' = Some [[''Shared Drive Name'', ''Shared Drive ID'', ''Permission Email'',
                           ''Permission Role'', ''Permission Type'', ''Permission Display Name'']]
        \<and> Call (FilesCreate ''shared_drive_acls_20240910-000000.csv'' (Some ''folder'')
                  [[''Shared Drive Name'', ''Shared Drive ID'', ''Permission Email'',
                    ''Permission Role'', ''Permission Type'', ''Permission Display Name'']])
            \<in> set (new_events s0 s')"
    using c3 [of svc_details_down 3 s0 "[[(''id'', ''d1''), (''name'', ''Drive 1'')]]"
        "?after (Call (DrivesList None))" "''20240910-000000''" "Some ''folder''"] l3
    by (simp add: svc)
  have l4: "list_shared_drives svc_no_drives 3 None [] s0
              = Some (Inr [], ?after (Call (DrivesList None)))"
    by (simp add: svc s0_def execute_def no_token_def eval_nat_numeral)
  have w4: "export_shared_drive_acls svc_no_drives 3 ''20240910-000000'' (Some ''folder'') s0 =
     Some (Inr (), ?after (Call (DrivesList None)))"
    using c4 [of svc_no_drives 3 s0 "?after (Call (DrivesList None))" "''20240910-000000''"
        "Some ''folder''"] l4
    by simp
  let ?u = "\<lparr>primaryEmail = Some ''u@y.com'', fullName = Some ''U'', suspended = None\<rparr>"
  have l5: "get_active_users svc_details_down 3 ''C01'' s0
              = Some ([?u], ?after (Call (UsersList ''C01'' None)))"
    by (simp add: svc s0_def get_active_users_def get_active_users_try_def is_suspended_def
        execute_def eval_nat_numeral)
  have w5: "\<exists>r s'. main_forwarding svc_details_down 3 ''20240909-000000'' (Some ''C01'') (Some ''folder'') s0
               = Some (r, s')
        \<and> csv s' = Some [[''Primary Email'', ''Full Name'', ''Forwarding Email Address'',
                           ''Disposition'']]
        \<and> Call (FilesCreate ''active_users_with_forwarding_20240909-000000.csv'' (Some ''folder'')
                  [[''Primary Email'', ''Full Name'', ''Forwarding Email Address'', ''Disposition'']])
            \<in> set (new_events s0 s')"
    using c5 [of svc_details_down 3 "''C01''" s0 "[?u]" "?after (Call (UsersList ''C01'' None))"
        "''20240909-000000''" "Some ''folder''"] l5
    by (simp add: svc)
  have l6: "get_active_users svc_no_users 3 ''C01'' s0
              = Some ([], ?after (Call (UsersList ''C01'' None)))"
    by (simp add: svc s0_def get_active_users_def get_active_users_try_def is_suspended_def
        execute_def eval_nat_numeral)
  have w6: "main_forwarding svc_no_users 3 ''20240909-000000'' (Some ''C01'') (Some ''folder'') s0 =
     Some (Inr (), ?after (Call (UsersList ''C01'' None)))"
    using c6 [of svc_no_users 3 "''C01''" s0 "?after (Call (UsersList ''C01'' None))"
        "''20240909-000000''" "Some ''folder''"] l6
    by simp
  from w1 w1' w2 w3 w4 w5 w6 show ?thesis
    by (intro conjI) blast+
qed

text \<open>
  Two runs whose listing succeeds and that hand no file to the uploader. A shared-drive run
  whose listing returns no drive ends after the listing call: no file is written. A
  group-members run whose first detail fetch raises \<^verbatim>\<open>TimeoutError\<close>, which neither
  \<^verbatim>\<open>get_group_members\<close> nor \<^verbatim>\<open>export_groups_to_csv\<close> handles, ends with that exception
  after the header row has been written locally: no upload call is made.
\<close>

theorem no_upload_without_data_rows_counterexample:
  "main_shared_drives svc_no_drives 3 ''20240910-000000'' (Some ''folder'') s0 =
     Some (Inr (), \<lparr>world = 1, trace = [Call (DrivesList None)], csv = None\<rparr>)
 \<and> main_groups_backup (svc_flaky 3 TimeoutError) 2 ''20240828-000000'' (Some ''folder'') s0 =
     Some (Inl TimeoutError,
       \<lparr>world = 3,
        trace = [Call (FilesList (Some ''folder'')), Call (GroupsList None),
                 Call (MembersList ''a@y.com'')],
        csv = Some [[''Group Email'', ''Member Email'', ''Role'', ''Status'']]\<rparr>)"
  by (simp add: main_shared_drives_def export_shared_drive_acls_def export_shared_drive_acls_try_def
      svc_no_drives_def svc_flaky_def svc_ok_def s0_def execute_def no_token_def eval_nat_numeral
      main_groups_backup_def check_folder_exists_def get_google_groups_def list_next_def
      export_groups_to_csv_def get_group_members_def open_csv_def writerow_def upt_rec)

end
